theory Spec2Isabelle
  imports Complex_Main
begin

section \<open>Interactive wxmplot: the window registries and the drawing forwarders\<close>

text \<open>
  A shallow embedding of \<^verbatim>\<open>wxmplot/interactive.py\<close>. The module keeps process-wide
  state (the application object, the default theme, two registries of windows) and
  forwards drawing requests to frames of the GUI toolkit. The module's globals and the
  objects it creates are fields of an explicit state; every function takes the state and
  returns the state it leaves behind together with its result, an exception being the
  \<open>Inl\<close> summand of the result.

  The frames, their panels and the toolkit are external collaborators. What the module
  does to them (method calls and attribute assignments, with their arguments) is appended
  to a trace, in program order. A call on a collaborator is taken to return normally and
  not to call back into the module before it returns.
\<close>

subsection \<open>Python values\<close>

type_synonym ref = nat

text \<open>
  The values that flow through the module: \<open>None\<close>, booleans, integers, floats (a finite
  float is the real number it denotes; the module does no float arithmetic), strings,
  tuples, lists (also standing for the data arrays, which the module never inspects),
  references to objects and bound methods of objects.
\<close>

datatype pyval =
    PyNone
  | PyBool bool
  | PyInt int
  | PyFloat real
  | PyStr string
  | PyTuple "pyval list"
  | PyList "pyval list"
  | PyRef ref
  | PyMethod ref string

type_synonym kwargs = "string \<rightharpoonup> pyval"

datatype error = NameError | ValueError | TypeError

text \<open>Truth value testing, as \<^verbatim>\<open>if new:\<close> does it.\<close>

fun truthy :: "pyval \<Rightarrow> bool" where
  "truthy PyNone = False"
| "truthy (PyBool b) = b"
| "truthy (PyInt i) = (i \<noteq> 0)"
| "truthy (PyFloat r) = (r \<noteq> 0)"
| "truthy (PyStr t) = (t \<noteq> [])"
| "truthy (PyTuple vs) = (vs \<noteq> [])"
| "truthy (PyList vs) = (vs \<noteq> [])"
| "truthy (PyRef p) = True"
| "truthy (PyMethod p m) = True"

text \<open>
  \<^verbatim>\<open>int(abs(win))\<close> on a value read from a keyword dictionary: defined on numbers,
  a \<^verbatim>\<open>TypeError\<close> on everything else. (On an integer it is \<open>\<bar>i\<bar>\<close>; the functions below
  that take the handle as an integer apply \<open>abs\<close> themselves, which changes nothing
  here.)
\<close>

fun int_abs :: "pyval \<Rightarrow> error + int" where
  "int_abs (PyInt i) = Inr \<bar>i\<bar>"
| "int_abs (PyBool b) = Inr (if b then 1 else 0)"
| "int_abs (PyFloat r) = Inr \<lfloor>\<bar>r\<bar>\<rfloor>"
| "int_abs v = Inl TypeError"

text \<open>
  A call \<^verbatim>\<open>f(k1=v1, ..., **kws)\<close>: Python raises \<^verbatim>\<open>TypeError\<close> (multiple values for a
  keyword argument) before \<open>f\<close> runs when \<open>kws\<close> holds one of the explicit keywords, and
  otherwise passes the union.
\<close>

definition call_kwargs :: "(string \<times> pyval) list \<Rightarrow> kwargs \<Rightarrow> error + kwargs" where
  "call_kwargs explicit kws =
     (if list_ex (\<lambda>kv. kws (fst kv) \<noteq> None) explicit then Inl TypeError
      else Inr (kws ++ map_of explicit))"

text \<open>Binding a keyword to a named parameter with a default, and what is left for \<^verbatim>\<open>**kws\<close>.\<close>

definition kw_get :: "kwargs \<Rightarrow> string \<Rightarrow> pyval \<Rightarrow> pyval" where
  "kw_get kwargs k dflt = (case kwargs k of Some v \<Rightarrow> v | None \<Rightarrow> dflt)"

definition kw_rest :: "kwargs \<Rightarrow> string list \<Rightarrow> kwargs" where
  "kw_rest kwargs names = (\<lambda>k. if k \<in> set names then None else kwargs k)"

text \<open>\<^verbatim>\<open>str.lower()\<close> on ASCII text, and \<^verbatim>\<open>'%i' % n\<close>.\<close>

definition lower_char :: "char \<Rightarrow> char" where
  "lower_char c =
     (case map_of (zip ''ABCDEFGHIJKLMNOPQRSTUVWXYZ'' ''abcdefghijklmnopqrstuvwxyz'') c of
        Some l \<Rightarrow> l
      | None \<Rightarrow> c)"

definition lower :: "string \<Rightarrow> string" where
  "lower t = map lower_char t"

fun string_of_nat :: "nat \<Rightarrow> string" where
  "string_of_nat n =
     (if n < 10 then [''0123456789'' ! n]
      else string_of_nat (n div 10) @ [''0123456789'' ! (n mod 10)])"

declare string_of_nat.simps [simp del]

definition format_i :: "int \<Rightarrow> string" where
  "format_i i = (if i < 0 then CHR ''-'' # string_of_nat (nat (- i)) else string_of_nat (nat i))"

subsection \<open>The state of the module\<close>

text \<open>
  What the module does to its collaborators: a call of a method (or constructor) on an
  object with positional and keyword arguments, or an attribute assignment.
\<close>

datatype call =
    Call ref string "pyval list" kwargs
  | SetAttr ref string pyval

datatype display_class = PlotDisplay | ImageDisplay

text \<open>The attributes the module itself keeps on a \<^verbatim>\<open>PlotDisplay\<close> or \<^verbatim>\<open>ImageDisplay\<close>.\<close>

record display =
  cls :: display_class
  window :: int
  cursor_hist :: "pyval list"

text \<open>
  The globals \<^verbatim>\<open>wxapp\<close>, \<^verbatim>\<open>DEFAULT_THEME\<close>, \<^verbatim>\<open>IMG_DISPLAYS\<close>, \<^verbatim>\<open>PLOT_DISPLAYS\<close>; the keys of
  \<^verbatim>\<open>config.Themes\<close>, which is defined outside this file and is therefore arbitrary here;
  the application that \<^verbatim>\<open>wx.GetApp()\<close> reports (an application that is constructed
  becomes that one); the objects created so far, the next free reference, and the trace.
\<close>

record state =
  wxapp :: "ref option"
  wx_GetApp :: "ref option"
  DEFAULT_THEME :: string
  Themes :: "string list"
  IMG_DISPLAYS :: "int \<rightharpoonup> ref"
  PLOT_DISPLAYS :: "int \<rightharpoonup> ref"
  objects :: "ref \<rightharpoonup> display"
  next_ref :: ref
  calls :: "call list"

definition MAX_WINDOWS :: int where
  "MAX_WINDOWS = 100"

definition MAX_CURSHIST :: nat where
  "MAX_CURSHIST = 100"

text \<open>The module as imported: no application, no window, the theme \<^verbatim>\<open>'light'\<close>.\<close>

definition initial :: "string list \<Rightarrow> ref option \<Rightarrow> state" where
  "initial themes running =
     \<lparr>wxapp = None, wx_GetApp = running, DEFAULT_THEME = ''light'', Themes = themes,
      IMG_DISPLAYS = Map.empty, PLOT_DISPLAYS = Map.empty, objects = Map.empty,
      next_ref = (case running of None \<Rightarrow> 0 | Some a \<Rightarrow> Suc a), calls = []\<rparr>"

definition emit :: "call list \<Rightarrow> state \<Rightarrow> state" where
  "emit cs s = s\<lparr>calls := calls s @ cs\<rparr>"

subsection \<open>Application accessor and themes\<close>

definition get_wxapp :: "state \<Rightarrow> pyval \<Rightarrow> pyval \<Rightarrow> ref \<times> state" where
  "get_wxapp s redirect clearSigInt =
     (case wxapp s of
        Some a \<Rightarrow> (a, s)
      | None \<Rightarrow>
          (case wx_GetApp s of
             Some a \<Rightarrow> (a, s\<lparr>wxapp := Some a\<rparr>)
           | None \<Rightarrow>
               (let a = next_ref s
                in (a, emit [Call a ''wx.App'' []
                               [''redirect'' \<mapsto> redirect, ''clearSigInt'' \<mapsto> clearSigInt]]
                         (s\<lparr>wxapp := Some a, wx_GetApp := Some a, next_ref := Suc a\<rparr>)))))"

definition wxmainloop :: "state \<Rightarrow> state" where
  "wxmainloop s =
     (case get_wxapp s (PyBool False) (PyBool True) of
        (a, s1) \<Rightarrow> emit [Call a ''MainLoop'' [] Map.empty] s1)"

definition set_theme :: "state \<Rightarrow> string \<Rightarrow> (error + unit) \<times> state" where
  "set_theme s theme =
     (if lower theme \<in> set (Themes s) then (Inr (), s\<lparr>DEFAULT_THEME := lower theme\<rparr>)
      else (Inl ValueError, s))"


subsection \<open>Window entries\<close>

definition PlotDisplay_init ::
  "state \<Rightarrow> int \<Rightarrow> pyval \<Rightarrow> pyval \<Rightarrow> pyval \<Rightarrow> kwargs \<Rightarrow> (error + ref) \<times> state" where
  "PlotDisplay_init s window' wsize theme wintitle kws =
     (let self = next_ref s;
          s0 = s\<lparr>next_ref := Suc self\<rparr>;
          s1 = snd (get_wxapp s0 (PyBool False) (PyBool True));
          theme1 = (if theme = PyNone then PyStr (DEFAULT_THEME s1) else theme);
          wintitle1 = (if wintitle = PyNone then PyStr (''Plot Window '' @ format_i window')
                       else wintitle)
      in case call_kwargs [(''parent'', PyNone), (''size'', wsize), (''title'', wintitle1),
                           (''output_title'', PyStr ''plot''),
                           (''exit_callback'', PyMethod self ''onExit''),
                           (''theme'', theme1)] kws of
           Inl e \<Rightarrow> (Inl e, s1)
         | Inr kw \<Rightarrow>
             (let s2 = emit ([Call self ''PlotFrame.__init__'' [] kw]
                        @ (if wsize \<noteq> PyNone then [Call self ''SetSize'' [wsize] Map.empty] else [])
                        @ [Call self ''Show'' [] Map.empty,
                           Call self ''Raise'' [] Map.empty,
                           SetAttr self ''panel.cursor_callback'' (PyMethod self ''onCursor''),
                           SetAttr self ''panel.cursor_mode'' (PyStr ''zoom'')]) s1;
                  s3 = s2\<lparr>objects := (objects s2)(self \<mapsto>
                          \<lparr>cls = PlotDisplay, window = window', cursor_hist = []\<rparr>)\<rparr>;
                  s4 = (if PLOT_DISPLAYS s3 window' = None
                        then s3\<lparr>PLOT_DISPLAYS := (PLOT_DISPLAYS s3)(window' \<mapsto> self)\<rparr>
                        else s3)
              in (Inr self, s4)))"

definition PlotDisplay_onExit :: "state \<Rightarrow> ref \<Rightarrow> pyval \<Rightarrow> kwargs \<Rightarrow> state" where
  "PlotDisplay_onExit s self ob kw =
     (case objects s self of
        None \<Rightarrow> s
      | Some d \<Rightarrow>
          (let s1 = (if PLOT_DISPLAYS s (window d) \<noteq> None
                     then s\<lparr>PLOT_DISPLAYS := (PLOT_DISPLAYS s)(window d := None)\<rparr>
                     else s)
           in emit [Call self ''Destroy'' [] Map.empty] s1))"

definition PlotDisplay_onCursor ::
  "state \<Rightarrow> ref \<Rightarrow> pyval \<Rightarrow> pyval \<Rightarrow> kwargs \<Rightarrow> real \<Rightarrow> state" where
  "PlotDisplay_onCursor s self x y kw now =
     (case objects s self of
        None \<Rightarrow> s
      | Some d \<Rightarrow>
          (let hist = PyTuple [x, y, PyFloat now] # cursor_hist d;
               hist1 = (if length hist > MAX_CURSHIST then take MAX_CURSHIST hist else hist)
           in s\<lparr>objects := (objects s)(self \<mapsto> d\<lparr>cursor_hist := hist1\<rparr>)\<rparr>))"

definition ImageDisplay_init ::
  "state \<Rightarrow> int \<Rightarrow> pyval \<Rightarrow> pyval \<Rightarrow> pyval \<Rightarrow> kwargs \<Rightarrow> (error + ref) \<times> state" where
  "ImageDisplay_init s window' wsize theme wintitle kws =
     (let self = next_ref s;
          s0 = s\<lparr>next_ref := Suc self\<rparr>;
          s1 = snd (get_wxapp s0 (PyBool False) (PyBool True));
          wintitle1 = (if wintitle = PyNone then PyStr (''Image Window '' @ format_i window')
                       else wintitle)
      in case call_kwargs [(''parent'', PyNone), (''size'', wsize), (''title'', wintitle1),
                           (''exit_callback'', PyMethod self ''onExit'')] kws of
           Inl e \<Rightarrow> (Inl e, s1)
         | Inr kw \<Rightarrow>
             (let s2 = emit ([Call self ''ImageFrame.__init__'' [] kw]
                        @ (if wsize \<noteq> PyNone then [Call self ''SetSize'' [wsize] Map.empty] else [])
                        @ [Call self ''Show'' [] Map.empty,
                           Call self ''Raise'' [] Map.empty,
                           SetAttr self ''panel.cursor_callback'' (PyMethod self ''onCursor'')]) s1;
                  s3 = s2\<lparr>objects := (objects s2)(self \<mapsto>
                          \<lparr>cls = ImageDisplay, window = window', cursor_hist = []\<rparr>)\<rparr>;
                  s4 = (if IMG_DISPLAYS s3 window' = None
                        then s3\<lparr>IMG_DISPLAYS := (IMG_DISPLAYS s3)(window' \<mapsto> self)\<rparr>
                        else s3)
              in (Inr self, s4)))"

definition ImageDisplay_onExit :: "state \<Rightarrow> ref \<Rightarrow> pyval \<Rightarrow> kwargs \<Rightarrow> state" where
  "ImageDisplay_onExit s self ob kw =
     (case objects s self of
        None \<Rightarrow> s
      | Some d \<Rightarrow>
          (let s1 = (if IMG_DISPLAYS s (window d) \<noteq> None
                     then s\<lparr>IMG_DISPLAYS := (IMG_DISPLAYS s)(window d := None)\<rparr>
                     else s)
           in emit [Call self ''Destroy'' [] Map.empty] s1))"

definition ImageDisplay_onCursor ::
  "state \<Rightarrow> ref \<Rightarrow> pyval \<Rightarrow> pyval \<Rightarrow> pyval \<Rightarrow> pyval \<Rightarrow> pyval \<Rightarrow> kwargs \<Rightarrow> real \<Rightarrow> state" where
  "ImageDisplay_onCursor s self x y ix iy val kw now =
     (case objects s self of
        None \<Rightarrow> s
      | Some d \<Rightarrow>
          (let hist = PyTuple [x, y, ix, iy, PyFloat now] # cursor_hist d;
               hist1 = (if length hist > MAX_CURSHIST then take MAX_CURSHIST hist else hist)
           in s\<lparr>objects := (objects s)(self \<mapsto> d\<lparr>cursor_hist := hist1\<rparr>)\<rparr>))"

subsection \<open>Window factory\<close>

text \<open>
  The handle \<open>win\<close> is an integer, so \<^verbatim>\<open>int(abs(win))\<close> is \<open>\<bar>win\<bar>\<close>. The result is the
  window object, or \<open>None\<close> where Python's \<^verbatim>\<open>None\<close> would be returned (the factories
  never return it, the forwarders test for it).
\<close>

definition get_plot_window ::
  "state \<Rightarrow> int \<Rightarrow> pyval \<Rightarrow> pyval \<Rightarrow> pyval \<Rightarrow> (error + ref option) \<times> state" where
  "get_plot_window s win wsize wintitle theme =
     (let win1 = max 1 (min MAX_WINDOWS \<bar>win\<bar>)
      in case PLOT_DISPLAYS s win1 of
           Some display \<Rightarrow> (Inr (Some display), s)
         | None \<Rightarrow>
             (case PlotDisplay_init s win1 wsize theme wintitle Map.empty of
                (Inl e, s1) \<Rightarrow> (Inl e, s1)
              | (Inr display, s1) \<Rightarrow> (Inr (Some display), s1)))"

text \<open>
  In \<^verbatim>\<open>get_image_window\<close> the branch for a handle that is present reads the name
  \<^verbatim>\<open>IMG_DISPLAY\<close>, which the module does not define: Python raises \<^verbatim>\<open>NameError\<close>.
\<close>

definition get_image_window ::
  "state \<Rightarrow> int \<Rightarrow> pyval \<Rightarrow> pyval \<Rightarrow> (error + ref option) \<times> state" where
  "get_image_window s win wsize wintitle =
     (let win1 = max 1 (min MAX_WINDOWS \<bar>win\<bar>)
      in case IMG_DISPLAYS s win1 of
           Some display \<Rightarrow> (Inl NameError, s)
         | None \<Rightarrow>
             (case ImageDisplay_init s win1 wsize PyNone wintitle Map.empty of
                (Inl e, s1) \<Rightarrow> (Inl e, s1)
              | (Inr display, s1) \<Rightarrow> (Inr (Some display), s1)))"

subsection \<open>Drawing forwarders\<close>

text \<open>
  The parameters of a forwarder are the parameters of the Python function, in its order,
  with \<open>kws\<close> the dictionary that \<^verbatim>\<open>**kws\<close> collects: the keywords of the call that
  name none of the function's own parameters.
\<close>

definition plot ::
  "state \<Rightarrow> pyval \<Rightarrow> pyval \<Rightarrow> int \<Rightarrow> bool \<Rightarrow> pyval \<Rightarrow> pyval \<Rightarrow> pyval \<Rightarrow> kwargs
     \<Rightarrow> (error + ref option) \<times> state" where
  "plot s x y win new wsize wintitle theme kws =
     (case get_plot_window s win wsize wintitle theme of
        (Inl e, s1) \<Rightarrow> (Inl e, s1)
      | (Inr None, s1) \<Rightarrow> (Inr None, s1)
      | (Inr (Some plotter), s1) \<Rightarrow>
          (let s2 = emit [Call plotter ''Raise'' [] Map.empty] s1
           in (Inr (Some plotter),
               (if new then emit [Call plotter ''plot'' [x, y] kws] s2
                else emit [Call plotter ''oplot'' [x, y] kws] s2))))"

definition update_trace ::
  "state \<Rightarrow> pyval \<Rightarrow> pyval \<Rightarrow> int \<Rightarrow> int \<Rightarrow> kwargs \<Rightarrow> (error + unit) \<times> state" where
  "update_trace s x y trace win kws =
     (case get_plot_window s win PyNone PyNone PyNone of
        (Inl e, s1) \<Rightarrow> (Inl e, s1)
      | (Inr None, s1) \<Rightarrow> (Inr (), s1)
      | (Inr (Some plotter), s1) \<Rightarrow>
          (let s2 = emit [Call plotter ''Raise'' [] Map.empty] s1;
               trace1 = trace - 1
           in case call_kwargs [(''draw'', PyBool True)] kws of
                Inl e \<Rightarrow> (Inl e, s2)
              | Inr kw \<Rightarrow>
                  (Inr (), emit [Call plotter ''panel.update_line'' [PyInt trace1, x, y] kw] s2)))"

definition plot_setlimits ::
  "state \<Rightarrow> pyval \<Rightarrow> pyval \<Rightarrow> pyval \<Rightarrow> pyval \<Rightarrow> int \<Rightarrow> (error + unit) \<times> state" where
  "plot_setlimits s xmin xmax ymin ymax win =
     (case get_plot_window s win PyNone PyNone PyNone of
        (Inl e, s1) \<Rightarrow> (Inl e, s1)
      | (Inr None, s1) \<Rightarrow> (Inr (), s1)
      | (Inr (Some plotter), s1) \<Rightarrow>
          (Inr (), emit [Call plotter ''panel.set_xylims''
                           [PyTuple [xmin, xmax, ymin, ymax]] Map.empty] s1))"

text \<open>
  \<^verbatim>\<open>plot(x, y, **kwargs)\<close>: Python binds the keywords \<^verbatim>\<open>win\<close>, \<^verbatim>\<open>new\<close>, \<^verbatim>\<open>size\<close>,
  \<^verbatim>\<open>wintitle\<close>, \<^verbatim>\<open>theme\<close> to the parameters of those names (defaults \<open>1\<close>, \<open>False\<close>,
  \<open>None\<close>), refuses a keyword \<^verbatim>\<open>x\<close> or \<^verbatim>\<open>y\<close> (given positionally already), and
  collects the rest in \<^verbatim>\<open>**kws\<close>. A handle that is no number fails in the first
  statement of \<^verbatim>\<open>plot\<close>, at \<^verbatim>\<open>abs(win)\<close>, before anything is done.
\<close>

definition plot_kw :: "state \<Rightarrow> pyval \<Rightarrow> pyval \<Rightarrow> kwargs \<Rightarrow> (error + ref option) \<times> state" where
  "plot_kw s x y kwargs =
     (if kwargs ''x'' = None \<and> kwargs ''y'' = None
      then case int_abs (kw_get kwargs ''win'' (PyInt 1)) of
             Inl e \<Rightarrow> (Inl e, s)
           | Inr win \<Rightarrow>
               plot s x y win (truthy (kw_get kwargs ''new'' (PyBool False)))
                 (kw_get kwargs ''size'' PyNone) (kw_get kwargs ''wintitle'' PyNone)
                 (kw_get kwargs ''theme'' PyNone)
                 (kw_rest kwargs [''win'', ''new'', ''size'', ''wintitle'', ''theme''])
      else (Inl TypeError, s))"

text \<open>The call expression \<^verbatim>\<open>plot(x, y, k1=v1, ..., **kws)\<close>.\<close>

definition plot_call ::
  "state \<Rightarrow> pyval \<Rightarrow> pyval \<Rightarrow> (string \<times> pyval) list \<Rightarrow> kwargs
     \<Rightarrow> (error + ref option) \<times> state" where
  "plot_call s x y explicit kws =
     (case call_kwargs explicit kws of
        Inl e \<Rightarrow> (Inl e, s)
      | Inr kwargs \<Rightarrow> plot_kw s x y kwargs)"

definition newplot ::
  "state \<Rightarrow> pyval \<Rightarrow> pyval \<Rightarrow> int \<Rightarrow> pyval \<Rightarrow> kwargs \<Rightarrow> (error + ref option) \<times> state" where
  "newplot s x y win wintitle kws =
     (let kws1 = kws(''new'' \<mapsto> PyBool True)
      in plot_call s x y [(''win'', PyInt win), (''wintitle'', wintitle)] kws1)"

definition plot_text ::
  "state \<Rightarrow> pyval \<Rightarrow> pyval \<Rightarrow> pyval \<Rightarrow> int \<Rightarrow> pyval \<Rightarrow> pyval \<Rightarrow> pyval \<Rightarrow> pyval \<Rightarrow> pyval
     \<Rightarrow> kwargs \<Rightarrow> (error + unit) \<times> state" where
  "plot_text s text' x y win rotation ha va side wsize kws =
     (case get_plot_window s win wsize PyNone PyNone of
        (Inl e, s1) \<Rightarrow> (Inl e, s1)
      | (Inr None, s1) \<Rightarrow> (Inr (), s1)
      | (Inr (Some plotter), s1) \<Rightarrow>
          (let s2 = emit [Call plotter ''Raise'' [] Map.empty] s1
           in case call_kwargs [(''rotation'', rotation), (''ha'', ha), (''va'', va)] kws of
                Inl e \<Rightarrow> (Inl e, s2)
              | Inr kw \<Rightarrow> (Inr (), emit [Call plotter ''add_text'' [text', x, y] kw] s2)))"

definition plot_arrow ::
  "state \<Rightarrow> pyval \<Rightarrow> pyval \<Rightarrow> pyval \<Rightarrow> pyval \<Rightarrow> int \<Rightarrow> pyval \<Rightarrow> pyval \<Rightarrow> pyval \<Rightarrow> pyval
     \<Rightarrow> pyval \<Rightarrow> pyval \<Rightarrow> pyval \<Rightarrow> kwargs \<Rightarrow> (error + unit) \<times> state" where
  "plot_arrow s x1 y1 x2 y2 win side shape color width head_width head_length wsize kws =
     (case get_plot_window s win wsize PyNone PyNone of
        (Inl e, s1) \<Rightarrow> (Inl e, s1)
      | (Inr None, s1) \<Rightarrow> (Inr (), s1)
      | (Inr (Some plotter), s1) \<Rightarrow>
          (let s2 = emit [Call plotter ''Raise'' [] Map.empty] s1
           in case call_kwargs [(''side'', side), (''shape'', shape), (''color'', color),
                                (''width'', width), (''head_length'', head_length),
                                (''head_width'', head_width)] kws of
                Inl e \<Rightarrow> (Inl e, s2)
              | Inr kw \<Rightarrow> (Inr (), emit [Call plotter ''add_arrow'' [x1, y1, x2, y2] kw] s2)))"

definition plot_marker ::
  "state \<Rightarrow> pyval \<Rightarrow> pyval \<Rightarrow> pyval \<Rightarrow> pyval \<Rightarrow> pyval \<Rightarrow> pyval \<Rightarrow> int \<Rightarrow> kwargs
     \<Rightarrow> (error + unit) \<times> state" where
  "plot_marker s x y marker msize color label win kws =
     (case get_plot_window s win PyNone PyNone PyNone of
        (Inl e, s1) \<Rightarrow> (Inl e, s1)
      | (Inr None, s1) \<Rightarrow> (Inr (), s1)
      | (Inr (Some plotter), s1) \<Rightarrow>
          (let s2 = emit [Call plotter ''Raise'' [] Map.empty] s1
           in case call_kwargs [(''marker'', marker), (''markersize'', msize),
                                (''label'', label), (''color'', color)] kws of
                Inl e \<Rightarrow> (Inl e, s2)
              | Inr kw \<Rightarrow>
                  (Inr (), emit [Call plotter ''oplot'' [PyList [x], PyList [y]] kw] s2)))"

definition plot_axhline ::
  "state \<Rightarrow> pyval \<Rightarrow> pyval \<Rightarrow> pyval \<Rightarrow> int \<Rightarrow> pyval \<Rightarrow> bool \<Rightarrow> kwargs
     \<Rightarrow> (error + unit) \<times> state" where
  "plot_axhline s y xmin xmax win wsize delay_draw kws =
     (case get_plot_window s win wsize PyNone PyNone of
        (Inl e, s1) \<Rightarrow> (Inl e, s1)
      | (Inr None, s1) \<Rightarrow> (Inr (), s1)
      | (Inr (Some plotter), s1) \<Rightarrow>
          (let s2 = emit [Call plotter ''Raise'' [] Map.empty] s1;
               kws1 = (if kws ''label'' = None then kws(''label'' \<mapsto> PyStr ''_nolegend_'')
                       else kws)
           in case call_kwargs [(''xmin'', xmin), (''xmax'', xmax)] kws1 of
                Inl e \<Rightarrow> (Inl e, s2)
              | Inr kw \<Rightarrow>
                  (let s3 = emit [Call plotter ''panel.axes.axhline'' [y] kw] s2
                   in (Inr (),
                       (if delay_draw
                        then emit [Call plotter ''panel.canvas.draw'' [] Map.empty] s3
                        else s3)))))"

definition plot_axvline ::
  "state \<Rightarrow> pyval \<Rightarrow> pyval \<Rightarrow> pyval \<Rightarrow> int \<Rightarrow> pyval \<Rightarrow> bool \<Rightarrow> kwargs
     \<Rightarrow> (error + unit) \<times> state" where
  "plot_axvline s x ymin ymax win wsize delay_draw kws =
     (case get_plot_window s win wsize PyNone PyNone of
        (Inl e, s1) \<Rightarrow> (Inl e, s1)
      | (Inr None, s1) \<Rightarrow> (Inr (), s1)
      | (Inr (Some plotter), s1) \<Rightarrow>
          (let s2 = emit [Call plotter ''Raise'' [] Map.empty] s1;
               kws1 = (if kws ''label'' = None then kws(''label'' \<mapsto> PyStr ''_nolegend_'')
                       else kws)
           in case call_kwargs [(''ymin'', ymin), (''ymax'', ymax)] kws1 of
                Inl e \<Rightarrow> (Inl e, s2)
              | Inr kw \<Rightarrow>
                  (let s3 = emit [Call plotter ''panel.axes.axvline'' [x] kw] s2
                   in (Inr (),
                       (if \<not> delay_draw
                        then emit [Call plotter ''panel.canvas.draw'' [] Map.empty] s3
                        else s3)))))"

text \<open>
  \<^verbatim>\<open>hist\<close> returns what the axes' \<^verbatim>\<open>hist\<close> returns; that value is the parameter
  \<open>out\<close>. The extra positional arguments \<^verbatim>\<open>*args\<close> and \<^verbatim>\<open>force_draw\<close> are not used.
\<close>

definition hist ::
  "state \<Rightarrow> pyval \<Rightarrow> pyval \<Rightarrow> int \<Rightarrow> bool \<Rightarrow> pyval \<Rightarrow> pyval \<Rightarrow> pyval \<Rightarrow> pyval list \<Rightarrow> kwargs
     \<Rightarrow> pyval \<Rightarrow> (error + pyval) \<times> state" where
  "hist s x bins win new wsize force_draw title args kws out =
     (case get_plot_window s win wsize PyNone PyNone of
        (Inl e, s1) \<Rightarrow> (Inl e, s1)
      | (Inr None, s1) \<Rightarrow> (Inr PyNone, s1)
      | (Inr (Some plotter), s1) \<Rightarrow>
          (let s2 = emit [Call plotter ''Raise'' [] Map.empty] s1;
               s3 = (if new then emit [Call plotter ''panel.axes.clear'' [] Map.empty] s2 else s2)
           in case call_kwargs [(''bins'', bins)] kws of
                Inl e \<Rightarrow> (Inl e, s3)
              | Inr kw \<Rightarrow>
                  (let s4 = emit [Call plotter ''panel.axes.hist'' [x] kw] s3;
                       s5 = (if title \<noteq> PyNone
                             then emit [Call plotter ''panel.set_title'' [title] Map.empty] s4
                             else s4)
                   in (Inr out, emit [Call plotter ''panel.canvas.draw'' [] Map.empty] s5))))"

definition imshow ::
  "state \<Rightarrow> pyval \<Rightarrow> pyval \<Rightarrow> pyval \<Rightarrow> pyval \<Rightarrow> int \<Rightarrow> pyval \<Rightarrow> pyval \<Rightarrow> kwargs
     \<Rightarrow> (error + ref option) \<times> state" where
  "imshow s map' x y colormap win wintitle wsize kws =
     (case get_image_window s win wsize wintitle of
        (Inl e, s1) \<Rightarrow> (Inl e, s1)
      | (Inr None, s1) \<Rightarrow> (Inr None, s1)
      | (Inr (Some img), s1) \<Rightarrow>
          (case call_kwargs [(''x'', x), (''y'', y), (''colormap'', colormap)] kws of
             Inl e \<Rightarrow> (Inl e, s1)
           | Inr kw \<Rightarrow> (Inr (Some img), emit [Call img ''display'' [map'] kw] s1)))"

text \<open>
  \<^verbatim>\<open>imshow(map, **kwargs)\<close>: the keywords \<^verbatim>\<open>x\<close>, \<^verbatim>\<open>y\<close>, \<^verbatim>\<open>colormap\<close>, \<^verbatim>\<open>win\<close>,
  \<^verbatim>\<open>wintitle\<close>, \<^verbatim>\<open>size\<close> are bound to the parameters of those names, a keyword
  \<^verbatim>\<open>map\<close> is refused, the rest is \<^verbatim>\<open>**kws\<close>.
\<close>

definition imshow_kw :: "state \<Rightarrow> pyval \<Rightarrow> kwargs \<Rightarrow> (error + ref option) \<times> state" where
  "imshow_kw s map' kwargs =
     (if kwargs ''map'' = None
      then case int_abs (kw_get kwargs ''win'' (PyInt 1)) of
             Inl e \<Rightarrow> (Inl e, s)
           | Inr win \<Rightarrow>
               imshow s map' (kw_get kwargs ''x'' PyNone) (kw_get kwargs ''y'' PyNone)
                 (kw_get kwargs ''colormap'' PyNone) win (kw_get kwargs ''wintitle'' PyNone)
                 (kw_get kwargs ''size'' PyNone)
                 (kw_rest kwargs [''x'', ''y'', ''colormap'', ''win'', ''wintitle'', ''size''])
      else (Inl TypeError, s))"

definition imshow_call ::
  "state \<Rightarrow> pyval \<Rightarrow> (string \<times> pyval) list \<Rightarrow> kwargs \<Rightarrow> (error + ref option) \<times> state" where
  "imshow_call s map' explicit kws =
     (case call_kwargs explicit kws of
        Inl e \<Rightarrow> (Inl e, s)
      | Inr kwargs \<Rightarrow> imshow_kw s map' kwargs)"

definition contour :: "state \<Rightarrow> pyval \<Rightarrow> pyval \<Rightarrow> pyval \<Rightarrow> kwargs \<Rightarrow> (error + unit) \<times> state" where
  "contour s map' x y kws =
     (let kws1 = kws(''style'' \<mapsto> PyStr ''contour'')
      in case imshow_call s map' [(''x'', x), (''y'', y)] kws1 of
           (Inl e, s1) \<Rightarrow> (Inl e, s1)
         | (Inr img, s1) \<Rightarrow> (Inr (), s1))"

subsection \<open>Callbacks and runs of the module\<close>

text \<open>
  The frame calls \<^verbatim>\<open>exit_callback\<close> when the user closes it, and its panel calls
  \<^verbatim>\<open>cursor_callback\<close> on a cursor event. Both are bound methods of the window entry, so
  the class of the entry selects the code that runs. The reading of the clock taken by
  \<^verbatim>\<open>time.time()\<close> is part of the event.
\<close>

record cursor_event =
  ev_x :: pyval
  ev_y :: pyval
  ev_ix :: pyval
  ev_iy :: pyval
  ev_val :: pyval
  ev_kw :: kwargs
  ev_time :: real

definition exit_callback :: "state \<Rightarrow> ref \<Rightarrow> pyval \<Rightarrow> kwargs \<Rightarrow> state" where
  "exit_callback s p ob kw =
     (case objects s p of
        None \<Rightarrow> s
      | Some d \<Rightarrow>
          (case cls d of
             PlotDisplay \<Rightarrow> PlotDisplay_onExit s p ob kw
           | ImageDisplay \<Rightarrow> ImageDisplay_onExit s p ob kw))"

definition cursor_callback :: "state \<Rightarrow> ref \<Rightarrow> cursor_event \<Rightarrow> state" where
  "cursor_callback s p ev =
     (case objects s p of
        None \<Rightarrow> s
      | Some d \<Rightarrow>
          (case cls d of
             PlotDisplay \<Rightarrow> PlotDisplay_onCursor s p (ev_x ev) (ev_y ev) (ev_kw ev) (ev_time ev)
           | ImageDisplay \<Rightarrow>
               ImageDisplay_onCursor s p (ev_x ev) (ev_y ev) (ev_ix ev) (ev_iy ev) (ev_val ev)
                 (ev_kw ev) (ev_time ev)))"

text \<open>The entry that a cursor event leaves in the history of a window of each class.\<close>

definition cursor_entry :: "display_class \<Rightarrow> cursor_event \<Rightarrow> pyval" where
  "cursor_entry c ev =
     (case c of
        PlotDisplay \<Rightarrow> PyTuple [ev_x ev, ev_y ev, PyFloat (ev_time ev)]
      | ImageDisplay \<Rightarrow> PyTuple [ev_x ev, ev_y ev, ev_ix ev, ev_iy ev, PyFloat (ev_time ev)])"

text \<open>
  Everything that can happen to the state of the module: a call of one of its functions,
  the construction of a window entry, or a callback from the toolkit.
\<close>

datatype operation =
    GetWxApp pyval pyval
  | WxMainLoop
  | SetTheme string
  | AvailableThemes
  | NewPlotDisplay int pyval pyval pyval kwargs
  | NewImageDisplay int pyval pyval pyval kwargs
  | GetPlotWindow int pyval pyval pyval
  | GetImageWindow int pyval pyval
  | Plot pyval pyval int bool pyval pyval pyval kwargs
  | UpdateTrace pyval pyval int int kwargs
  | PlotSetLimits pyval pyval pyval pyval int
  | NewPlot pyval pyval int pyval kwargs
  | PlotText pyval pyval pyval int pyval pyval pyval pyval pyval kwargs
  | PlotArrow pyval pyval pyval pyval int pyval pyval pyval pyval pyval pyval pyval kwargs
  | PlotMarker pyval pyval pyval pyval pyval pyval int kwargs
  | PlotAxhline pyval pyval pyval int pyval bool kwargs
  | PlotAxvline pyval pyval pyval int pyval bool kwargs
  | Hist pyval pyval int bool pyval pyval pyval "pyval list" kwargs pyval
  | Imshow pyval pyval pyval pyval int pyval pyval kwargs
  | Contour pyval pyval pyval kwargs
  | ExitCallback ref pyval kwargs
  | CursorCallback ref cursor_event

fun step :: "state \<Rightarrow> operation \<Rightarrow> state" where
  "step s (GetWxApp redirect clearSigInt) = snd (get_wxapp s redirect clearSigInt)"
| "step s WxMainLoop = wxmainloop s"
| "step s (SetTheme theme) = snd (set_theme s theme)"
| "step s AvailableThemes = s"
| "step s (NewPlotDisplay w wsize theme wintitle kws) =
     snd (PlotDisplay_init s w wsize theme wintitle kws)"
| "step s (NewImageDisplay w wsize theme wintitle kws) =
     snd (ImageDisplay_init s w wsize theme wintitle kws)"
| "step s (GetPlotWindow win wsize wintitle theme) =
     snd (get_plot_window s win wsize wintitle theme)"
| "step s (GetImageWindow win wsize wintitle) = snd (get_image_window s win wsize wintitle)"
| "step s (Plot x y win new wsize wintitle theme kws) =
     snd (plot s x y win new wsize wintitle theme kws)"
| "step s (UpdateTrace x y trace win kws) = snd (update_trace s x y trace win kws)"
| "step s (PlotSetLimits xmin xmax ymin ymax win) = snd (plot_setlimits s xmin xmax ymin ymax win)"
| "step s (NewPlot x y win wintitle kws) = snd (newplot s x y win wintitle kws)"
| "step s (PlotText text' x y win rotation ha va side wsize kws) =
     snd (plot_text s text' x y win rotation ha va side wsize kws)"
| "step s (PlotArrow x1 y1 x2 y2 win side shape color width head_width head_length wsize kws) =
     snd (plot_arrow s x1 y1 x2 y2 win side shape color width head_width head_length wsize kws)"
| "step s (PlotMarker x y marker msize color label win kws) =
     snd (plot_marker s x y marker msize color label win kws)"
| "step s (PlotAxhline y xmin xmax win wsize delay_draw kws) =
     snd (plot_axhline s y xmin xmax win wsize delay_draw kws)"
| "step s (PlotAxvline x ymin ymax win wsize delay_draw kws) =
     snd (plot_axvline s x ymin ymax win wsize delay_draw kws)"
| "step s (Hist x bins win new wsize force_draw title args kws out) =
     snd (hist s x bins win new wsize force_draw title args kws out)"
| "step s (Imshow map' x y colormap win wintitle wsize kws) =
     snd (imshow s map' x y colormap win wintitle wsize kws)"
| "step s (Contour map' x y kws) = snd (contour s map' x y kws)"
| "step s (ExitCallback p ob kw) = exit_callback s p ob kw"
| "step s (CursorCallback p ev) = cursor_callback s p ev"

definition run :: "state \<Rightarrow> operation list \<Rightarrow> state" where
  "run s ops = foldl step s ops"

text \<open>Reading the trace: the calls made between two states, and the calls of given methods.\<close>

definition issued :: "state \<Rightarrow> state \<Rightarrow> call list" where
  "issued s s1 = drop (length (calls s)) (calls s1)"

fun is_call :: "string list \<Rightarrow> call \<Rightarrow> bool" where
  "is_call methods (Call p m args kw) = (m \<in> set methods)"
| "is_call methods (SetAttr p a v) = False"

fun call_keyword :: "string \<Rightarrow> call \<Rightarrow> pyval option" where
  "call_keyword k (Call p m args kw) = kw k"
| "call_keyword k (SetAttr p a v) = None"

definition apps_constructed :: "state \<Rightarrow> nat" where
  "apps_constructed s = length (filter (is_call [''wx.App'']) (calls s))"

definition draw_calls :: "string list \<Rightarrow> state \<Rightarrow> state \<Rightarrow> call list" where
  "draw_calls methods s s1 = filter (is_call methods) (issued s s1)"

text \<open>
  The calls that set a window up (made by the constructors and the application
  accessor), and the methods of the drawing surface that the forwarders call.
\<close>

fun window_setup :: "call \<Rightarrow> bool" where
  "window_setup (Call p m args kw) =
     (m \<in> set [''wx.App'', ''PlotFrame.__init__'', ''ImageFrame.__init__'', ''SetSize'',
               ''Show'', ''Raise''])"
| "window_setup (SetAttr p a v) = True"

definition surface_methods :: "string list" where
  "surface_methods =
     [''Raise'', ''plot'', ''oplot'', ''panel.update_line'', ''panel.set_xylims'', ''add_text'',
      ''add_arrow'', ''panel.axes.axhline'', ''panel.axes.axvline'', ''panel.canvas.draw'',
      ''panel.axes.clear'', ''panel.axes.hist'', ''panel.set_title'', ''display'']"

text \<open>
  How many applications can still be constructed: one while the module has none and the
  toolkit reports none, and none afterwards.
\<close>

definition app_budget :: "state \<Rightarrow> nat" where
  "app_budget s =
     apps_constructed s + (if wxapp s = None \<and> wx_GetApp s = None then 1 else 0)"

text \<open>
  A forwarder passes a keyword dictionary \<open>kws\<close> through when it makes exactly one draw
  call (a call of one of \<open>methods\<close>) whose keyword arguments hold every entry of \<open>kws\<close>
  with its value, and besides them only the keywords \<open>added\<close>.
\<close>

definition passes_through ::
  "kwargs \<Rightarrow> string list \<Rightarrow> string list \<Rightarrow> state \<Rightarrow> state \<Rightarrow> bool" where
  "passes_through kws methods added s s1 =
     (\<exists>p m args kw. draw_calls methods s s1 = [Call p m args kw]
        \<and> kws \<subseteq>\<^sub>m kw \<and> dom kw = dom kws \<union> set added)"

text \<open>
  Two relations between a state and a later one, used to follow the state through a run.
  \<open>app_stable\<close>: the application, once the module or the toolkit has one, stays the
  same, and the budget of constructions does not grow. \<open>extends\<close>: in addition no registry
  entry is removed or replaced, the themes are untouched, and every object is either
  as it was or newly allocated with an empty cursor history.
\<close>

definition app_stable :: "state \<Rightarrow> state \<Rightarrow> bool" where
  "app_stable s s1 =
     (app_budget s1 \<le> app_budget s \<and> apps_constructed s \<le> apps_constructed s1
      \<and> (wxapp s = None \<or> wxapp s1 = wxapp s)
      \<and> (wx_GetApp s = None \<or> wx_GetApp s1 = wx_GetApp s))"

definition extends :: "state \<Rightarrow> state \<Rightarrow> bool" where
  "extends s s1 =
     (PLOT_DISPLAYS s \<subseteq>\<^sub>m PLOT_DISPLAYS s1 \<and> IMG_DISPLAYS s \<subseteq>\<^sub>m IMG_DISPLAYS s1
      \<and> app_stable s s1 \<and> Themes s1 = Themes s \<and> DEFAULT_THEME s1 = DEFAULT_THEME s
      \<and> next_ref s \<le> next_ref s1
      \<and> (\<forall>p d. objects s1 p = Some d \<longrightarrow>
            objects s p = Some d \<or> (cursor_hist d = [] \<and> next_ref s \<le> p \<and> p < next_ref s1)))"

section \<open>Properties\<close>

subsection \<open>Basic facts about the trace, the application accessor and the constructors\<close>

lemma emit_fields [simp]:
  "wxapp (emit cs s) = wxapp s"
  "wx_GetApp (emit cs s) = wx_GetApp s"
  "DEFAULT_THEME (emit cs s) = DEFAULT_THEME s"
  "Themes (emit cs s) = Themes s"
  "IMG_DISPLAYS (emit cs s) = IMG_DISPLAYS s"
  "PLOT_DISPLAYS (emit cs s) = PLOT_DISPLAYS s"
  "objects (emit cs s) = objects s"
  "next_ref (emit cs s) = next_ref s"
  "calls (emit cs s) = calls s @ cs"
  by (simp_all add: emit_def)

lemma emit_emit: "emit cs2 (emit cs1 s) = emit (cs1 @ cs2) s"
  by (simp add: emit_def)

lemma emit_Nil [simp]: "emit [] s = s"
  by (simp add: emit_def)

lemma get_wxapp_fields [simp]:
  "DEFAULT_THEME (snd (get_wxapp s r c)) = DEFAULT_THEME s"
  "Themes (snd (get_wxapp s r c)) = Themes s"
  "IMG_DISPLAYS (snd (get_wxapp s r c)) = IMG_DISPLAYS s"
  "PLOT_DISPLAYS (snd (get_wxapp s r c)) = PLOT_DISPLAYS s"
  "objects (snd (get_wxapp s r c)) = objects s"
  by (simp_all add: get_wxapp_def Let_def split: option.splits)

lemma get_wxapp_next_ref: "next_ref s \<le> next_ref (snd (get_wxapp s r c))"
  by (simp add: get_wxapp_def Let_def split: option.splits)

lemma call_kwargs_empty [simp]: "call_kwargs explicit Map.empty = Inr (map_of explicit)"
  by (simp add: call_kwargs_def list_ex_iff)

lemma PlotDisplay_init_empty_fst [simp]:
  "fst (PlotDisplay_init s w wsize theme wintitle Map.empty) = Inr (next_ref s)"
  by (simp add: PlotDisplay_init_def Let_def split: sum.splits)

lemma PlotDisplay_init_empty_fields [simp]:
  "PLOT_DISPLAYS (snd (PlotDisplay_init s w wsize theme wintitle Map.empty)) =
     (if PLOT_DISPLAYS s w = None then (PLOT_DISPLAYS s)(w \<mapsto> next_ref s) else PLOT_DISPLAYS s)"
  "IMG_DISPLAYS (snd (PlotDisplay_init s w wsize theme wintitle Map.empty)) = IMG_DISPLAYS s"
  "objects (snd (PlotDisplay_init s w wsize theme wintitle Map.empty)) =
     (objects s)(next_ref s \<mapsto> \<lparr>cls = PlotDisplay, window = w, cursor_hist = []\<rparr>)"
  "DEFAULT_THEME (snd (PlotDisplay_init s w wsize theme wintitle Map.empty)) = DEFAULT_THEME s"
  "Themes (snd (PlotDisplay_init s w wsize theme wintitle Map.empty)) = Themes s"
  by (simp_all add: PlotDisplay_init_def Let_def split: sum.splits)


lemma ImageDisplay_init_empty_fst [simp]:
  "fst (ImageDisplay_init s w wsize theme wintitle Map.empty) = Inr (next_ref s)"
  by (simp add: ImageDisplay_init_def Let_def split: sum.splits)

lemma ImageDisplay_init_empty_fields [simp]:
  "IMG_DISPLAYS (snd (ImageDisplay_init s w wsize theme wintitle Map.empty)) =
     (if IMG_DISPLAYS s w = None then (IMG_DISPLAYS s)(w \<mapsto> next_ref s) else IMG_DISPLAYS s)"
  "PLOT_DISPLAYS (snd (ImageDisplay_init s w wsize theme wintitle Map.empty)) = PLOT_DISPLAYS s"
  "objects (snd (ImageDisplay_init s w wsize theme wintitle Map.empty)) =
     (objects s)(next_ref s \<mapsto> \<lparr>cls = ImageDisplay, window = w, cursor_hist = []\<rparr>)"
  "DEFAULT_THEME (snd (ImageDisplay_init s w wsize theme wintitle Map.empty)) = DEFAULT_THEME s"
  "Themes (snd (ImageDisplay_init s w wsize theme wintitle Map.empty)) = Themes s"
  by (simp_all add: ImageDisplay_init_def Let_def split: sum.splits)

lemma get_plot_window_present:
  "PLOT_DISPLAYS s (max 1 (min 100 \<bar>win\<bar>)) = Some p \<Longrightarrow>
     get_plot_window s win wsize wintitle theme = (Inr (Some p), s)"
  by (simp add: get_plot_window_def MAX_WINDOWS_def)

lemma get_plot_window_absent:
  "PLOT_DISPLAYS s (max 1 (min 100 \<bar>win\<bar>)) = None \<Longrightarrow>
     get_plot_window s win wsize wintitle theme =
       (Inr (Some (next_ref s)),
        snd (PlotDisplay_init s (max 1 (min 100 \<bar>win\<bar>)) wsize theme wintitle Map.empty))"
proof -
  assume a: "PLOT_DISPLAYS s (max 1 (min 100 \<bar>win\<bar>)) = None"
  obtain r s1 where e: "PlotDisplay_init s (max 1 (min 100 \<bar>win\<bar>)) wsize theme wintitle Map.empty = (r, s1)"
    by (cases "PlotDisplay_init s (max 1 (min 100 \<bar>win\<bar>)) wsize theme wintitle Map.empty")
  have "fst (PlotDisplay_init s (max 1 (min 100 \<bar>win\<bar>)) wsize theme wintitle Map.empty) = Inr (next_ref s)"
    by simp
  with e have r: "r = Inr (next_ref s)" by simp
  show ?thesis using a e r by (simp add: get_plot_window_def MAX_WINDOWS_def)
qed

lemma get_image_window_present:
  "IMG_DISPLAYS s (max 1 (min 100 \<bar>win\<bar>)) = Some p \<Longrightarrow>
     get_image_window s win wsize wintitle = (Inl NameError, s)"
  by (simp add: get_image_window_def MAX_WINDOWS_def)

lemma get_image_window_absent:
  "IMG_DISPLAYS s (max 1 (min 100 \<bar>win\<bar>)) = None \<Longrightarrow>
     get_image_window s win wsize wintitle =
       (Inr (Some (next_ref s)),
        snd (ImageDisplay_init s (max 1 (min 100 \<bar>win\<bar>)) wsize PyNone wintitle Map.empty))"
proof -
  assume a: "IMG_DISPLAYS s (max 1 (min 100 \<bar>win\<bar>)) = None"
  obtain r s1 where e: "ImageDisplay_init s (max 1 (min 100 \<bar>win\<bar>)) wsize PyNone wintitle Map.empty = (r, s1)"
    by (cases "ImageDisplay_init s (max 1 (min 100 \<bar>win\<bar>)) wsize PyNone wintitle Map.empty")
  have "fst (ImageDisplay_init s (max 1 (min 100 \<bar>win\<bar>)) wsize PyNone wintitle Map.empty) = Inr (next_ref s)"
    by simp
  with e have r: "r = Inr (next_ref s)" by simp
  show ?thesis using a e r by (simp add: get_image_window_def MAX_WINDOWS_def)
qed

lemma issued_append: "calls s1 = calls s @ cs \<Longrightarrow> issued s s1 = cs"
  by (simp add: issued_def)

lemma issued_emit [simp]: "issued s (emit cs s) = cs"
  by (simp add: issued_def)

lemma get_wxapp_setup:
  "\<exists>cs. calls (snd (get_wxapp s r c)) = calls s @ cs \<and> list_all window_setup cs"
  by (simp add: get_wxapp_def Let_def split: option.splits)

lemma PlotDisplay_init_calls:
  "\<exists>cs. calls (snd (PlotDisplay_init s w wsize theme wintitle kws)) = calls s @ cs
        \<and> list_all window_setup cs"
proof -
  obtain cs where cs: "calls (snd (get_wxapp (s\<lparr>next_ref := Suc (next_ref s)\<rparr>) (PyBool False) (PyBool True)))
      = calls s @ cs" "list_all window_setup cs"
    using get_wxapp_setup [of "s\<lparr>next_ref := Suc (next_ref s)\<rparr>" "PyBool False" "PyBool True"]
    by auto
  then show ?thesis
    by (simp add: PlotDisplay_init_def Let_def call_kwargs_def)
qed

lemma ImageDisplay_init_calls:
  "\<exists>cs. calls (snd (ImageDisplay_init s w wsize theme wintitle kws)) = calls s @ cs
        \<and> list_all window_setup cs"
proof -
  obtain cs where cs: "calls (snd (get_wxapp (s\<lparr>next_ref := Suc (next_ref s)\<rparr>) (PyBool False) (PyBool True)))
      = calls s @ cs" "list_all window_setup cs"
    using get_wxapp_setup [of "s\<lparr>next_ref := Suc (next_ref s)\<rparr>" "PyBool False" "PyBool True"]
    by auto
  then show ?thesis
    by (simp add: ImageDisplay_init_def Let_def call_kwargs_def)
qed

lemma PlotDisplay_init_next_ref:
  "next_ref s < next_ref (snd (PlotDisplay_init s w wsize theme wintitle kws))"
  using get_wxapp_next_ref [of "s\<lparr>next_ref := Suc (next_ref s)\<rparr>" "PyBool False" "PyBool True"]
  by (simp add: PlotDisplay_init_def Let_def call_kwargs_def)

lemma ImageDisplay_init_next_ref:
  "next_ref s < next_ref (snd (ImageDisplay_init s w wsize theme wintitle kws))"
  using get_wxapp_next_ref [of "s\<lparr>next_ref := Suc (next_ref s)\<rparr>" "PyBool False" "PyBool True"]
  by (simp add: ImageDisplay_init_def Let_def call_kwargs_def)

text \<open>What \<^verbatim>\<open>get_plot_window\<close> returns and leaves behind, in one statement.\<close>

lemma get_plot_window_summary:
  "\<exists>p s1 cs. get_plot_window s win wsize wintitle theme = (Inr (Some p), s1)
     \<and> PLOT_DISPLAYS s1 = (PLOT_DISPLAYS s)(max 1 (min 100 \<bar>win\<bar>) \<mapsto> p)
     \<and> IMG_DISPLAYS s1 = IMG_DISPLAYS s
     \<and> DEFAULT_THEME s1 = DEFAULT_THEME s \<and> Themes s1 = Themes s
     \<and> (PLOT_DISPLAYS s (max 1 (min 100 \<bar>win\<bar>)) = Some p \<and> s1 = s
        \<or> PLOT_DISPLAYS s (max 1 (min 100 \<bar>win\<bar>)) = None \<and> p = next_ref s
          \<and> s1 = snd (PlotDisplay_init s (max 1 (min 100 \<bar>win\<bar>)) wsize theme wintitle Map.empty)
          \<and> objects s1 = (objects s)(p \<mapsto>
               \<lparr>cls = PlotDisplay, window = max 1 (min 100 \<bar>win\<bar>), cursor_hist = []\<rparr>))
     \<and> calls s1 = calls s @ cs \<and> list_all window_setup cs
     \<and> next_ref s \<le> next_ref s1"
proof (cases "PLOT_DISPLAYS s (max 1 (min 100 \<bar>win\<bar>))")
  case None
  obtain cs where cs:
    "calls (snd (PlotDisplay_init s (max 1 (min 100 \<bar>win\<bar>)) wsize theme wintitle Map.empty)) = calls s @ cs"
    "list_all window_setup cs"
    using PlotDisplay_init_calls by blast
  show ?thesis
    using None cs get_plot_window_absent [OF None, of wsize wintitle theme]
      PlotDisplay_init_next_ref [of s "max 1 (min 100 \<bar>win\<bar>)" wsize theme wintitle Map.empty]
    by simp
next
  case (Some p)
  have "(PLOT_DISPLAYS s)(max 1 (min 100 \<bar>win\<bar>) \<mapsto> p) = PLOT_DISPLAYS s"
    using Some by (simp add: map_upd_triv)
  then show ?thesis
    using Some get_plot_window_present [OF Some, of wsize wintitle theme] by simp
qed

lemma get_image_window_summary:
  "\<exists>r s1 cs. get_image_window s win wsize wintitle = (r, s1)
     \<and> PLOT_DISPLAYS s1 = PLOT_DISPLAYS s
     \<and> DEFAULT_THEME s1 = DEFAULT_THEME s \<and> Themes s1 = Themes s
     \<and> ((\<exists>q. IMG_DISPLAYS s (max 1 (min 100 \<bar>win\<bar>)) = Some q) \<and> r = Inl NameError \<and> s1 = s
        \<or> IMG_DISPLAYS s (max 1 (min 100 \<bar>win\<bar>)) = None \<and> r = Inr (Some (next_ref s))
          \<and> s1 = snd (ImageDisplay_init s (max 1 (min 100 \<bar>win\<bar>)) wsize PyNone wintitle Map.empty)
          \<and> IMG_DISPLAYS s1 = (IMG_DISPLAYS s)(max 1 (min 100 \<bar>win\<bar>) \<mapsto> next_ref s)
          \<and> objects s1 = (objects s)(next_ref s \<mapsto>
               \<lparr>cls = ImageDisplay, window = max 1 (min 100 \<bar>win\<bar>), cursor_hist = []\<rparr>))
     \<and> calls s1 = calls s @ cs \<and> list_all window_setup cs
     \<and> next_ref s \<le> next_ref s1"
proof (cases "IMG_DISPLAYS s (max 1 (min 100 \<bar>win\<bar>))")
  case None
  obtain cs where cs:
    "calls (snd (ImageDisplay_init s (max 1 (min 100 \<bar>win\<bar>)) wsize PyNone wintitle Map.empty)) = calls s @ cs"
    "list_all window_setup cs"
    using ImageDisplay_init_calls by blast
  show ?thesis
    using None cs get_image_window_absent [OF None, of wsize wintitle]
      ImageDisplay_init_next_ref [of s "max 1 (min 100 \<bar>win\<bar>)" wsize PyNone wintitle Map.empty]
    by simp
next
  case (Some p)
  then show ?thesis
    using get_image_window_present [OF Some, of wsize wintitle] by simp
qed

subsection \<open>Themes\<close>




subsection \<open>The image factory on a handle that is present\<close>

text \<open>
  Claim C2 says that \<^verbatim>\<open>get_image_window\<close> returns the existing entry for a handle that
  is already in the image registry. The code does not: in a fresh module, the first
  \<^verbatim>\<open>get_image_window(win=1)\<close> creates the window with reference \<open>0\<close> and registers it
  under \<open>1\<close>, and the second call raises \<^verbatim>\<open>NameError\<close>, leaving the state as it is.
\<close>

theorem get_image_window_second_call_fails:
  "fst (get_image_window (initial [] None) 1 PyNone PyNone) = Inr (Some 0)
   \<and> IMG_DISPLAYS (snd (get_image_window (initial [] None) 1 PyNone PyNone)) 1 = Some 0
   \<and> get_image_window (snd (get_image_window (initial [] None) 1 PyNone PyNone)) 1 PyNone PyNone =
       (Inl NameError, snd (get_image_window (initial [] None) 1 PyNone PyNone))"
proof -
  let ?s0 = "initial [] None"
  have a: "IMG_DISPLAYS ?s0 (max 1 (min 100 \<bar>1\<bar>)) = None" by (simp add: initial_def)
  have n: "next_ref ?s0 = 0" by (simp add: initial_def)
  have g: "get_image_window ?s0 1 PyNone PyNone =
      (Inr (Some 0), snd (ImageDisplay_init ?s0 (max 1 (min 100 \<bar>1\<bar>)) PyNone PyNone PyNone Map.empty))"
    using get_image_window_absent [OF a, of PyNone PyNone] n by simp
  have r: "IMG_DISPLAYS (snd (get_image_window ?s0 1 PyNone PyNone)) 1 = Some 0"
    using a n by (simp add: g)
  then have "IMG_DISPLAYS (snd (get_image_window ?s0 1 PyNone PyNone)) (max 1 (min 100 \<bar>1\<bar>)) = Some 0"
    by simp
  from get_image_window_present [OF this] r g show ?thesis by simp
qed

subsection \<open>The window factories\<close>

text \<open>
  Claim C1. For every integer handle \<open>h\<close> the factories work on the handle
  \<open>max 1 (min 100 \<bar>h\<bar>)\<close>, which lies in \<open>[1, 100]\<close>. \<^verbatim>\<open>get_plot_window\<close> returns the
  entry that the plot registry holds under that handle afterwards: the one already there
  (and then nothing changes), or a new entry whose \<^verbatim>\<open>window\<close> is that handle.
  \<^verbatim>\<open>get_image_window\<close> looks the same handle up in the image registry and, when it is
  absent, registers a new entry under it whose \<^verbatim>\<open>window\<close> is that handle (when it is
  present the call raises and changes nothing). In every case the only key a registry can
  gain is that handle, and the other registry is untouched.
\<close>

theorem factories_clamp_handle:
  "1 \<le> max 1 (min 100 \<bar>h\<bar>) \<and> max 1 (min 100 \<bar>h\<bar>) \<le> 100
   \<and> (\<exists>p s1. get_plot_window s h wsize wintitle theme = (Inr (Some p), s1)
        \<and> PLOT_DISPLAYS s1 (max 1 (min 100 \<bar>h\<bar>)) = Some p
        \<and> dom (PLOT_DISPLAYS s1) = insert (max 1 (min 100 \<bar>h\<bar>)) (dom (PLOT_DISPLAYS s))
        \<and> IMG_DISPLAYS s1 = IMG_DISPLAYS s
        \<and> (PLOT_DISPLAYS s (max 1 (min 100 \<bar>h\<bar>)) = Some p \<and> s1 = s
           \<or> PLOT_DISPLAYS s (max 1 (min 100 \<bar>h\<bar>)) = None \<and> p = next_ref s
             \<and> objects s1 p =
                 Some \<lparr>cls = PlotDisplay, window = max 1 (min 100 \<bar>h\<bar>), cursor_hist = []\<rparr>))
   \<and> (\<exists>r s1. get_image_window s h wsize wintitle = (r, s1)
        \<and> dom (IMG_DISPLAYS s1) = insert (max 1 (min 100 \<bar>h\<bar>)) (dom (IMG_DISPLAYS s))
        \<and> PLOT_DISPLAYS s1 = PLOT_DISPLAYS s
        \<and> (max 1 (min 100 \<bar>h\<bar>) \<in> dom (IMG_DISPLAYS s) \<and> r = Inl NameError \<and> s1 = s
           \<or> IMG_DISPLAYS s (max 1 (min 100 \<bar>h\<bar>)) = None \<and> r = Inr (Some (next_ref s))
             \<and> IMG_DISPLAYS s1 (max 1 (min 100 \<bar>h\<bar>)) = Some (next_ref s)
             \<and> objects s1 (next_ref s) =
                 Some \<lparr>cls = ImageDisplay, window = max 1 (min 100 \<bar>h\<bar>), cursor_hist = []\<rparr>))"
proof (intro conjI)
  show "1 \<le> max 1 (min 100 \<bar>h\<bar>)" by simp
  show "max 1 (min 100 \<bar>h\<bar>) \<le> 100" by simp
next
  obtain p s1 where g: "get_plot_window s h wsize wintitle theme = (Inr (Some p), s1)"
    and r: "PLOT_DISPLAYS s1 = (PLOT_DISPLAYS s)(max 1 (min 100 \<bar>h\<bar>) \<mapsto> p)"
    and i: "IMG_DISPLAYS s1 = IMG_DISPLAYS s"
    and c: "PLOT_DISPLAYS s (max 1 (min 100 \<bar>h\<bar>)) = Some p \<and> s1 = s
        \<or> PLOT_DISPLAYS s (max 1 (min 100 \<bar>h\<bar>)) = None \<and> p = next_ref s
          \<and> s1 = snd (PlotDisplay_init s (max 1 (min 100 \<bar>h\<bar>)) wsize theme wintitle Map.empty)
          \<and> objects s1 = (objects s)(p \<mapsto>
               \<lparr>cls = PlotDisplay, window = max 1 (min 100 \<bar>h\<bar>), cursor_hist = []\<rparr>)"
    using get_plot_window_summary [of s h wsize wintitle theme] by blast
  from c have c': "PLOT_DISPLAYS s (max 1 (min 100 \<bar>h\<bar>)) = Some p \<and> s1 = s
           \<or> PLOT_DISPLAYS s (max 1 (min 100 \<bar>h\<bar>)) = None \<and> p = next_ref s
             \<and> objects s1 p =
                 Some \<lparr>cls = PlotDisplay, window = max 1 (min 100 \<bar>h\<bar>), cursor_hist = []\<rparr>"
    by auto
  show "\<exists>p s1. get_plot_window s h wsize wintitle theme = (Inr (Some p), s1)
        \<and> PLOT_DISPLAYS s1 (max 1 (min 100 \<bar>h\<bar>)) = Some p
        \<and> dom (PLOT_DISPLAYS s1) = insert (max 1 (min 100 \<bar>h\<bar>)) (dom (PLOT_DISPLAYS s))
        \<and> IMG_DISPLAYS s1 = IMG_DISPLAYS s
        \<and> (PLOT_DISPLAYS s (max 1 (min 100 \<bar>h\<bar>)) = Some p \<and> s1 = s
           \<or> PLOT_DISPLAYS s (max 1 (min 100 \<bar>h\<bar>)) = None \<and> p = next_ref s
             \<and> objects s1 p =
                 Some \<lparr>cls = PlotDisplay, window = max 1 (min 100 \<bar>h\<bar>), cursor_hist = []\<rparr>)"
    using g r i c' by (intro exI [of _ p] exI [of _ s1]) simp
next
  obtain r s1 where g: "get_image_window s h wsize wintitle = (r, s1)"
    and pl: "PLOT_DISPLAYS s1 = PLOT_DISPLAYS s"
    and c: "(\<exists>q. IMG_DISPLAYS s (max 1 (min 100 \<bar>h\<bar>)) = Some q) \<and> r = Inl NameError \<and> s1 = s
        \<or> IMG_DISPLAYS s (max 1 (min 100 \<bar>h\<bar>)) = None \<and> r = Inr (Some (next_ref s))
          \<and> s1 = snd (ImageDisplay_init s (max 1 (min 100 \<bar>h\<bar>)) wsize PyNone wintitle Map.empty)
          \<and> IMG_DISPLAYS s1 = (IMG_DISPLAYS s)(max 1 (min 100 \<bar>h\<bar>) \<mapsto> next_ref s)
          \<and> objects s1 = (objects s)(next_ref s \<mapsto>
               \<lparr>cls = ImageDisplay, window = max 1 (min 100 \<bar>h\<bar>), cursor_hist = []\<rparr>)"
    using get_image_window_summary [of s h wsize wintitle] by blast
  from c have d: "dom (IMG_DISPLAYS s1) = insert (max 1 (min 100 \<bar>h\<bar>)) (dom (IMG_DISPLAYS s))"
    by auto
  from c have c': "max 1 (min 100 \<bar>h\<bar>) \<in> dom (IMG_DISPLAYS s) \<and> r = Inl NameError \<and> s1 = s
           \<or> IMG_DISPLAYS s (max 1 (min 100 \<bar>h\<bar>)) = None \<and> r = Inr (Some (next_ref s))
             \<and> IMG_DISPLAYS s1 (max 1 (min 100 \<bar>h\<bar>)) = Some (next_ref s)
             \<and> objects s1 (next_ref s) =
                 Some \<lparr>cls = ImageDisplay, window = max 1 (min 100 \<bar>h\<bar>), cursor_hist = []\<rparr>"
    by auto
  show "\<exists>r s1. get_image_window s h wsize wintitle = (r, s1)
        \<and> dom (IMG_DISPLAYS s1) = insert (max 1 (min 100 \<bar>h\<bar>)) (dom (IMG_DISPLAYS s))
        \<and> PLOT_DISPLAYS s1 = PLOT_DISPLAYS s
        \<and> (max 1 (min 100 \<bar>h\<bar>) \<in> dom (IMG_DISPLAYS s) \<and> r = Inl NameError \<and> s1 = s
           \<or> IMG_DISPLAYS s (max 1 (min 100 \<bar>h\<bar>)) = None \<and> r = Inr (Some (next_ref s))
             \<and> IMG_DISPLAYS s1 (max 1 (min 100 \<bar>h\<bar>)) = Some (next_ref s)
             \<and> objects s1 (next_ref s) =
                 Some \<lparr>cls = ImageDisplay, window = max 1 (min 100 \<bar>h\<bar>), cursor_hist = []\<rparr>)"
    using g d pl c' by (intro exI [of _ r] exI [of _ s1]) simp
qed

subsection \<open>Plotting twice into one window\<close>

lemma plot_unfold:
  "\<exists>p. fst (get_plot_window s win wsize wintitle theme) = Inr (Some p)
     \<and> plot s x y win new wsize wintitle theme kws =
         (Inr (Some p),
          emit [Call p ''Raise'' [] Map.empty, Call p (if new then ''plot'' else ''oplot'') [x, y] kws]
            (snd (get_plot_window s win wsize wintitle theme)))"
proof -
  obtain p s1 where g: "get_plot_window s win wsize wintitle theme = (Inr (Some p), s1)"
    using get_plot_window_summary [of s win wsize wintitle theme] by blast
  then show ?thesis
    by (simp add: plot_def Let_def emit_emit)
qed

text \<open>
  Claim C3. When \<^verbatim>\<open>plot\<close> has been called with handle \<open>h\<close> and \<^verbatim>\<open>new=False\<close>, a
  second such call with the same handle (whatever its other arguments) returns the same
  window object, which is the entry of the plot registry for the handle. The second
  call adds two calls on that window to the trace (\<^verbatim>\<open>Raise\<close> and \<^verbatim>\<open>oplot\<close>) and changes
  nothing else: no object is created and no registry is written.
\<close>

theorem plot_twice_reuses_window:
  assumes "plot s x y h False wsize wintitle theme kws = (r1, s1)"
  shows "\<exists>p. r1 = Inr (Some p)
           \<and> PLOT_DISPLAYS s1 (max 1 (min 100 \<bar>h\<bar>)) = Some p
           \<and> plot s1 x2 y2 h False wsize2 wintitle2 theme2 kws2 =
               (Inr (Some p),
                emit [Call p ''Raise'' [] Map.empty, Call p ''oplot'' [x2, y2] kws2] s1)"
proof -
  obtain p s0 where g: "get_plot_window s h wsize wintitle theme = (Inr (Some p), s0)"
    and r: "PLOT_DISPLAYS s0 = (PLOT_DISPLAYS s)(max 1 (min 100 \<bar>h\<bar>) \<mapsto> p)"
    using get_plot_window_summary [of s h wsize wintitle theme] by blast
  from plot_unfold [of s h wsize wintitle theme x y False kws] g assms
  have r1: "r1 = Inr (Some p)"
    and s1: "s1 = emit [Call p ''Raise'' [] Map.empty, Call p ''oplot'' [x, y] kws] s0"
    by simp_all
  from r s1 have reg: "PLOT_DISPLAYS s1 (max 1 (min 100 \<bar>h\<bar>)) = Some p"
    by simp
  from get_plot_window_present [OF reg, of wsize2 wintitle2 theme2]
    plot_unfold [of s1 h wsize2 wintitle2 theme2 x2 y2 False kws2]
  have "plot s1 x2 y2 h False wsize2 wintitle2 theme2 kws2 =
      (Inr (Some p), emit [Call p ''Raise'' [] Map.empty, Call p ''oplot'' [x2, y2] kws2] s1)"
    by simp
  with r1 reg show ?thesis by simp
qed

theorem plot_twice_reuses_window_witness:
  "fst (plot (initial [] None) (PyList [PyInt 0, PyInt 1]) (PyList [PyInt 2, PyInt 3]) 7 False
          PyNone PyNone PyNone Map.empty) = Inr (Some 0)
   \<and> fst (plot (snd (plot (initial [] None) (PyList [PyInt 0, PyInt 1]) (PyList [PyInt 2, PyInt 3])
                        7 False PyNone PyNone PyNone Map.empty))
              (PyList [PyInt 4]) (PyList [PyInt 5]) 7 False (PyTuple [PyInt 400, PyInt 300])
              (PyStr ''again'') PyNone [''color'' \<mapsto> PyStr ''red'']) = Inr (Some 0)"
proof -
  have a: "PLOT_DISPLAYS (initial [] None) (max 1 (min 100 \<bar>7\<bar>)) = None"
    by (simp add: initial_def)
  have "fst (get_plot_window (initial [] None) 7 PyNone PyNone PyNone) = Inr (Some 0)"
    using get_plot_window_absent [OF a, of PyNone PyNone PyNone] by (simp add: initial_def)
  then have "fst (plot (initial [] None) (PyList [PyInt 0, PyInt 1]) (PyList [PyInt 2, PyInt 3]) 7 False
          PyNone PyNone PyNone Map.empty) = Inr (Some 0)"
    using plot_unfold [of "initial [] None" 7 PyNone PyNone PyNone
        "PyList [PyInt 0, PyInt 1]" "PyList [PyInt 2, PyInt 3]" False Map.empty]
    by auto
  then show ?thesis
    using plot_twice_reuses_window [OF surjective_pairing,
      of "initial [] None" "PyList [PyInt 0, PyInt 1]" "PyList [PyInt 2, PyInt 3]" 7
         PyNone PyNone PyNone Map.empty
         "PyList [PyInt 4]" "PyList [PyInt 5]" "PyTuple [PyInt 400, PyInt 300]"
         "PyStr ''again''" PyNone "[''color'' \<mapsto> PyStr ''red'']"]
    by auto
qed

subsection \<open>What each forwarder does once the window is resolved\<close>

text \<open>
  The factory for plot windows always returns a window, so a forwarder either stops at
  a duplicated keyword, after \<^verbatim>\<open>Raise\<close>, or makes its draw call.
\<close>

lemma update_trace_unfold:
  "\<exists>p. fst (get_plot_window s win PyNone PyNone PyNone) = Inr (Some p)
     \<and> (call_kwargs [(''draw'', PyBool True)] kws = Inl TypeError
          \<and> update_trace s x y trace win kws =
              (Inl TypeError,
               emit [Call p ''Raise'' [] Map.empty] (snd (get_plot_window s win PyNone PyNone PyNone)))
        \<or> call_kwargs [(''draw'', PyBool True)] kws = Inr (kws ++ map_of [(''draw'', PyBool True)])
          \<and> update_trace s x y trace win kws =
              (Inr (),
               emit [Call p ''Raise'' [] Map.empty,
                     Call p ''panel.update_line'' [PyInt (trace - 1), x, y]
                       (kws ++ map_of [(''draw'', PyBool True)])]
                 (snd (get_plot_window s win PyNone PyNone PyNone))))"
proof -
  obtain p s1 where g: "get_plot_window s win PyNone PyNone PyNone = (Inr (Some p), s1)"
    using get_plot_window_summary [of s win PyNone PyNone PyNone] by blast
  then show ?thesis
    by (simp add: update_trace_def Let_def emit_emit call_kwargs_def)
qed

lemma plot_setlimits_unfold:
  "\<exists>p. fst (get_plot_window s win PyNone PyNone PyNone) = Inr (Some p)
     \<and> plot_setlimits s xmin xmax ymin ymax win =
         (Inr (),
          emit [Call p ''panel.set_xylims'' [PyTuple [xmin, xmax, ymin, ymax]] Map.empty]
            (snd (get_plot_window s win PyNone PyNone PyNone)))"
proof -
  obtain p s1 where g: "get_plot_window s win PyNone PyNone PyNone = (Inr (Some p), s1)"
    using get_plot_window_summary [of s win PyNone PyNone PyNone] by blast
  then show ?thesis
    by (simp add: plot_setlimits_def)
qed

lemma plot_text_unfold:
  "\<exists>p. fst (get_plot_window s win wsize PyNone PyNone) = Inr (Some p)
     \<and> (call_kwargs [(''rotation'', rotation), (''ha'', ha), (''va'', va)] kws = Inl TypeError
          \<and> plot_text s text' x y win rotation ha va side wsize kws =
              (Inl TypeError,
               emit [Call p ''Raise'' [] Map.empty] (snd (get_plot_window s win wsize PyNone PyNone)))
        \<or> call_kwargs [(''rotation'', rotation), (''ha'', ha), (''va'', va)] kws =
            Inr (kws ++ map_of [(''rotation'', rotation), (''ha'', ha), (''va'', va)])
          \<and> plot_text s text' x y win rotation ha va side wsize kws =
              (Inr (),
               emit [Call p ''Raise'' [] Map.empty,
                     Call p ''add_text'' [text', x, y]
                       (kws ++ map_of [(''rotation'', rotation), (''ha'', ha), (''va'', va)])]
                 (snd (get_plot_window s win wsize PyNone PyNone))))"
proof -
  obtain p s1 where g: "get_plot_window s win wsize PyNone PyNone = (Inr (Some p), s1)"
    using get_plot_window_summary [of s win wsize PyNone PyNone] by blast
  then show ?thesis
    by (simp add: plot_text_def Let_def emit_emit call_kwargs_def)
qed

lemma plot_arrow_unfold:
  "\<exists>p. fst (get_plot_window s win wsize PyNone PyNone) = Inr (Some p)
     \<and> (call_kwargs [(''side'', side), (''shape'', shape), (''color'', color), (''width'', width),
                      (''head_length'', head_length), (''head_width'', head_width)] kws = Inl TypeError
          \<and> plot_arrow s x1 y1 x2 y2 win side shape color width head_width head_length wsize kws =
              (Inl TypeError,
               emit [Call p ''Raise'' [] Map.empty] (snd (get_plot_window s win wsize PyNone PyNone)))
        \<or> call_kwargs [(''side'', side), (''shape'', shape), (''color'', color), (''width'', width),
                        (''head_length'', head_length), (''head_width'', head_width)] kws =
            Inr (kws ++ map_of [(''side'', side), (''shape'', shape), (''color'', color),
                                (''width'', width), (''head_length'', head_length),
                                (''head_width'', head_width)])
          \<and> plot_arrow s x1 y1 x2 y2 win side shape color width head_width head_length wsize kws =
              (Inr (),
               emit [Call p ''Raise'' [] Map.empty,
                     Call p ''add_arrow'' [x1, y1, x2, y2]
                       (kws ++ map_of [(''side'', side), (''shape'', shape), (''color'', color),
                                       (''width'', width), (''head_length'', head_length),
                                       (''head_width'', head_width)])]
                 (snd (get_plot_window s win wsize PyNone PyNone))))"
proof -
  obtain p s1 where g: "get_plot_window s win wsize PyNone PyNone = (Inr (Some p), s1)"
    using get_plot_window_summary [of s win wsize PyNone PyNone] by blast
  then show ?thesis
    by (simp add: plot_arrow_def Let_def emit_emit call_kwargs_def)
qed

lemma plot_marker_unfold:
  "\<exists>p. fst (get_plot_window s win PyNone PyNone PyNone) = Inr (Some p)
     \<and> (call_kwargs [(''marker'', marker), (''markersize'', msize), (''label'', label),
                      (''color'', color)] kws = Inl TypeError
          \<and> plot_marker s x y marker msize color label win kws =
              (Inl TypeError,
               emit [Call p ''Raise'' [] Map.empty] (snd (get_plot_window s win PyNone PyNone PyNone)))
        \<or> call_kwargs [(''marker'', marker), (''markersize'', msize), (''label'', label),
                        (''color'', color)] kws =
            Inr (kws ++ map_of [(''marker'', marker), (''markersize'', msize), (''label'', label),
                                (''color'', color)])
          \<and> plot_marker s x y marker msize color label win kws =
              (Inr (),
               emit [Call p ''Raise'' [] Map.empty,
                     Call p ''oplot'' [PyList [x], PyList [y]]
                       (kws ++ map_of [(''marker'', marker), (''markersize'', msize),
                                       (''label'', label), (''color'', color)])]
                 (snd (get_plot_window s win PyNone PyNone PyNone))))"
proof -
  obtain p s1 where g: "get_plot_window s win PyNone PyNone PyNone = (Inr (Some p), s1)"
    using get_plot_window_summary [of s win PyNone PyNone PyNone] by blast
  then show ?thesis
    by (simp add: plot_marker_def Let_def emit_emit call_kwargs_def)
qed

lemma plot_axhline_unfold:
  "\<exists>p. fst (get_plot_window s win wsize PyNone PyNone) = Inr (Some p)
     \<and> (call_kwargs [(''xmin'', xmin), (''xmax'', xmax)]
            (if kws ''label'' = None then kws(''label'' \<mapsto> PyStr ''_nolegend_'') else kws) =
            Inl TypeError
          \<and> plot_axhline s y xmin xmax win wsize delay_draw kws =
              (Inl TypeError,
               emit [Call p ''Raise'' [] Map.empty] (snd (get_plot_window s win wsize PyNone PyNone)))
        \<or> call_kwargs [(''xmin'', xmin), (''xmax'', xmax)]
            (if kws ''label'' = None then kws(''label'' \<mapsto> PyStr ''_nolegend_'') else kws) =
            Inr ((if kws ''label'' = None then kws(''label'' \<mapsto> PyStr ''_nolegend_'') else kws)
                 ++ map_of [(''xmin'', xmin), (''xmax'', xmax)])
          \<and> plot_axhline s y xmin xmax win wsize delay_draw kws =
              (Inr (),
               emit ([Call p ''Raise'' [] Map.empty,
                      Call p ''panel.axes.axhline'' [y]
                        ((if kws ''label'' = None then kws(''label'' \<mapsto> PyStr ''_nolegend_'')
                          else kws) ++ map_of [(''xmin'', xmin), (''xmax'', xmax)])]
                     @ (if delay_draw then [Call p ''panel.canvas.draw'' [] Map.empty] else []))
                 (snd (get_plot_window s win wsize PyNone PyNone))))"
proof -
  obtain p s1 where g: "get_plot_window s win wsize PyNone PyNone = (Inr (Some p), s1)"
    using get_plot_window_summary [of s win wsize PyNone PyNone] by blast
  then show ?thesis
    by (simp add: plot_axhline_def Let_def emit_emit call_kwargs_def)
qed

lemma plot_axvline_unfold:
  "\<exists>p. fst (get_plot_window s win wsize PyNone PyNone) = Inr (Some p)
     \<and> (call_kwargs [(''ymin'', ymin), (''ymax'', ymax)]
            (if kws ''label'' = None then kws(''label'' \<mapsto> PyStr ''_nolegend_'') else kws) =
            Inl TypeError
          \<and> plot_axvline s x ymin ymax win wsize delay_draw kws =
              (Inl TypeError,
               emit [Call p ''Raise'' [] Map.empty] (snd (get_plot_window s win wsize PyNone PyNone)))
        \<or> call_kwargs [(''ymin'', ymin), (''ymax'', ymax)]
            (if kws ''label'' = None then kws(''label'' \<mapsto> PyStr ''_nolegend_'') else kws) =
            Inr ((if kws ''label'' = None then kws(''label'' \<mapsto> PyStr ''_nolegend_'') else kws)
                 ++ map_of [(''ymin'', ymin), (''ymax'', ymax)])
          \<and> plot_axvline s x ymin ymax win wsize delay_draw kws =
              (Inr (),
               emit ([Call p ''Raise'' [] Map.empty,
                      Call p ''panel.axes.axvline'' [x]
                        ((if kws ''label'' = None then kws(''label'' \<mapsto> PyStr ''_nolegend_'')
                          else kws) ++ map_of [(''ymin'', ymin), (''ymax'', ymax)])]
                     @ (if delay_draw then [] else [Call p ''panel.canvas.draw'' [] Map.empty]))
                 (snd (get_plot_window s win wsize PyNone PyNone))))"
proof -
  obtain p s1 where g: "get_plot_window s win wsize PyNone PyNone = (Inr (Some p), s1)"
    using get_plot_window_summary [of s win wsize PyNone PyNone] by blast
  then show ?thesis
    by (simp add: plot_axvline_def Let_def emit_emit call_kwargs_def)
qed

lemma hist_unfold:
  "\<exists>p. fst (get_plot_window s win wsize PyNone PyNone) = Inr (Some p)
     \<and> (call_kwargs [(''bins'', bins)] kws = Inl TypeError
          \<and> hist s x bins win new wsize force_draw title args kws out =
              (Inl TypeError,
               emit ([Call p ''Raise'' [] Map.empty]
                     @ (if new then [Call p ''panel.axes.clear'' [] Map.empty] else []))
                 (snd (get_plot_window s win wsize PyNone PyNone)))
        \<or> call_kwargs [(''bins'', bins)] kws = Inr (kws ++ map_of [(''bins'', bins)])
          \<and> hist s x bins win new wsize force_draw title args kws out =
              (Inr out,
               emit ([Call p ''Raise'' [] Map.empty]
                     @ (if new then [Call p ''panel.axes.clear'' [] Map.empty] else [])
                     @ [Call p ''panel.axes.hist'' [x] (kws ++ map_of [(''bins'', bins)])]
                     @ (if title = PyNone then [] else [Call p ''panel.set_title'' [title] Map.empty])
                     @ [Call p ''panel.canvas.draw'' [] Map.empty])
                 (snd (get_plot_window s win wsize PyNone PyNone))))"
proof -
  obtain p s1 where g: "get_plot_window s win wsize PyNone PyNone = (Inr (Some p), s1)"
    using get_plot_window_summary [of s win wsize PyNone PyNone] by blast
  then show ?thesis
    by (simp add: hist_def Let_def emit_emit call_kwargs_def)
qed

lemma imshow_unfold:
  "(\<exists>q. IMG_DISPLAYS s (max 1 (min 100 \<bar>win\<bar>)) = Some q)
     \<and> imshow s map' x y colormap win wintitle wsize kws = (Inl NameError, s)
   \<or> IMG_DISPLAYS s (max 1 (min 100 \<bar>win\<bar>)) = None
     \<and> (call_kwargs [(''x'', x), (''y'', y), (''colormap'', colormap)] kws = Inl TypeError
          \<and> imshow s map' x y colormap win wintitle wsize kws =
              (Inl TypeError, snd (get_image_window s win wsize wintitle))
        \<or> call_kwargs [(''x'', x), (''y'', y), (''colormap'', colormap)] kws =
            Inr (kws ++ map_of [(''x'', x), (''y'', y), (''colormap'', colormap)])
          \<and> imshow s map' x y colormap win wintitle wsize kws =
              (Inr (Some (next_ref s)),
               emit [Call (next_ref s) ''display'' [map']
                       (kws ++ map_of [(''x'', x), (''y'', y), (''colormap'', colormap)])]
                 (snd (get_image_window s win wsize wintitle))))"
proof (cases "IMG_DISPLAYS s (max 1 (min 100 \<bar>win\<bar>))")
  case None
  from get_image_window_absent [OF None, of wsize wintitle] None show ?thesis
    by (simp add: imshow_def call_kwargs_def)
next
  case (Some q)
  from get_image_window_present [OF Some, of wsize wintitle] Some show ?thesis
    by (simp add: imshow_def)
qed

lemma kw_rest_add:
  "set (map fst explicit) \<subseteq> set names \<Longrightarrow>
     kw_rest (kws ++ map_of explicit) names = kw_rest kws names"
proof (rule ext)
  fix k
  assume a: "set (map fst explicit) \<subseteq> set names"
  show "kw_rest (kws ++ map_of explicit) names k = kw_rest kws names k"
  proof (cases "k \<in> set names")
    case True
    then show ?thesis by (simp add: kw_rest_def)
  next
    case False
    with a have "k \<notin> fst ` set explicit" by auto
    then have "map_of explicit k = None" by (simp add: map_of_eq_None_iff)
    with False show ?thesis by (simp add: kw_rest_def map_add_def)
  qed
qed

lemma kw_rest_upd:
  "k \<in> set names \<Longrightarrow> kw_rest (kws(k \<mapsto> v)) names = kw_rest kws names"
  by (rule ext) (simp add: kw_rest_def)

lemma newplot_unfold:
  assumes "kws ''win'' = None" "kws ''wintitle'' = None" "kws ''x'' = None" "kws ''y'' = None"
  shows "newplot s x y win wintitle kws =
           plot s x y \<bar>win\<bar> True (kw_get kws ''size'' PyNone) wintitle (kw_get kws ''theme'' PyNone)
             (kw_rest kws [''win'', ''new'', ''size'', ''wintitle'', ''theme''])"
proof -
  let ?kws1 = "kws(''new'' \<mapsto> PyBool True)"
  let ?E = "[(''win'', PyInt win), (''wintitle'', wintitle)]"
  have c: "call_kwargs ?E ?kws1 = Inr (?kws1 ++ map_of ?E)"
    using assms by (simp add: call_kwargs_def)
  have r: "kw_rest (?kws1 ++ map_of ?E) [''win'', ''new'', ''size'', ''wintitle'', ''theme''] =
      kw_rest kws [''win'', ''new'', ''size'', ''wintitle'', ''theme'']"
  proof -
    have "kw_rest (?kws1 ++ map_of ?E) [''win'', ''new'', ''size'', ''wintitle'', ''theme''] =
        kw_rest ?kws1 [''win'', ''new'', ''size'', ''wintitle'', ''theme'']"
      by (rule kw_rest_add) simp
    also have "\<dots> = kw_rest kws [''win'', ''new'', ''size'', ''wintitle'', ''theme'']"
      by (rule kw_rest_upd) simp
    finally show ?thesis .
  qed
  have g: "kw_get (?kws1 ++ map_of ?E) ''win'' (PyInt 1) = PyInt win"
    "kw_get (?kws1 ++ map_of ?E) ''new'' (PyBool False) = PyBool True"
    "kw_get (?kws1 ++ map_of ?E) ''size'' PyNone = kw_get kws ''size'' PyNone"
    "kw_get (?kws1 ++ map_of ?E) ''wintitle'' PyNone = wintitle"
    "kw_get (?kws1 ++ map_of ?E) ''theme'' PyNone = kw_get kws ''theme'' PyNone"
    by (simp_all add: kw_get_def map_add_def)
  have xy: "(?kws1 ++ map_of ?E) ''x'' = None" "(?kws1 ++ map_of ?E) ''y'' = None"
    using assms by (simp_all add: map_add_def)
  show ?thesis
    unfolding newplot_def Let_def plot_call_def c sum.case plot_kw_def g r
    using xy by simp
qed

lemma contour_unfold:
  assumes "kws ''x'' = None" "kws ''y'' = None" "kws ''map'' = None"
  shows "contour s map' x y kws =
           (case int_abs (kw_get kws ''win'' (PyInt 1)) of
              Inl e \<Rightarrow> (Inl e, s)
            | Inr win \<Rightarrow>
                (case imshow s map' x y (kw_get kws ''colormap'' PyNone) win
                        (kw_get kws ''wintitle'' PyNone) (kw_get kws ''size'' PyNone)
                        (kw_rest (kws(''style'' \<mapsto> PyStr ''contour''))
                           [''x'', ''y'', ''colormap'', ''win'', ''wintitle'', ''size'']) of
                   (Inl e, s1) \<Rightarrow> (Inl e, s1)
                 | (Inr img, s1) \<Rightarrow> (Inr (), s1)))"
proof -
  let ?kws1 = "kws(''style'' \<mapsto> PyStr ''contour'')"
  let ?E = "[(''x'', x), (''y'', y)]"
  have c: "call_kwargs ?E ?kws1 = Inr (?kws1 ++ map_of ?E)"
    using assms by (simp add: call_kwargs_def)
  have r: "kw_rest (?kws1 ++ map_of ?E) [''x'', ''y'', ''colormap'', ''win'', ''wintitle'', ''size''] =
      kw_rest ?kws1 [''x'', ''y'', ''colormap'', ''win'', ''wintitle'', ''size'']"
    by (rule kw_rest_add) simp
  have g: "kw_get (?kws1 ++ map_of ?E) ''win'' (PyInt 1) = kw_get kws ''win'' (PyInt 1)"
    "kw_get (?kws1 ++ map_of ?E) ''x'' PyNone = x"
    "kw_get (?kws1 ++ map_of ?E) ''y'' PyNone = y"
    "kw_get (?kws1 ++ map_of ?E) ''colormap'' PyNone = kw_get kws ''colormap'' PyNone"
    "kw_get (?kws1 ++ map_of ?E) ''wintitle'' PyNone = kw_get kws ''wintitle'' PyNone"
    "kw_get (?kws1 ++ map_of ?E) ''size'' PyNone = kw_get kws ''size'' PyNone"
    by (simp_all add: kw_get_def map_add_def)
  have m: "(?kws1 ++ map_of ?E) ''map'' = None"
    using assms by (simp add: map_add_def)
  show ?thesis
    unfolding contour_def Let_def imshow_call_def c sum.case imshow_kw_def g r
    using m by (simp split: sum.split)
qed

subsection \<open>Following the state through the operations\<close>

lemma app_stable_refl: "app_stable s s"
  by (simp add: app_stable_def)

lemma app_stable_trans: "app_stable s s1 \<Longrightarrow> app_stable s1 s2 \<Longrightarrow> app_stable s s2"
  by (auto simp add: app_stable_def)

lemma app_stable_same:
  "wxapp s1 = wxapp s \<Longrightarrow> wx_GetApp s1 = wx_GetApp s \<Longrightarrow> calls s1 = calls s @ cs \<Longrightarrow>
     filter (is_call [''wx.App'']) cs = [] \<Longrightarrow> app_stable s s1"
  by (simp add: app_stable_def app_budget_def apps_constructed_def)

lemma app_stable_get_wxapp: "app_stable s (snd (get_wxapp s r c))"
  by (simp add: app_stable_def app_budget_def apps_constructed_def get_wxapp_def Let_def
      split: option.split)

lemma extends_refl: "extends s s"
  by (simp add: extends_def app_stable_refl)

lemma extends_trans:
  assumes "extends s s1" "extends s1 s2"
  shows "extends s s2"
proof -
  have "PLOT_DISPLAYS s \<subseteq>\<^sub>m PLOT_DISPLAYS s2" "IMG_DISPLAYS s \<subseteq>\<^sub>m IMG_DISPLAYS s2"
    using assms by (auto simp add: extends_def intro: map_le_trans)
  moreover have "app_stable s s2"
    using assms by (auto simp add: extends_def intro: app_stable_trans)
  moreover have "Themes s2 = Themes s" "DEFAULT_THEME s2 = DEFAULT_THEME s" "next_ref s \<le> next_ref s2"
    using assms by (auto simp add: extends_def)
  moreover have "objects s p = Some d \<or> (cursor_hist d = [] \<and> next_ref s \<le> p \<and> p < next_ref s2)"
    if "objects s2 p = Some d" for p d
  proof -
    from that assms(2) have "objects s1 p = Some d \<or> (cursor_hist d = [] \<and> next_ref s1 \<le> p \<and> p < next_ref s2)"
      by (simp add: extends_def)
    moreover have "next_ref s \<le> next_ref s1" "next_ref s1 \<le> next_ref s2"
      using assms by (auto simp add: extends_def)
    moreover have "objects s1 p = Some d \<Longrightarrow>
        objects s p = Some d \<or> (cursor_hist d = [] \<and> next_ref s \<le> p \<and> p < next_ref s1)"
      using assms(1) by (simp add: extends_def)
    ultimately show ?thesis by auto
  qed
  ultimately show ?thesis by (simp add: extends_def)
qed

lemma extends_emit: "filter (is_call [''wx.App'']) cs = [] \<Longrightarrow> extends s (emit cs s)"
  by (simp add: extends_def app_stable_same [of _ _ cs])

lemma surface_no_app:
  "list_all (is_call surface_methods) cs \<Longrightarrow> filter (is_call [''wx.App'']) cs = []"
proof (induction cs)
  case Nil
  then show ?case by simp
next
  case (Cons c cs)
  then show ?case by (cases c) (auto simp add: surface_methods_def)
qed

lemma extends_get_wxapp: "extends s (snd (get_wxapp s r c))"
  by (simp add: extends_def app_stable_get_wxapp get_wxapp_next_ref)

lemma PlotDisplay_init_fields:
  "PLOT_DISPLAYS (snd (PlotDisplay_init s w wsize theme wintitle kws)) =
     (if (kws ''parent'' = None \<and> kws ''size'' = None \<and> kws ''title'' = None
          \<and> kws ''output_title'' = None \<and> kws ''exit_callback'' = None
          \<and> kws ''theme'' = None) \<and> PLOT_DISPLAYS s w = None
      then (PLOT_DISPLAYS s)(w \<mapsto> next_ref s) else PLOT_DISPLAYS s)"
  "IMG_DISPLAYS (snd (PlotDisplay_init s w wsize theme wintitle kws)) = IMG_DISPLAYS s"
  "objects (snd (PlotDisplay_init s w wsize theme wintitle kws)) =
     (if kws ''parent'' = None \<and> kws ''size'' = None \<and> kws ''title'' = None
         \<and> kws ''output_title'' = None \<and> kws ''exit_callback'' = None
         \<and> kws ''theme'' = None
      then (objects s)(next_ref s \<mapsto> \<lparr>cls = PlotDisplay, window = w, cursor_hist = []\<rparr>)
      else objects s)"
  "DEFAULT_THEME (snd (PlotDisplay_init s w wsize theme wintitle kws)) = DEFAULT_THEME s"
  "Themes (snd (PlotDisplay_init s w wsize theme wintitle kws)) = Themes s"
  "next_ref (snd (PlotDisplay_init s w wsize theme wintitle kws)) =
     next_ref (snd (get_wxapp (s\<lparr>next_ref := Suc (next_ref s)\<rparr>) (PyBool False) (PyBool True)))"
  "wxapp (snd (PlotDisplay_init s w wsize theme wintitle kws)) =
     wxapp (snd (get_wxapp (s\<lparr>next_ref := Suc (next_ref s)\<rparr>) (PyBool False) (PyBool True)))"
  "wx_GetApp (snd (PlotDisplay_init s w wsize theme wintitle kws)) =
     wx_GetApp (snd (get_wxapp (s\<lparr>next_ref := Suc (next_ref s)\<rparr>) (PyBool False) (PyBool True)))"
  by (simp_all add: PlotDisplay_init_def Let_def call_kwargs_def)

lemma PlotDisplay_init_trace:
  "\<exists>cs. calls (snd (PlotDisplay_init s w wsize theme wintitle kws)) =
          calls (snd (get_wxapp (s\<lparr>next_ref := Suc (next_ref s)\<rparr>) (PyBool False) (PyBool True))) @ cs
        \<and> filter (is_call [''wx.App'']) cs = []"
  by (simp add: PlotDisplay_init_def Let_def call_kwargs_def)

lemma extends_PlotDisplay_init: "extends s (snd (PlotDisplay_init s w wsize theme wintitle kws))"
proof -
  let ?s0 = "s\<lparr>next_ref := Suc (next_ref s)\<rparr>"
  let ?g = "snd (get_wxapp ?s0 (PyBool False) (PyBool True))"
  let ?t = "snd (PlotDisplay_init s w wsize theme wintitle kws)"
  have "app_stable s ?s0"
    by (simp add: app_stable_def app_budget_def apps_constructed_def)
  then have g: "app_stable s ?g"
    using app_stable_get_wxapp [of ?s0 "PyBool False" "PyBool True"] by (rule app_stable_trans)
  obtain cs where cs: "calls ?t = calls ?g @ cs" "filter (is_call [''wx.App'']) cs = []"
    using PlotDisplay_init_trace [of s w wsize theme wintitle kws] by blast
  have "app_stable ?g ?t"
    using cs by (intro app_stable_same [of _ _ cs]) (simp_all add: PlotDisplay_init_fields)
  with g have a: "app_stable s ?t" by (rule app_stable_trans)
  have n: "Suc (next_ref s) \<le> next_ref ?g"
    using get_wxapp_next_ref [of ?s0 "PyBool False" "PyBool True"] by simp
  have r: "PLOT_DISPLAYS s \<subseteq>\<^sub>m PLOT_DISPLAYS ?t"
    by (auto simp add: PlotDisplay_init_fields map_le_def)
  show ?thesis
    unfolding extends_def
    using a n r by (simp add: PlotDisplay_init_fields)
qed

lemma ImageDisplay_init_fields:
  "IMG_DISPLAYS (snd (ImageDisplay_init s w wsize theme wintitle kws)) =
     (if (kws ''parent'' = None \<and> kws ''size'' = None \<and> kws ''title'' = None
          \<and> kws ''exit_callback'' = None) \<and> IMG_DISPLAYS s w = None
      then (IMG_DISPLAYS s)(w \<mapsto> next_ref s) else IMG_DISPLAYS s)"
  "PLOT_DISPLAYS (snd (ImageDisplay_init s w wsize theme wintitle kws)) = PLOT_DISPLAYS s"
  "objects (snd (ImageDisplay_init s w wsize theme wintitle kws)) =
     (if kws ''parent'' = None \<and> kws ''size'' = None \<and> kws ''title'' = None \<and> kws ''exit_callback'' = None
      then (objects s)(next_ref s \<mapsto> \<lparr>cls = ImageDisplay, window = w, cursor_hist = []\<rparr>)
      else objects s)"
  "DEFAULT_THEME (snd (ImageDisplay_init s w wsize theme wintitle kws)) = DEFAULT_THEME s"
  "Themes (snd (ImageDisplay_init s w wsize theme wintitle kws)) = Themes s"
  "next_ref (snd (ImageDisplay_init s w wsize theme wintitle kws)) =
     next_ref (snd (get_wxapp (s\<lparr>next_ref := Suc (next_ref s)\<rparr>) (PyBool False) (PyBool True)))"
  "wxapp (snd (ImageDisplay_init s w wsize theme wintitle kws)) =
     wxapp (snd (get_wxapp (s\<lparr>next_ref := Suc (next_ref s)\<rparr>) (PyBool False) (PyBool True)))"
  "wx_GetApp (snd (ImageDisplay_init s w wsize theme wintitle kws)) =
     wx_GetApp (snd (get_wxapp (s\<lparr>next_ref := Suc (next_ref s)\<rparr>) (PyBool False) (PyBool True)))"
  by (simp_all add: ImageDisplay_init_def Let_def call_kwargs_def)

lemma ImageDisplay_init_trace:
  "\<exists>cs. calls (snd (ImageDisplay_init s w wsize theme wintitle kws)) =
          calls (snd (get_wxapp (s\<lparr>next_ref := Suc (next_ref s)\<rparr>) (PyBool False) (PyBool True))) @ cs
        \<and> filter (is_call [''wx.App'']) cs = []"
  by (simp add: ImageDisplay_init_def Let_def call_kwargs_def)

lemma extends_ImageDisplay_init: "extends s (snd (ImageDisplay_init s w wsize theme wintitle kws))"
proof -
  let ?s0 = "s\<lparr>next_ref := Suc (next_ref s)\<rparr>"
  let ?g = "snd (get_wxapp ?s0 (PyBool False) (PyBool True))"
  let ?t = "snd (ImageDisplay_init s w wsize theme wintitle kws)"
  have "app_stable s ?s0"
    by (simp add: app_stable_def app_budget_def apps_constructed_def)
  then have g: "app_stable s ?g"
    using app_stable_get_wxapp [of ?s0 "PyBool False" "PyBool True"] by (rule app_stable_trans)
  obtain cs where cs: "calls ?t = calls ?g @ cs" "filter (is_call [''wx.App'']) cs = []"
    using ImageDisplay_init_trace [of s w wsize theme wintitle kws] by blast
  have "app_stable ?g ?t"
    using cs by (intro app_stable_same [of _ _ cs]) (simp_all add: ImageDisplay_init_fields)
  with g have a: "app_stable s ?t" by (rule app_stable_trans)
  have n: "Suc (next_ref s) \<le> next_ref ?g"
    using get_wxapp_next_ref [of ?s0 "PyBool False" "PyBool True"] by simp
  have r: "IMG_DISPLAYS s \<subseteq>\<^sub>m IMG_DISPLAYS ?t"
    by (auto simp add: ImageDisplay_init_fields map_le_def)
  show ?thesis
    unfolding extends_def
    using a n r by (simp add: ImageDisplay_init_fields)
qed

lemma extends_get_plot_window: "extends s (snd (get_plot_window s win wsize wintitle theme))"
proof -
  obtain p s1 where g: "get_plot_window s win wsize wintitle theme = (Inr (Some p), s1)"
    and c: "s1 = s \<or>
       s1 = snd (PlotDisplay_init s (max 1 (min 100 \<bar>win\<bar>)) wsize theme wintitle Map.empty)"
    using get_plot_window_summary [of s win wsize wintitle theme] by blast
  from c show ?thesis
    unfolding g by (auto simp add: extends_refl extends_PlotDisplay_init)
qed

lemma extends_get_image_window: "extends s (snd (get_image_window s win wsize wintitle))"
proof -
  obtain r s1 where g: "get_image_window s win wsize wintitle = (r, s1)"
    and c: "s1 = s \<or>
       s1 = snd (ImageDisplay_init s (max 1 (min 100 \<bar>win\<bar>)) wsize PyNone wintitle Map.empty)"
    using get_image_window_summary [of s win wsize wintitle] by blast
  from c show ?thesis
    unfolding g by (auto simp add: extends_refl extends_ImageDisplay_init)
qed

lemma extends_window_emit:
  "extends s s1 \<Longrightarrow> list_all (is_call surface_methods) cs \<Longrightarrow> extends s (emit cs s1)"
  using extends_trans [of s s1 "emit cs s1"] extends_emit [of cs s1] surface_no_app [of cs]
  by simp

lemma extends_plot: "extends s (snd (plot s x y win new wsize wintitle theme kws))"
  using plot_unfold [of s win wsize wintitle theme x y new kws]
    extends_window_emit [OF extends_get_plot_window, of _ s win wsize wintitle theme]
  by (auto simp add: surface_methods_def)

lemma extends_update_trace: "extends s (snd (update_trace s x y trace win kws))"
  using update_trace_unfold [of s win kws x y trace]
    extends_window_emit [OF extends_get_plot_window, of _ s win PyNone PyNone PyNone]
  by (auto simp add: surface_methods_def)

lemma extends_plot_setlimits: "extends s (snd (plot_setlimits s xmin xmax ymin ymax win))"
  using plot_setlimits_unfold [of s win xmin xmax ymin ymax]
    extends_window_emit [OF extends_get_plot_window, of _ s win PyNone PyNone PyNone]
  by (auto simp add: surface_methods_def)

lemma extends_plot_text:
  "extends s (snd (plot_text s text' x y win rotation ha va side wsize kws))"
  using plot_text_unfold [of s win wsize rotation ha va kws text' x y side]
    extends_window_emit [OF extends_get_plot_window, of _ s win wsize PyNone PyNone]
  by (auto simp add: surface_methods_def)

lemma extends_plot_arrow:
  "extends s (snd (plot_arrow s x1 y1 x2 y2 win side shape color width head_width head_length
                     wsize kws))"
  using plot_arrow_unfold [of s win wsize side shape color width head_length head_width kws
      x1 y1 x2 y2]
    extends_window_emit [OF extends_get_plot_window, of _ s win wsize PyNone PyNone]
  by (auto simp add: surface_methods_def)

lemma extends_plot_marker:
  "extends s (snd (plot_marker s x y marker msize color label win kws))"
  using plot_marker_unfold [of s win marker msize label color kws x y]
    extends_window_emit [OF extends_get_plot_window, of _ s win PyNone PyNone PyNone]
  by (auto simp add: surface_methods_def)

lemma extends_plot_axhline:
  "extends s (snd (plot_axhline s y xmin xmax win wsize delay_draw kws))"
  using plot_axhline_unfold [of s win wsize xmin xmax kws y delay_draw]
    extends_window_emit [OF extends_get_plot_window, of _ s win wsize PyNone PyNone]
  by (auto simp add: surface_methods_def)

lemma extends_plot_axvline:
  "extends s (snd (plot_axvline s x ymin ymax win wsize delay_draw kws))"
  using plot_axvline_unfold [of s win wsize ymin ymax kws x delay_draw]
    extends_window_emit [OF extends_get_plot_window, of _ s win wsize PyNone PyNone]
  by (auto simp add: surface_methods_def)

lemma extends_hist:
  "extends s (snd (hist s x bins win new wsize force_draw title args kws out))"
  using hist_unfold [of s win wsize bins kws x new force_draw title args out]
    extends_window_emit [OF extends_get_plot_window, of _ s win wsize PyNone PyNone]
  by (auto simp add: surface_methods_def)

lemma extends_imshow:
  "extends s (snd (imshow s map' x y colormap win wintitle wsize kws))"
  using imshow_unfold [of s win map' x y colormap wintitle wsize kws]
    extends_window_emit [OF extends_get_image_window, of _ s win wsize wintitle]
    extends_get_image_window [of s win wsize wintitle]
  by (auto simp add: surface_methods_def extends_refl)

lemma extends_plot_kw: "extends s (snd (plot_kw s x y kwargs))"
  by (simp add: plot_kw_def extends_refl extends_plot split: sum.split)

lemma extends_newplot: "extends s (snd (newplot s x y win wintitle kws))"
  by (simp add: newplot_def plot_call_def extends_refl extends_plot_kw split: sum.split)

lemma extends_imshow_kw: "extends s (snd (imshow_kw s map' kwargs))"
  by (simp add: imshow_kw_def extends_refl extends_imshow split: sum.split)

lemma extends_imshow_call: "extends s (snd (imshow_call s map' explicit kws))"
  by (simp add: imshow_call_def extends_refl extends_imshow_kw split: sum.split)

lemma contour_state:
  "snd (contour s map' x y kws) =
     snd (imshow_call s map' [(''x'', x), (''y'', y)] (kws(''style'' \<mapsto> PyStr ''contour'')))"
  by (simp add: contour_def Let_def split: prod.split sum.split)

lemma extends_contour: "extends s (snd (contour s map' x y kws))"
  by (simp add: contour_state extends_imshow_call)

lemma extends_wxmainloop: "extends s (wxmainloop s)"
proof -
  obtain a s1 where g: "get_wxapp s (PyBool False) (PyBool True) = (a, s1)"
    by (cases "get_wxapp s (PyBool False) (PyBool True)")
  have "extends s s1"
    using extends_get_wxapp [of s "PyBool False" "PyBool True"] g by simp
  moreover have "extends s1 (emit [Call a ''MainLoop'' [] Map.empty] s1)"
    by (rule extends_emit) simp
  ultimately show ?thesis
    by (simp add: wxmainloop_def g extends_trans)
qed

text \<open>
  Every operation that is neither a callback nor \<^verbatim>\<open>set_theme\<close> extends the state.
\<close>

lemma extends_step:
  "(\<exists>p ob kw. op = ExitCallback p ob kw) \<or> (\<exists>p ev. op = CursorCallback p ev)
   \<or> (\<exists>theme. op = SetTheme theme) \<or> extends s (step s op)"
  by (cases op)
    (simp_all add: extends_refl extends_get_wxapp extends_wxmainloop extends_PlotDisplay_init
      extends_ImageDisplay_init extends_get_plot_window extends_get_image_window extends_plot
      extends_update_trace extends_plot_setlimits extends_newplot extends_plot_text
      extends_plot_arrow extends_plot_marker extends_plot_axhline extends_plot_axvline
      extends_hist extends_imshow extends_contour)

subsection \<open>Callbacks\<close>

lemma exit_callback_unfold:
  "objects s p = Some d \<Longrightarrow>
     exit_callback s p ob kw =
       emit [Call p ''Destroy'' [] Map.empty]
         (case cls d of
            PlotDisplay \<Rightarrow> s\<lparr>PLOT_DISPLAYS := (PLOT_DISPLAYS s)(window d := None)\<rparr>
          | ImageDisplay \<Rightarrow> s\<lparr>IMG_DISPLAYS := (IMG_DISPLAYS s)(window d := None)\<rparr>)"
proof -
  assume d: "objects s p = Some d"
  have "(PLOT_DISPLAYS s)(window d := None) = PLOT_DISPLAYS s" if "PLOT_DISPLAYS s (window d) = None"
    using that by (simp add: fun_upd_idem)
  then have pl: "s\<lparr>PLOT_DISPLAYS := (PLOT_DISPLAYS s)(window d := None)\<rparr> = s"
    if "PLOT_DISPLAYS s (window d) = None"
    using that by simp
  have "(IMG_DISPLAYS s)(window d := None) = IMG_DISPLAYS s" if "IMG_DISPLAYS s (window d) = None"
    using that by (simp add: fun_upd_idem)
  then have im: "s\<lparr>IMG_DISPLAYS := (IMG_DISPLAYS s)(window d := None)\<rparr> = s"
    if "IMG_DISPLAYS s (window d) = None"
    using that by simp
  show ?thesis
  proof (cases "cls d")
    case PlotDisplay
    with d pl show ?thesis
      by (cases "PLOT_DISPLAYS s (window d)")
        (simp_all add: exit_callback_def PlotDisplay_onExit_def Let_def)
  next
    case ImageDisplay
    with d im show ?thesis
      by (cases "IMG_DISPLAYS s (window d)")
        (simp_all add: exit_callback_def ImageDisplay_onExit_def Let_def)
  qed
qed

lemma exit_callback_none: "objects s p = None \<Longrightarrow> exit_callback s p ob kw = s"
  by (simp add: exit_callback_def)

lemma exit_callback_fields:
  "objects (exit_callback s p ob kw) = objects s"
  "next_ref (exit_callback s p ob kw) = next_ref s"
  "wxapp (exit_callback s p ob kw) = wxapp s"
  "wx_GetApp (exit_callback s p ob kw) = wx_GetApp s"
  "Themes (exit_callback s p ob kw) = Themes s"
  "DEFAULT_THEME (exit_callback s p ob kw) = DEFAULT_THEME s"
  by (cases "objects s p"; simp add: exit_callback_none exit_callback_unfold split: display_class.split)+

lemma exit_callback_calls:
  "\<exists>cs. calls (exit_callback s p ob kw) = calls s @ cs \<and> filter (is_call [''wx.App'']) cs = []"
  by (cases "objects s p"; simp add: exit_callback_none exit_callback_unfold split: display_class.split)

lemma cursor_callback_unfold:
  "objects s p = Some d \<Longrightarrow>
     cursor_callback s p ev =
       s\<lparr>objects := (objects s)(p \<mapsto>
            d\<lparr>cursor_hist := take 100 (cursor_entry (cls d) ev # cursor_hist d)\<rparr>)\<rparr>"
  by (cases "cls d")
    (simp_all add: cursor_callback_def PlotDisplay_onCursor_def ImageDisplay_onCursor_def
      cursor_entry_def Let_def MAX_CURSHIST_def)

lemma cursor_callback_none: "objects s p = None \<Longrightarrow> cursor_callback s p ev = s"
  by (simp add: cursor_callback_def)

lemma cursor_callback_fields:
  "PLOT_DISPLAYS (cursor_callback s p ev) = PLOT_DISPLAYS s"
  "IMG_DISPLAYS (cursor_callback s p ev) = IMG_DISPLAYS s"
  "next_ref (cursor_callback s p ev) = next_ref s"
  "wxapp (cursor_callback s p ev) = wxapp s"
  "wx_GetApp (cursor_callback s p ev) = wx_GetApp s"
  "calls (cursor_callback s p ev) = calls s"
  "Themes (cursor_callback s p ev) = Themes s"
  "DEFAULT_THEME (cursor_callback s p ev) = DEFAULT_THEME s"
  by (cases "objects s p"; simp add: cursor_callback_none cursor_callback_unfold)+

lemma set_theme_fields:
  "PLOT_DISPLAYS (snd (set_theme s theme)) = PLOT_DISPLAYS s"
  "IMG_DISPLAYS (snd (set_theme s theme)) = IMG_DISPLAYS s"
  "objects (snd (set_theme s theme)) = objects s"
  "next_ref (snd (set_theme s theme)) = next_ref s"
  "wxapp (snd (set_theme s theme)) = wxapp s"
  "wx_GetApp (snd (set_theme s theme)) = wx_GetApp s"
  "calls (snd (set_theme s theme)) = calls s"
  "Themes (snd (set_theme s theme)) = Themes s"
  by (simp_all add: set_theme_def)

subsection \<open>Runs\<close>

lemma run_Nil [simp]: "run s [] = s"
  by (simp add: run_def)

lemma run_Cons [simp]: "run s (op # ops) = run (step s op) ops"
  by (simp add: run_def)

lemma app_stable_step: "app_stable s (step s op)"
proof -
  consider (exit) p ob kw where "op = ExitCallback p ob kw"
    | (cursor) p ev where "op = CursorCallback p ev"
    | (theme) theme where "op = SetTheme theme"
    | (other) "extends s (step s op)"
    using extends_step [of op s] by blast
  then show ?thesis
  proof cases
    case exit
    obtain cs where "calls (exit_callback s p ob kw) = calls s @ cs"
      "filter (is_call [''wx.App'']) cs = []"
      using exit_callback_calls by blast
    then show ?thesis
      unfolding exit by (simp add: app_stable_same [of _ _ cs] exit_callback_fields)
  next
    case cursor
    then show ?thesis
      by (simp add: app_stable_same [of _ _ "[]"] cursor_callback_fields)
  next
    case theme
    then show ?thesis
      by (simp add: app_stable_same [of _ _ "[]"] set_theme_fields)
  next
    case other
    then show ?thesis by (simp add: extends_def)
  qed
qed

lemma app_stable_run: "app_stable s (run s ops)"
proof (induction ops arbitrary: s)
  case Nil
  show ?case by (simp add: app_stable_refl)
next
  case (Cons op ops)
  show ?case
    using app_stable_step [of s op] Cons [of "step s op"] by (simp add: app_stable_trans)
qed

text \<open>No operation lets a cursor history grow beyond the bound.\<close>

lemma bounded_step:
  assumes "\<And>q e. objects s q = Some e \<Longrightarrow> length (cursor_hist e) \<le> 100"
    and "objects (step s op) q = Some e"
  shows "length (cursor_hist e) \<le> 100"
proof -
  consider (exit) p ob kw where "op = ExitCallback p ob kw"
    | (cursor) p ev where "op = CursorCallback p ev"
    | (theme) theme where "op = SetTheme theme"
    | (other) "extends s (step s op)"
    using extends_step [of op s] by blast
  then show ?thesis
  proof cases
    case exit
    with assms show ?thesis by (simp add: exit_callback_fields)
  next
    case cursor
    show ?thesis
    proof (cases "objects s p")
      case None
      with assms cursor show ?thesis by (simp add: cursor_callback_none)
    next
      case (Some d)
      with assms cursor show ?thesis
        by (cases "q = p") (auto simp add: cursor_callback_unfold)
    qed
  next
    case theme
    with assms show ?thesis by (simp add: set_theme_fields)
  next
    case other
    with assms(2) have "objects s q = Some e \<or> cursor_hist e = []"
      by (auto simp add: extends_def)
    with assms(1) show ?thesis by auto
  qed
qed

lemma bounded_run:
  "(\<And>q e. objects s q = Some e \<Longrightarrow> length (cursor_hist e) \<le> 100) \<Longrightarrow>
     objects (run s ops) q = Some e \<Longrightarrow> length (cursor_hist e) \<le> 100"
proof (induction ops arbitrary: s)
  case Nil
  then show ?case by simp
next
  case (Cons op ops)
  show ?case
  proof (rule Cons.IH [of "step s op"])
    show "length (cursor_hist e') \<le> 100" if "objects (step s op) q' = Some e'" for q' e'
      using Cons.prems(1) that by (rule bounded_step)
    show "objects (run (step s op) ops) q = Some e"
      using Cons.prems(2) by simp
  qed
qed

text \<open>Only the exit callback takes an entry out of a registry.\<close>

lemma registries_step:
  "(\<exists>p ob kw. op = ExitCallback p ob kw)
   \<or> PLOT_DISPLAYS s \<subseteq>\<^sub>m PLOT_DISPLAYS (step s op) \<and> IMG_DISPLAYS s \<subseteq>\<^sub>m IMG_DISPLAYS (step s op)"
proof -
  consider (exit) p ob kw where "op = ExitCallback p ob kw"
    | (cursor) p ev where "op = CursorCallback p ev"
    | (theme) theme where "op = SetTheme theme"
    | (other) "extends s (step s op)"
    using extends_step [of op s] by blast
  then show ?thesis
  proof cases
    case exit
    then show ?thesis by blast
  next
    case cursor
    then show ?thesis by (simp add: cursor_callback_fields)
  next
    case theme
    then show ?thesis by (simp add: set_theme_fields)
  next
    case other
    then show ?thesis by (simp add: extends_def)
  qed
qed

subsection \<open>The cursor history\<close>

lemma take_append_take: "take n (xs @ take n ys) = take n (xs @ ys)"
  by (simp add: min_def)

lemma cursor_run:
  "objects s p = Some d \<Longrightarrow> length (cursor_hist d) \<le> 100 \<Longrightarrow>
     objects (run s (map (CursorCallback p) evs)) p =
       Some (d\<lparr>cursor_hist := take 100 (map (cursor_entry (cls d)) (rev evs) @ cursor_hist d)\<rparr>)"
proof (induction evs arbitrary: s d)
  case Nil
  then show ?case by simp
next
  case (Cons ev evs)
  let ?d1 = "d\<lparr>cursor_hist := take 100 (cursor_entry (cls d) ev # cursor_hist d)\<rparr>"
  have "objects (step s (CursorCallback p ev)) p = Some ?d1"
    using Cons.prems by (simp add: cursor_callback_unfold)
  moreover have "length (cursor_hist ?d1) \<le> 100"
    by simp
  ultimately show ?case
    using Cons.IH [of "step s (CursorCallback p ev)" ?d1]
      take_append_take [of 100 "map (cursor_entry (cls d)) (rev evs)"
        "cursor_entry (cls d) ev # cursor_hist d"]
    by simp
qed

text \<open>
  Claim C4. Take a state in which no window entry has more than 100 cursor events in its
  history (the initial state, which has no entries, is one; a new entry starts with an
  empty history). Then after any run of operations whatever, every entry still has at
  most 100. And for a window entry \<open>p\<close> and any sequence of cursor callbacks on it, the
  history afterwards is the 100 most recent events, the most recent first: it has at
  most 100 entries, and when the sequence is not empty its entry at index 0 is the one of
  the last callback.
\<close>

theorem cursor_history_bounded:
  assumes "\<forall>q e. objects s q = Some e \<longrightarrow> length (cursor_hist e) \<le> 100"
    and "objects s p = Some d"
  shows "(\<forall>q e. objects (run s ops) q = Some e \<longrightarrow> length (cursor_hist e) \<le> 100)
       \<and> (\<exists>d1. objects (run s (map (CursorCallback p) evs)) p = Some d1
             \<and> cls d1 = cls d \<and> window d1 = window d
             \<and> cursor_hist d1 = take 100 (map (cursor_entry (cls d)) (rev evs) @ cursor_hist d)
             \<and> length (cursor_hist d1) \<le> 100
             \<and> (evs \<noteq> [] \<longrightarrow> cursor_hist d1 ! 0 = cursor_entry (cls d) (last evs)))"
proof
  show "\<forall>q e. objects (run s ops) q = Some e \<longrightarrow> length (cursor_hist e) \<le> 100"
    using assms(1) bounded_run [of s ops] by blast
next
  let ?d1 = "d\<lparr>cursor_hist := take 100 (map (cursor_entry (cls d)) (rev evs) @ cursor_hist d)\<rparr>"
  have o: "objects (run s (map (CursorCallback p) evs)) p = Some ?d1"
    using assms by (intro cursor_run) auto
  have h: "cursor_hist ?d1 ! 0 = cursor_entry (cls d) (last evs)" if "evs \<noteq> []"
  proof -
    from that obtain es e where e: "evs = es @ [e]"
      by (cases evs rule: rev_cases) auto
    then show ?thesis by simp
  qed
  show "\<exists>d1. objects (run s (map (CursorCallback p) evs)) p = Some d1
      \<and> cls d1 = cls d \<and> window d1 = window d
      \<and> cursor_hist d1 = take 100 (map (cursor_entry (cls d)) (rev evs) @ cursor_hist d)
      \<and> length (cursor_hist d1) \<le> 100
      \<and> (evs \<noteq> [] \<longrightarrow> cursor_hist d1 ! 0 = cursor_entry (cls d) (last evs))"
    using o h by (intro exI [of _ ?d1]) simp
qed

lemma first_plot_window:
  "fst (get_plot_window (initial [] None) 1 wsize wintitle theme) = Inr (Some 0)"
  "objects (snd (get_plot_window (initial [] None) 1 wsize wintitle theme)) =
     [0 \<mapsto> \<lparr>cls = PlotDisplay, window = 1, cursor_hist = []\<rparr>]"
  "PLOT_DISPLAYS (snd (get_plot_window (initial [] None) 1 wsize wintitle theme)) = [1 \<mapsto> 0]"
  "IMG_DISPLAYS (snd (get_plot_window (initial [] None) 1 wsize wintitle theme)) = Map.empty"
proof -
  have a: "PLOT_DISPLAYS (initial [] None) (max 1 (min 100 \<bar>1\<bar>)) = None"
    by (simp add: initial_def)
  have i: "next_ref (initial [] None) = 0" "objects (initial [] None) = Map.empty"
    "PLOT_DISPLAYS (initial [] None) = Map.empty" "IMG_DISPLAYS (initial [] None) = Map.empty"
    by (simp_all add: initial_def)
  note g = get_plot_window_absent [OF a, of wsize wintitle theme]
  show "fst (get_plot_window (initial [] None) 1 wsize wintitle theme) = Inr (Some 0)"
    "objects (snd (get_plot_window (initial [] None) 1 wsize wintitle theme)) =
       [0 \<mapsto> \<lparr>cls = PlotDisplay, window = 1, cursor_hist = []\<rparr>]"
    "PLOT_DISPLAYS (snd (get_plot_window (initial [] None) 1 wsize wintitle theme)) = [1 \<mapsto> 0]"
    "IMG_DISPLAYS (snd (get_plot_window (initial [] None) 1 wsize wintitle theme)) = Map.empty"
    by (simp_all add: g i)
qed

theorem cursor_history_bounded_witness:
  "\<exists>d1. objects (run (snd (get_plot_window (initial [] None) 1 PyNone PyNone PyNone))
            (map (CursorCallback 0)
               (replicate 150 \<lparr>ev_x = PyInt 3, ev_y = PyInt 4, ev_ix = PyNone, ev_iy = PyNone,
                                ev_val = PyNone, ev_kw = Map.empty, ev_time = 10\<rparr>
                @ [\<lparr>ev_x = PyInt 5, ev_y = PyInt 6, ev_ix = PyNone, ev_iy = PyNone,
                     ev_val = PyNone, ev_kw = Map.empty, ev_time = 11\<rparr>]))) 0 = Some d1
     \<and> cursor_hist d1 =
         PyTuple [PyInt 5, PyInt 6, PyFloat 11] # replicate 99 (PyTuple [PyInt 3, PyInt 4, PyFloat 10])
     \<and> length (cursor_hist d1) = 100
     \<and> cursor_hist d1 ! 0 = PyTuple [PyInt 5, PyInt 6, PyFloat 11]"
proof -
  let ?s = "snd (get_plot_window (initial [] None) 1 PyNone PyNone PyNone)"
  let ?d = "\<lparr>cls = PlotDisplay, window = 1, cursor_hist = []\<rparr>"
  let ?e1 = "\<lparr>ev_x = PyInt 3, ev_y = PyInt 4, ev_ix = PyNone, ev_iy = PyNone,
              ev_val = PyNone, ev_kw = Map.empty, ev_time = 10\<rparr>"
  let ?e2 = "\<lparr>ev_x = PyInt 5, ev_y = PyInt 6, ev_ix = PyNone, ev_iy = PyNone,
              ev_val = PyNone, ev_kw = Map.empty, ev_time = 11\<rparr>"
  have a1: "\<forall>q e. objects ?s q = Some e \<longrightarrow> length (cursor_hist e) \<le> 100"
    by (auto simp add: first_plot_window split: if_splits)
  have a2: "objects ?s 0 = Some ?d"
    by (simp add: first_plot_window)
  from cursor_history_bounded [OF a1 a2, of "[]" "replicate 150 ?e1 @ [?e2]"]
  show ?thesis
    by (auto simp add: cursor_entry_def)
qed

subsection \<open>Closing a window\<close>

lemma first_image_window:
  "fst (get_image_window (initial [] None) 1 wsize wintitle) = Inr (Some 0)"
  "objects (snd (get_image_window (initial [] None) 1 wsize wintitle)) =
     [0 \<mapsto> \<lparr>cls = ImageDisplay, window = 1, cursor_hist = []\<rparr>]"
  "IMG_DISPLAYS (snd (get_image_window (initial [] None) 1 wsize wintitle)) = [1 \<mapsto> 0]"
  "PLOT_DISPLAYS (snd (get_image_window (initial [] None) 1 wsize wintitle)) = Map.empty"
proof -
  have a: "IMG_DISPLAYS (initial [] None) (max 1 (min 100 \<bar>1\<bar>)) = None"
    by (simp add: initial_def)
  have i: "next_ref (initial [] None) = 0" "objects (initial [] None) = Map.empty"
    "PLOT_DISPLAYS (initial [] None) = Map.empty" "IMG_DISPLAYS (initial [] None) = Map.empty"
    by (simp_all add: initial_def)
  note g = get_image_window_absent [OF a, of wsize wintitle]
  show "fst (get_image_window (initial [] None) 1 wsize wintitle) = Inr (Some 0)"
    "objects (snd (get_image_window (initial [] None) 1 wsize wintitle)) =
       [0 \<mapsto> \<lparr>cls = ImageDisplay, window = 1, cursor_hist = []\<rparr>]"
    "IMG_DISPLAYS (snd (get_image_window (initial [] None) 1 wsize wintitle)) = [1 \<mapsto> 0]"
    "PLOT_DISPLAYS (snd (get_image_window (initial [] None) 1 wsize wintitle)) = Map.empty"
    by (simp_all add: g i)
qed

lemma first_window_next_ref:
  "next_ref (snd (get_plot_window (initial [] None) 1 wsize wintitle theme)) = 2"
  "next_ref (snd (get_image_window (initial [] None) 1 wsize wintitle)) = 2"
proof -
  have a: "PLOT_DISPLAYS (initial [] None) (max 1 (min 100 \<bar>1\<bar>)) = None"
    "IMG_DISPLAYS (initial [] None) (max 1 (min 100 \<bar>1\<bar>)) = None"
    by (simp_all add: initial_def)
  have n: "next_ref (snd (get_wxapp ((initial [] None)\<lparr>next_ref := Suc (next_ref (initial [] None))\<rparr>)
      (PyBool False) (PyBool True))) = 2"
    by (simp add: initial_def get_wxapp_def Let_def)
  show "next_ref (snd (get_plot_window (initial [] None) 1 wsize wintitle theme)) = 2"
    using get_plot_window_absent [OF a(1), of wsize wintitle theme] n
    by (simp add: PlotDisplay_init_fields)
  show "next_ref (snd (get_image_window (initial [] None) 1 wsize wintitle)) = 2"
    using get_image_window_absent [OF a(2), of wsize wintitle] n
    by (simp add: ImageDisplay_init_fields)
qed

text \<open>
  Claim C6. Let \<open>p\<close> be a window entry whose handle \<^verbatim>\<open>window\<close> is a handle of the data
  model, that is in \<open>[1, 100]\<close> (as it is for every entry the factories create). After its
  exit callback the registry of its class has no entry under that handle, and resolving
  the handle again constructs a window: the factory allocates a new object (which is not
  \<open>p\<close>), with that handle and an empty cursor history, and registers it under the handle.
  No operation other than an exit callback removes or replaces a registry entry.
\<close>

theorem exit_callback_unregisters:
  assumes "objects s p = Some d" and "1 \<le> window d" and "window d \<le> 100" and "p < next_ref s"
  shows "(cls d = PlotDisplay \<longrightarrow>
            PLOT_DISPLAYS (exit_callback s p ob kw) (window d) = None
            \<and> (\<exists>s2. get_plot_window (exit_callback s p ob kw) (window d) wsize wintitle theme =
                       (Inr (Some (next_ref s)), s2)
                  \<and> next_ref s \<noteq> p
                  \<and> objects s2 (next_ref s) =
                      Some \<lparr>cls = PlotDisplay, window = window d, cursor_hist = []\<rparr>
                  \<and> PLOT_DISPLAYS s2 (window d) = Some (next_ref s)))
       \<and> (cls d = ImageDisplay \<longrightarrow>
            IMG_DISPLAYS (exit_callback s p ob kw) (window d) = None
            \<and> (\<exists>s2. get_image_window (exit_callback s p ob kw) (window d) wsize wintitle =
                       (Inr (Some (next_ref s)), s2)
                  \<and> next_ref s \<noteq> p
                  \<and> objects s2 (next_ref s) =
                      Some \<lparr>cls = ImageDisplay, window = window d, cursor_hist = []\<rparr>
                  \<and> IMG_DISPLAYS s2 (window d) = Some (next_ref s)))
       \<and> ((\<forall>q ob1 kw1. op \<noteq> ExitCallback q ob1 kw1) \<longrightarrow>
            PLOT_DISPLAYS s \<subseteq>\<^sub>m PLOT_DISPLAYS (step s op)
            \<and> IMG_DISPLAYS s \<subseteq>\<^sub>m IMG_DISPLAYS (step s op))"
proof -
  let ?t = "exit_callback s p ob kw"
  have w: "max 1 (min 100 \<bar>window d\<bar>) = window d"
    using assms(2,3) by simp
  have n: "next_ref ?t = next_ref s" "objects ?t = objects s"
    by (simp_all add: exit_callback_fields)
  have plot_part: "PLOT_DISPLAYS ?t (window d) = None
      \<and> (\<exists>s2. get_plot_window ?t (window d) wsize wintitle theme = (Inr (Some (next_ref s)), s2)
            \<and> next_ref s \<noteq> p
            \<and> objects s2 (next_ref s) =
                Some \<lparr>cls = PlotDisplay, window = window d, cursor_hist = []\<rparr>
            \<and> PLOT_DISPLAYS s2 (window d) = Some (next_ref s))"
    if c: "cls d = PlotDisplay"
  proof -
    have r: "PLOT_DISPLAYS ?t (window d) = None"
      using assms(1) c by (simp add: exit_callback_unfold)
    then have a: "PLOT_DISPLAYS ?t (max 1 (min 100 \<bar>window d\<bar>)) = None"
      using w by simp
    from get_plot_window_absent [OF a, of wsize wintitle theme] show ?thesis
      using w n r assms(4) by simp
  qed
  have image_part: "IMG_DISPLAYS ?t (window d) = None
      \<and> (\<exists>s2. get_image_window ?t (window d) wsize wintitle = (Inr (Some (next_ref s)), s2)
            \<and> next_ref s \<noteq> p
            \<and> objects s2 (next_ref s) =
                Some \<lparr>cls = ImageDisplay, window = window d, cursor_hist = []\<rparr>
            \<and> IMG_DISPLAYS s2 (window d) = Some (next_ref s))"
    if c: "cls d = ImageDisplay"
  proof -
    have r: "IMG_DISPLAYS ?t (window d) = None"
      using assms(1) c by (simp add: exit_callback_unfold)
    then have a: "IMG_DISPLAYS ?t (max 1 (min 100 \<bar>window d\<bar>)) = None"
      using w by simp
    from get_image_window_absent [OF a, of wsize wintitle] show ?thesis
      using w n r assms(4) by simp
  qed
  have others: "PLOT_DISPLAYS s \<subseteq>\<^sub>m PLOT_DISPLAYS (step s op)
      \<and> IMG_DISPLAYS s \<subseteq>\<^sub>m IMG_DISPLAYS (step s op)"
    if "\<forall>q ob1 kw1. op \<noteq> ExitCallback q ob1 kw1"
    using that registries_step [of op s] by auto
  from plot_part image_part others show ?thesis
    by blast
qed

theorem exit_callback_unregisters_witness:
  "PLOT_DISPLAYS (snd (get_plot_window (initial [] None) 1 PyNone PyNone PyNone)) 1 = Some 0
   \<and> PLOT_DISPLAYS
        (exit_callback (snd (get_plot_window (initial [] None) 1 PyNone PyNone PyNone)) 0
           PyNone Map.empty) 1 = None
   \<and> fst (get_plot_window
             (exit_callback (snd (get_plot_window (initial [] None) 1 PyNone PyNone PyNone)) 0
                PyNone Map.empty) 1 PyNone PyNone PyNone) = Inr (Some 2)
   \<and> IMG_DISPLAYS (snd (get_image_window (initial [] None) 1 PyNone PyNone)) 1 = Some 0
   \<and> IMG_DISPLAYS
        (exit_callback (snd (get_image_window (initial [] None) 1 PyNone PyNone)) 0
           PyNone Map.empty) 1 = None
   \<and> fst (get_image_window
             (exit_callback (snd (get_image_window (initial [] None) 1 PyNone PyNone)) 0
                PyNone Map.empty) 1 PyNone PyNone) = Inr (Some 2)
   \<and> PLOT_DISPLAYS (snd (get_plot_window (initial [] None) 1 PyNone PyNone PyNone))
        \<subseteq>\<^sub>m PLOT_DISPLAYS
            (step (snd (get_plot_window (initial [] None) 1 PyNone PyNone PyNone))
               (CursorCallback 0 \<lparr>ev_x = PyInt 3, ev_y = PyInt 4, ev_ix = PyNone, ev_iy = PyNone,
                                  ev_val = PyNone, ev_kw = Map.empty, ev_time = 10\<rparr>))"
proof -
  let ?s = "snd (get_plot_window (initial [] None) 1 PyNone PyNone PyNone)"
  let ?i = "snd (get_image_window (initial [] None) 1 PyNone PyNone)"
  let ?op = "CursorCallback 0 \<lparr>ev_x = PyInt 3, ev_y = PyInt 4, ev_ix = PyNone, ev_iy = PyNone,
                               ev_val = PyNone, ev_kw = Map.empty, ev_time = 10\<rparr>"
  have s: "objects ?s 0 = Some \<lparr>cls = PlotDisplay, window = 1, cursor_hist = []\<rparr>"
    "(0::nat) < next_ref ?s"
    by (simp_all add: first_plot_window first_window_next_ref)
  have i: "objects ?i 0 = Some \<lparr>cls = ImageDisplay, window = 1, cursor_hist = []\<rparr>"
    "(0::nat) < next_ref ?i"
    by (simp_all add: first_image_window first_window_next_ref)
  from exit_callback_unregisters [OF s(1) _ _ s(2), of PyNone Map.empty PyNone PyNone PyNone ?op]
    exit_callback_unregisters [OF i(1) _ _ i(2), of PyNone Map.empty PyNone PyNone PyNone ?op]
  show ?thesis
    by (auto simp add: first_plot_window first_image_window first_window_next_ref)
qed

subsection \<open>The application accessor\<close>

lemma get_wxapp_sets: "wxapp (snd (get_wxapp s r c)) = Some (fst (get_wxapp s r c))"
  by (simp add: get_wxapp_def Let_def split: option.split)

lemma get_wxapp_again: "wxapp s = Some a \<Longrightarrow> get_wxapp s r c = (a, s)"
  by (simp add: get_wxapp_def)

lemma apps_constructed_le_budget: "apps_constructed s \<le> app_budget s"
  by (simp add: app_budget_def)

text \<open>
  Claim C8. Once a call of \<^verbatim>\<open>get_wxapp\<close> has returned the application \<open>a\<close>, every later
  call, after any run of operations of the module and with any arguments, returns the same
  \<open>a\<close> and changes nothing, and no further application is constructed. The first call
  constructs at most one application, and none when the toolkit already reports a running
  application, which is then the one returned. Counted from the import of the module, at
  most one application is ever constructed.
\<close>

theorem get_wxapp_single_instance:
  assumes "get_wxapp s redirect clearSigInt = (a, s1)"
  shows "wxapp s1 = Some a
       \<and> get_wxapp (run s1 ops) redirect2 clearSigInt2 = (a, run s1 ops)
       \<and> apps_constructed (run s1 ops) = apps_constructed s1
       \<and> apps_constructed s1 \<le> Suc (apps_constructed s)
       \<and> (wxapp s = None \<and> wx_GetApp s = Some b \<longrightarrow>
            a = b \<and> apps_constructed s1 = apps_constructed s)
       \<and> apps_constructed (run (initial themes running) ops2) \<le> 1"
proof -
  have w: "wxapp s1 = Some a"
    using get_wxapp_sets [of s redirect clearSigInt] assms by simp
  have st: "app_stable s1 (run s1 ops)"
    by (rule app_stable_run)
  with w have w2: "wxapp (run s1 ops) = Some a"
    by (simp add: app_stable_def)
  then have g: "get_wxapp (run s1 ops) redirect2 clearSigInt2 = (a, run s1 ops)"
    by (rule get_wxapp_again)
  have c: "apps_constructed (run s1 ops) = apps_constructed s1"
    using st w w2 by (simp add: app_stable_def app_budget_def)
  have f: "apps_constructed s1 \<le> Suc (apps_constructed s)"
    using assms
    by (auto simp add: get_wxapp_def Let_def apps_constructed_def split: option.splits)
  have r: "a = b \<and> apps_constructed s1 = apps_constructed s"
    if "wxapp s = None \<and> wx_GetApp s = Some b"
    using that assms by (auto simp add: get_wxapp_def apps_constructed_def)
  have "app_stable (initial themes running) (run (initial themes running) ops2)"
    by (rule app_stable_run)
  then have "app_budget (run (initial themes running) ops2) \<le> app_budget (initial themes running)"
    by (simp add: app_stable_def)
  moreover have "app_budget (initial themes running) \<le> 1"
    by (simp add: app_budget_def apps_constructed_def initial_def)
  ultimately have i: "apps_constructed (run (initial themes running) ops2) \<le> 1"
    using apps_constructed_le_budget [of "run (initial themes running) ops2"] by simp
  from w g c f r i show ?thesis by blast
qed

theorem get_wxapp_single_instance_witness:
  "fst (get_wxapp (initial [] None) (PyBool False) (PyBool True)) = 0
   \<and> apps_constructed (snd (get_wxapp (initial [] None) (PyBool False) (PyBool True))) = 1
   \<and> fst (get_wxapp
             (run (snd (get_wxapp (initial [] None) (PyBool False) (PyBool True)))
                [GetPlotWindow 1 PyNone PyNone PyNone, GetWxApp (PyBool True) (PyBool False)])
             (PyBool True) (PyBool True)) = 0
   \<and> apps_constructed
        (run (snd (get_wxapp (initial [] None) (PyBool False) (PyBool True)))
           [GetPlotWindow 1 PyNone PyNone PyNone, GetWxApp (PyBool True) (PyBool False)]) = 1
   \<and> fst (get_wxapp (initial [] (Some 5)) (PyBool False) (PyBool True)) = 5
   \<and> apps_constructed (snd (get_wxapp (initial [] (Some 5)) (PyBool False) (PyBool True))) = 0"
proof -
  have fa: "fst (get_wxapp (initial [] None) (PyBool False) (PyBool True)) = 0"
    by (simp add: get_wxapp_def initial_def Let_def)
  then have a: "get_wxapp (initial [] None) (PyBool False) (PyBool True) =
      (0, snd (get_wxapp (initial [] None) (PyBool False) (PyBool True)))"
    by (simp add: prod_eq_iff)
  have fb: "fst (get_wxapp (initial [] (Some 5)) (PyBool False) (PyBool True)) = 5"
    by (simp add: get_wxapp_def initial_def Let_def)
  then have b: "get_wxapp (initial [] (Some 5)) (PyBool False) (PyBool True) =
      (5, snd (get_wxapp (initial [] (Some 5)) (PyBool False) (PyBool True)))"
    by (simp add: prod_eq_iff)
  have c: "apps_constructed (snd (get_wxapp (initial [] None) (PyBool False) (PyBool True))) = 1"
    by (simp add: get_wxapp_def initial_def Let_def apps_constructed_def)
  have d: "wxapp (initial [] (Some 5)) = None \<and> wx_GetApp (initial [] (Some 5)) = Some 5"
    "apps_constructed (initial [] (Some 5)) = 0"
    by (simp_all add: initial_def apps_constructed_def)
  from get_wxapp_single_instance [OF a,
      of "[GetPlotWindow 1 PyNone PyNone PyNone, GetWxApp (PyBool True) (PyBool False)]"
         "PyBool True" "PyBool True" 0 "[]" None "[]"]
    get_wxapp_single_instance [OF b, of "[]" "PyBool True" "PyBool True" 5 "[]" None "[]"] fa fb c d
  show ?thesis
    by simp
qed

subsection \<open>The draw calls of a forwarder\<close>

lemma setup_not_drawn:
  "list_all window_setup cs \<Longrightarrow>
     set ms \<inter> set [''wx.App'', ''PlotFrame.__init__'', ''ImageFrame.__init__'', ''SetSize'',
                    ''Show'', ''Raise''] = {} \<Longrightarrow>
     filter (is_call ms) cs = []"
proof (induction cs)
  case Nil
  then show ?case by simp
next
  case (Cons c cs)
  then show ?case by (cases c) auto
qed

lemma draw_calls_plot_window:
  assumes "set ms \<inter> set [''wx.App'', ''PlotFrame.__init__'', ''ImageFrame.__init__'', ''SetSize'',
                    ''Show'', ''Raise''] = {}"
  shows "draw_calls ms s (emit cs (snd (get_plot_window s win wsize wintitle theme))) =
           filter (is_call ms) cs"
proof -
  obtain p s1 cs0 where g: "get_plot_window s win wsize wintitle theme = (Inr (Some p), s1)"
    and c: "calls s1 = calls s @ cs0" "list_all window_setup cs0"
    using get_plot_window_summary [of s win wsize wintitle theme] by blast
  have "issued s (emit cs s1) = cs0 @ cs"
    using c(1) by (simp add: issued_def)
  then show ?thesis
    using setup_not_drawn [OF c(2) assms] by (simp add: draw_calls_def g)
qed

lemma draw_calls_image_window:
  assumes "set ms \<inter> set [''wx.App'', ''PlotFrame.__init__'', ''ImageFrame.__init__'', ''SetSize'',
                    ''Show'', ''Raise''] = {}"
  shows "draw_calls ms s (emit cs (snd (get_image_window s win wsize wintitle))) =
           filter (is_call ms) cs"
proof -
  obtain r s1 cs0 where g: "get_image_window s win wsize wintitle = (r, s1)"
    and c: "calls s1 = calls s @ cs0" "list_all window_setup cs0"
    using get_image_window_summary [of s win wsize wintitle] by blast
  have "issued s (emit cs s1) = cs0 @ cs"
    using c(1) by (simp add: issued_def)
  then show ?thesis
    using setup_not_drawn [OF c(2) assms] by (simp add: draw_calls_def g)
qed

lemma plot_axhline_returns:
  "fst (plot_axhline s y xmin xmax win wsize delay_draw kws) =
     (if kws ''xmin'' = None \<and> kws ''xmax'' = None then Inr () else Inl TypeError)"
  using plot_axhline_unfold [of s win wsize xmin xmax kws y delay_draw]
  by (auto simp add: call_kwargs_def split: if_splits)

lemma plot_axvline_returns:
  "fst (plot_axvline s x ymin ymax win wsize delay_draw kws) =
     (if kws ''ymin'' = None \<and> kws ''ymax'' = None then Inr () else Inl TypeError)"
  using plot_axvline_unfold [of s win wsize ymin ymax kws x delay_draw]
  by (auto simp add: call_kwargs_def split: if_splits)

subsection \<open>The two reference lines and \<^verbatim>\<open>delay_draw\<close>\<close>

text \<open>
  Claim C10. For calls that return, \<^verbatim>\<open>plot_axvline\<close> calls the canvas' \<^verbatim>\<open>draw\<close> once when
  \<^verbatim>\<open>delay_draw\<close> is false and not at all when it is true, whereas \<^verbatim>\<open>plot_axhline\<close> calls it
  once when \<^verbatim>\<open>delay_draw\<close> is true and not at all when it is false. So \<^verbatim>\<open>plot_axhline\<close>
  with \<^verbatim>\<open>delay_draw=False\<close>, the default, never calls it.
\<close>

theorem reference_lines_disagree_on_delay_draw:
  assumes "fst (plot_axvline s x ymin ymax win wsize delay_draw kws) = Inr ()"
    and "fst (plot_axhline s y xmin xmax win2 wsize2 delay_draw kws2) = Inr ()"
  shows "length (draw_calls [''panel.canvas.draw''] s
                   (snd (plot_axvline s x ymin ymax win wsize delay_draw kws))) =
           (if delay_draw then 0 else 1)
       \<and> length (draw_calls [''panel.canvas.draw''] s
                   (snd (plot_axhline s y xmin xmax win2 wsize2 delay_draw kws2))) =
           (if delay_draw then 1 else 0)
       \<and> draw_calls [''panel.canvas.draw''] s
           (snd (plot_axhline s y xmin xmax win2 wsize2 False kws2)) = []"
proof (intro conjI)
  show "length (draw_calls [''panel.canvas.draw''] s
                   (snd (plot_axvline s x ymin ymax win wsize delay_draw kws))) =
           (if delay_draw then 0 else 1)"
    using plot_axvline_unfold [of s win wsize ymin ymax kws x delay_draw] assms(1)
    by (auto simp add: draw_calls_plot_window)
  show "length (draw_calls [''panel.canvas.draw''] s
                   (snd (plot_axhline s y xmin xmax win2 wsize2 delay_draw kws2))) =
           (if delay_draw then 1 else 0)"
    using plot_axhline_unfold [of s win2 wsize2 xmin xmax kws2 y delay_draw] assms(2)
    by (auto simp add: draw_calls_plot_window)
  show "draw_calls [''panel.canvas.draw''] s
           (snd (plot_axhline s y xmin xmax win2 wsize2 False kws2)) = []"
    using plot_axhline_unfold [of s win2 wsize2 xmin xmax kws2 y False]
    by (auto simp add: draw_calls_plot_window)
qed

theorem reference_lines_disagree_on_delay_draw_witness:
  "length (draw_calls [''panel.canvas.draw''] (initial [] None)
       (snd (plot_axvline (initial [] None) (PyInt 3) (PyInt 0) (PyInt 1) 1 PyNone False
               [''color'' \<mapsto> PyStr ''red'']))) = 1
   \<and> length (draw_calls [''panel.canvas.draw''] (initial [] None)
       (snd (plot_axhline (initial [] None) (PyInt 3) (PyInt 0) (PyInt 1) 1 PyNone False
               [''color'' \<mapsto> PyStr ''red'']))) = 0
   \<and> length (draw_calls [''panel.canvas.draw''] (initial [] None)
       (snd (plot_axvline (initial [] None) (PyInt 3) (PyInt 0) (PyInt 1) 1 PyNone True
               [''color'' \<mapsto> PyStr ''red'']))) = 0
   \<and> length (draw_calls [''panel.canvas.draw''] (initial [] None)
       (snd (plot_axhline (initial [] None) (PyInt 3) (PyInt 0) (PyInt 1) 1 PyNone True
               [''color'' \<mapsto> PyStr ''red'']))) = 1"
  using reference_lines_disagree_on_delay_draw [of "initial [] None" "PyInt 3" "PyInt 0" "PyInt 1"
      1 PyNone False "[''color'' \<mapsto> PyStr ''red'']" "PyInt 3" "PyInt 0" "PyInt 1" 1 PyNone
      "[''color'' \<mapsto> PyStr ''red'']"]
    reference_lines_disagree_on_delay_draw [of "initial [] None" "PyInt 3" "PyInt 0" "PyInt 1"
      1 PyNone True "[''color'' \<mapsto> PyStr ''red'']" "PyInt 3" "PyInt 0" "PyInt 1" 1 PyNone
      "[''color'' \<mapsto> PyStr ''red'']"]
  by (simp add: plot_axhline_returns plot_axvline_returns)

subsection \<open>\<^verbatim>\<open>newplot\<close> and \<^verbatim>\<open>plot\<close>\<close>

lemma get_plot_window_abs:
  "get_plot_window s \<bar>win\<bar> wsize wintitle theme = get_plot_window s win wsize wintitle theme"
  by (simp add: get_plot_window_def)

lemma plot_abs:
  "plot s x y \<bar>win\<bar> new wsize wintitle theme kws = plot s x y win new wsize wintitle theme kws"
  by (simp add: plot_def get_plot_window_abs)

lemma kw_rest_absent:
  "list_all (\<lambda>k. kws k = None) names \<Longrightarrow> kw_rest kws names = kws"
  by (rule ext) (auto simp add: kw_rest_def list_all_iff)

text \<open>
  Claim C9, as amended. For keyword options that do not themselves contain \<^verbatim>\<open>new\<close>,
  \<^verbatim>\<open>newplot(x, y, win=win, wintitle=wintitle, **kws)\<close> is the call
  \<^verbatim>\<open>plot(x, y, win=win, wintitle=wintitle, new=True, **kws)\<close>: the same result and the same
  state. A \<^verbatim>\<open>new\<close> among the options is overridden: \<^verbatim>\<open>newplot\<close> behaves as if it had
  not been given. When the options are styling options only (none of them names a
  parameter of \<^verbatim>\<open>plot\<close>), this is \<^verbatim>\<open>plot\<close> with \<^verbatim>\<open>new=True\<close>, the default size and theme,
  and the options passed on as they are.
\<close>

theorem newplot_is_plot_new:
  "(kws ''new'' = None \<longrightarrow>
      newplot s x y win wintitle kws =
        plot_call s x y [(''win'', PyInt win), (''wintitle'', wintitle), (''new'', PyBool True)] kws)
   \<and> newplot s x y win wintitle kws = newplot s x y win wintitle (kws(''new'' := None))
   \<and> (list_all (\<lambda>k. kws k = None)
         [''new'', ''win'', ''wintitle'', ''x'', ''y'', ''size'', ''theme''] \<longrightarrow>
        newplot s x y win wintitle kws = plot s x y win True PyNone wintitle PyNone kws)"
proof (intro conjI impI)
  assume n: "kws ''new'' = None"
  have "kws(''new'' \<mapsto> PyBool True) ++ map_of [(''win'', PyInt win), (''wintitle'', wintitle)] =
      kws ++ map_of [(''win'', PyInt win), (''wintitle'', wintitle), (''new'', PyBool True)]"
    by (rule ext) (simp add: map_add_def)
  then have "call_kwargs [(''win'', PyInt win), (''wintitle'', wintitle)]
        (kws(''new'' \<mapsto> PyBool True)) =
      call_kwargs [(''win'', PyInt win), (''wintitle'', wintitle), (''new'', PyBool True)] kws"
    using n by (simp add: call_kwargs_def)
  then show "newplot s x y win wintitle kws =
      plot_call s x y [(''win'', PyInt win), (''wintitle'', wintitle), (''new'', PyBool True)] kws"
    by (simp add: newplot_def plot_call_def)
next
  show "newplot s x y win wintitle kws = newplot s x y win wintitle (kws(''new'' := None))"
    by (simp add: newplot_def)
next
  assume a: "list_all (\<lambda>k. kws k = None)
      [''new'', ''win'', ''wintitle'', ''x'', ''y'', ''size'', ''theme'']"
  then have r: "kw_rest kws [''win'', ''new'', ''size'', ''wintitle'', ''theme''] = kws"
    by (intro kw_rest_absent) simp
  from a have "newplot s x y win wintitle kws =
      plot s x y \<bar>win\<bar> True (kw_get kws ''size'' PyNone) wintitle (kw_get kws ''theme'' PyNone)
        (kw_rest kws [''win'', ''new'', ''size'', ''wintitle'', ''theme''])"
    by (intro newplot_unfold) simp_all
  with a r show "newplot s x y win wintitle kws = plot s x y win True PyNone wintitle PyNone kws"
    by (simp add: kw_get_def plot_abs)
qed

theorem newplot_is_plot_new_witness:
  "newplot (initial [] None) (PyList [PyInt 0, PyInt 1]) (PyList [PyInt 2, PyInt 3]) 1 PyNone
       [''color'' \<mapsto> PyStr ''red''] =
     plot_call (initial [] None) (PyList [PyInt 0, PyInt 1]) (PyList [PyInt 2, PyInt 3])
       [(''win'', PyInt 1), (''wintitle'', PyNone), (''new'', PyBool True)]
       [''color'' \<mapsto> PyStr ''red'']
   \<and> newplot (initial [] None) (PyList [PyInt 0, PyInt 1]) (PyList [PyInt 2, PyInt 3]) 1 PyNone
       [''color'' \<mapsto> PyStr ''red''] =
     plot (initial [] None) (PyList [PyInt 0, PyInt 1]) (PyList [PyInt 2, PyInt 3]) 1 True PyNone
       PyNone PyNone [''color'' \<mapsto> PyStr ''red'']
   \<and> fst (newplot (initial [] None) (PyList [PyInt 0, PyInt 1]) (PyList [PyInt 2, PyInt 3]) 1 PyNone
            [''color'' \<mapsto> PyStr ''red'']) = Inr (Some 0)"
proof -
  have "fst (plot (initial [] None) (PyList [PyInt 0, PyInt 1]) (PyList [PyInt 2, PyInt 3]) 1 True
      PyNone PyNone PyNone [''color'' \<mapsto> PyStr ''red'']) = Inr (Some 0)"
    using plot_unfold [of "initial [] None" 1 PyNone PyNone PyNone "PyList [PyInt 0, PyInt 1]"
        "PyList [PyInt 2, PyInt 3]" True "[''color'' \<mapsto> PyStr ''red'']"]
    by (auto simp add: first_plot_window)
  note f = this
  have h1: "[''color'' \<mapsto> PyStr ''red''] ''new'' = None"
    by simp
  have h2: "list_all (\<lambda>k. [''color'' \<mapsto> PyStr ''red''] k = None)
      [''new'', ''win'', ''wintitle'', ''x'', ''y'', ''size'', ''theme'']"
    by simp
  have e1: "newplot (initial [] None) (PyList [PyInt 0, PyInt 1]) (PyList [PyInt 2, PyInt 3]) 1 PyNone
       [''color'' \<mapsto> PyStr ''red''] =
     plot_call (initial [] None) (PyList [PyInt 0, PyInt 1]) (PyList [PyInt 2, PyInt 3])
       [(''win'', PyInt 1), (''wintitle'', PyNone), (''new'', PyBool True)]
       [''color'' \<mapsto> PyStr ''red'']"
    and e2: "newplot (initial [] None) (PyList [PyInt 0, PyInt 1]) (PyList [PyInt 2, PyInt 3]) 1 PyNone
       [''color'' \<mapsto> PyStr ''red''] =
     plot (initial [] None) (PyList [PyInt 0, PyInt 1]) (PyList [PyInt 2, PyInt 3]) 1 True PyNone
       PyNone PyNone [''color'' \<mapsto> PyStr ''red'']"
    using newplot_is_plot_new [of "[''color'' \<mapsto> PyStr ''red'']" "initial [] None"
        "PyList [PyInt 0, PyInt 1]" "PyList [PyInt 2, PyInt 3]" 1 PyNone] h1 h2
    by blast+
  show ?thesis
    by (intro conjI, rule e1, rule e2, simp only: e2 f)
qed

text \<open>
  The claim as first stated fails for options that contain \<^verbatim>\<open>new\<close>: in a fresh module
  \<^verbatim>\<open>newplot(x, y, new=False)\<close> returns the window it creates, whereas the call
  \<^verbatim>\<open>plot(x, y, win=1, wintitle=None, new=True, **{'new': False})\<close> is rejected for the
  repeated keyword before \<^verbatim>\<open>plot\<close> runs.
\<close>

theorem newplot_overrides_new:
  "fst (newplot (initial [] None) (PyList [PyInt 0, PyInt 1]) (PyList [PyInt 2, PyInt 3]) 1 PyNone
          [''new'' \<mapsto> PyBool False]) = Inr (Some 0)
   \<and> plot_call (initial [] None) (PyList [PyInt 0, PyInt 1]) (PyList [PyInt 2, PyInt 3])
       [(''win'', PyInt 1), (''wintitle'', PyNone), (''new'', PyBool True)]
       [''new'' \<mapsto> PyBool False] = (Inl TypeError, initial [] None)
   \<and> newplot (initial [] None) (PyList [PyInt 0, PyInt 1]) (PyList [PyInt 2, PyInt 3]) 1 PyNone
          [''new'' \<mapsto> PyBool False] \<noteq>
       plot_call (initial [] None) (PyList [PyInt 0, PyInt 1]) (PyList [PyInt 2, PyInt 3])
         [(''win'', PyInt 1), (''wintitle'', PyNone), (''new'', PyBool True)]
         [''new'' \<mapsto> PyBool False]"
proof -
  let ?s = "initial [] None"
  let ?x = "PyList [PyInt 0, PyInt 1]"
  let ?y = "PyList [PyInt 2, PyInt 3]"
  have n: "newplot ?s ?x ?y 1 PyNone [''new'' \<mapsto> PyBool False] =
      plot ?s ?x ?y \<bar>1\<bar> True (kw_get [''new'' \<mapsto> PyBool False] ''size'' PyNone) PyNone
        (kw_get [''new'' \<mapsto> PyBool False] ''theme'' PyNone)
        (kw_rest [''new'' \<mapsto> PyBool False] [''win'', ''new'', ''size'', ''wintitle'', ''theme''])"
    by (intro newplot_unfold) simp_all
  have f: "fst (newplot ?s ?x ?y 1 PyNone [''new'' \<mapsto> PyBool False]) = Inr (Some 0)"
    unfolding n
    using plot_unfold [of ?s "\<bar>1\<bar>" "kw_get [''new'' \<mapsto> PyBool False] ''size'' PyNone" PyNone
        "kw_get [''new'' \<mapsto> PyBool False] ''theme'' PyNone" ?x ?y True
        "kw_rest [''new'' \<mapsto> PyBool False] [''win'', ''new'', ''size'', ''wintitle'', ''theme'']"]
    by (auto simp add: first_plot_window)
  have p: "plot_call ?s ?x ?y [(''win'', PyInt 1), (''wintitle'', PyNone), (''new'', PyBool True)]
      [''new'' \<mapsto> PyBool False] = (Inl TypeError, ?s)"
    by (simp add: plot_call_def call_kwargs_def)
  from f p show ?thesis by auto
qed

subsection \<open>Keyword options on their way to the drawing surface\<close>

lemma call_kwargs_passes:
  assumes "call_kwargs explicit kws = Inr kw"
  shows "kws \<subseteq>\<^sub>m kw" "dom kw = dom kws \<union> fst ` set explicit"
proof -
  from assms have n: "\<not> list_ex (\<lambda>kv. kws (fst kv) \<noteq> None) explicit"
    and kw: "kw = kws ++ map_of explicit"
    by (auto simp add: call_kwargs_def split: if_splits)
  have "map_of explicit a = None" if "a \<in> dom kws" for a
  proof (cases "map_of explicit a")
    case None
    then show ?thesis .
  next
    case (Some v)
    then have "(a, v) \<in> set explicit" by (rule map_of_SomeD)
    with n have "kws a = None" by (auto simp add: list_ex_iff)
    with that show ?thesis by auto
  qed
  then show "kws \<subseteq>\<^sub>m kw"
    unfolding kw by (auto simp add: map_le_def map_add_def)
  show "dom kw = dom kws \<union> fst ` set explicit"
    unfolding kw by (auto simp add: dom_map_of_conv_image_fst)
qed

lemma passes_throughI:
  "draw_calls ms s s1 = [Call p m args kw] \<Longrightarrow> kws \<subseteq>\<^sub>m kw \<Longrightarrow> dom kw = dom kws \<union> set added \<Longrightarrow>
     passes_through kws ms added s s1"
  by (auto simp add: passes_through_def)

lemma passes_through_call:
  assumes "draw_calls ms s s1 = [Call p m args kw]" and "call_kwargs explicit kws = Inr kw"
    and "set added = fst ` set explicit"
  shows "passes_through kws ms added s s1"
  using assms(1) call_kwargs_passes [OF assms(2)] assms(3)
  by (intro passes_throughI [of ms s s1 p m args kw]) simp_all

lemma plot_passes:
  "passes_through kws [''plot'', ''oplot''] [] s (snd (plot s x y win new wsize wintitle theme kws))"
proof -
  obtain p where p: "plot s x y win new wsize wintitle theme kws =
      (Inr (Some p),
       emit [Call p ''Raise'' [] Map.empty, Call p (if new then ''plot'' else ''oplot'') [x, y] kws]
         (snd (get_plot_window s win wsize wintitle theme)))"
    using plot_unfold [of s win wsize wintitle theme x y new kws] by blast
  have "draw_calls [''plot'', ''oplot''] s (snd (plot s x y win new wsize wintitle theme kws)) =
      [Call p (if new then ''plot'' else ''oplot'') [x, y] kws]"
    by (simp add: p draw_calls_plot_window)
  then show ?thesis
    by (rule passes_throughI) simp_all
qed

lemma update_trace_passes:
  assumes "fst (update_trace s x y trace win kws) = Inr ()"
  shows "passes_through kws [''panel.update_line''] [''draw''] s
           (snd (update_trace s x y trace win kws))"
proof -
  let ?E = "[(''draw'', PyBool True)]"
  obtain p where c: "call_kwargs ?E kws = Inr (kws ++ map_of ?E)"
    and u: "update_trace s x y trace win kws =
      (Inr (),
       emit [Call p ''Raise'' [] Map.empty,
             Call p ''panel.update_line'' [PyInt (trace - 1), x, y] (kws ++ map_of ?E)]
         (snd (get_plot_window s win PyNone PyNone PyNone)))"
    using update_trace_unfold [of s win kws x y trace] assms by auto
  have "draw_calls [''panel.update_line''] s (snd (update_trace s x y trace win kws)) =
      [Call p ''panel.update_line'' [PyInt (trace - 1), x, y] (kws ++ map_of ?E)]"
    unfolding u by (simp add: draw_calls_plot_window del: map_of.simps)
  then show ?thesis
    using c by (rule passes_through_call) simp
qed

lemma plot_text_passes:
  assumes "fst (plot_text s text' x y win rotation ha va side wsize kws) = Inr ()"
  shows "passes_through kws [''add_text''] [''rotation'', ''ha'', ''va''] s
           (snd (plot_text s text' x y win rotation ha va side wsize kws))"
proof -
  let ?E = "[(''rotation'', rotation), (''ha'', ha), (''va'', va)]"
  obtain p where c: "call_kwargs ?E kws = Inr (kws ++ map_of ?E)"
    and u: "plot_text s text' x y win rotation ha va side wsize kws =
      (Inr (),
       emit [Call p ''Raise'' [] Map.empty, Call p ''add_text'' [text', x, y] (kws ++ map_of ?E)]
         (snd (get_plot_window s win wsize PyNone PyNone)))"
    using plot_text_unfold [of s win wsize rotation ha va kws text' x y side] assms by auto
  have "draw_calls [''add_text''] s (snd (plot_text s text' x y win rotation ha va side wsize kws)) =
      [Call p ''add_text'' [text', x, y] (kws ++ map_of ?E)]"
    unfolding u by (simp add: draw_calls_plot_window del: map_of.simps)
  then show ?thesis
    using c by (rule passes_through_call) simp
qed

lemma plot_arrow_passes:
  assumes "fst (plot_arrow s x1 y1 x2 y2 win side shape color width head_width head_length wsize kws)
      = Inr ()"
  shows "passes_through kws [''add_arrow'']
           [''side'', ''shape'', ''color'', ''width'', ''head_length'', ''head_width''] s
           (snd (plot_arrow s x1 y1 x2 y2 win side shape color width head_width head_length
                   wsize kws))"
proof -
  let ?E = "[(''side'', side), (''shape'', shape), (''color'', color), (''width'', width),
             (''head_length'', head_length), (''head_width'', head_width)]"
  obtain p where c: "call_kwargs ?E kws = Inr (kws ++ map_of ?E)"
    and u: "plot_arrow s x1 y1 x2 y2 win side shape color width head_width head_length wsize kws =
      (Inr (),
       emit [Call p ''Raise'' [] Map.empty, Call p ''add_arrow'' [x1, y1, x2, y2] (kws ++ map_of ?E)]
         (snd (get_plot_window s win wsize PyNone PyNone)))"
    using plot_arrow_unfold [of s win wsize side shape color width head_length head_width kws
        x1 y1 x2 y2] assms
    by auto
  have "draw_calls [''add_arrow''] s
      (snd (plot_arrow s x1 y1 x2 y2 win side shape color width head_width head_length wsize kws)) =
      [Call p ''add_arrow'' [x1, y1, x2, y2] (kws ++ map_of ?E)]"
    unfolding u by (simp add: draw_calls_plot_window del: map_of.simps)
  then show ?thesis
    using c by (rule passes_through_call) simp
qed

lemma plot_marker_passes:
  assumes "fst (plot_marker s x y marker msize color label win kws) = Inr ()"
  shows "passes_through kws [''oplot''] [''marker'', ''markersize'', ''label'', ''color''] s
           (snd (plot_marker s x y marker msize color label win kws))"
proof -
  let ?E = "[(''marker'', marker), (''markersize'', msize), (''label'', label), (''color'', color)]"
  obtain p where c: "call_kwargs ?E kws = Inr (kws ++ map_of ?E)"
    and u: "plot_marker s x y marker msize color label win kws =
      (Inr (),
       emit [Call p ''Raise'' [] Map.empty,
             Call p ''oplot'' [PyList [x], PyList [y]] (kws ++ map_of ?E)]
         (snd (get_plot_window s win PyNone PyNone PyNone)))"
    using plot_marker_unfold [of s win marker msize label color kws x y] assms by auto
  have "draw_calls [''oplot''] s (snd (plot_marker s x y marker msize color label win kws)) =
      [Call p ''oplot'' [PyList [x], PyList [y]] (kws ++ map_of ?E)]"
    unfolding u by (simp add: draw_calls_plot_window del: map_of.simps)
  then show ?thesis
    using c by (rule passes_through_call) simp
qed

lemma hist_passes:
  assumes "fst (hist s x bins win new wsize force_draw title args kws out) = Inr r"
  shows "passes_through kws [''panel.axes.hist''] [''bins''] s
           (snd (hist s x bins win new wsize force_draw title args kws out))"
proof -
  let ?E = "[(''bins'', bins)]"
  obtain p where c: "call_kwargs ?E kws = Inr (kws ++ map_of ?E)"
    and u: "hist s x bins win new wsize force_draw title args kws out =
      (Inr out,
       emit ([Call p ''Raise'' [] Map.empty]
             @ (if new then [Call p ''panel.axes.clear'' [] Map.empty] else [])
             @ [Call p ''panel.axes.hist'' [x] (kws ++ map_of ?E)]
             @ (if title = PyNone then [] else [Call p ''panel.set_title'' [title] Map.empty])
             @ [Call p ''panel.canvas.draw'' [] Map.empty])
         (snd (get_plot_window s win wsize PyNone PyNone)))"
    using hist_unfold [of s win wsize bins kws x new force_draw title args out] assms by auto
  have "draw_calls [''panel.axes.hist''] s
      (snd (hist s x bins win new wsize force_draw title args kws out)) =
      [Call p ''panel.axes.hist'' [x] (kws ++ map_of ?E)]"
    unfolding u by (simp add: draw_calls_plot_window del: map_of.simps)
  then show ?thesis
    using c by (rule passes_through_call) simp
qed

lemma imshow_passes:
  assumes "fst (imshow s map' x y colormap win wintitle wsize kws) = Inr r"
  shows "passes_through kws [''display''] [''x'', ''y'', ''colormap''] s
           (snd (imshow s map' x y colormap win wintitle wsize kws))"
proof -
  let ?E = "[(''x'', x), (''y'', y), (''colormap'', colormap)]"
  have c: "call_kwargs ?E kws = Inr (kws ++ map_of ?E)"
    and u: "imshow s map' x y colormap win wintitle wsize kws =
      (Inr (Some (next_ref s)),
       emit [Call (next_ref s) ''display'' [map'] (kws ++ map_of ?E)]
         (snd (get_image_window s win wsize wintitle)))"
    using imshow_unfold [of s win map' x y colormap wintitle wsize kws] assms by auto
  have "draw_calls [''display''] s (snd (imshow s map' x y colormap win wintitle wsize kws)) =
      [Call (next_ref s) ''display'' [map'] (kws ++ map_of ?E)]"
    unfolding u by (simp add: draw_calls_image_window del: map_of.simps)
  then show ?thesis
    using c by (rule passes_through_call) simp
qed

lemma plot_axhline_passes:
  assumes "fst (plot_axhline s y xmin xmax win wsize delay_draw kws) = Inr ()"
  shows "passes_through kws [''panel.axes.axhline'']
           (if kws ''label'' = None then [''xmin'', ''xmax'', ''label''] else [''xmin'', ''xmax'']) s
           (snd (plot_axhline s y xmin xmax win wsize delay_draw kws))"
    and "map (call_keyword ''label'')
           (draw_calls [''panel.axes.axhline''] s (snd (plot_axhline s y xmin xmax win wsize delay_draw kws))) =
         [if kws ''label'' = None then Some (PyStr ''_nolegend_'') else kws ''label'']"
proof -
  let ?E = "[(''xmin'', xmin), (''xmax'', xmax)]"
  let ?kws1 = "if kws ''label'' = None then kws(''label'' \<mapsto> PyStr ''_nolegend_'') else kws"
  obtain p where c: "call_kwargs ?E ?kws1 = Inr (?kws1 ++ map_of ?E)"
    and u: "plot_axhline s y xmin xmax win wsize delay_draw kws =
      (Inr (),
       emit ([Call p ''Raise'' [] Map.empty, Call p ''panel.axes.axhline'' [y] (?kws1 ++ map_of ?E)]
             @ (if delay_draw then [Call p ''panel.canvas.draw'' [] Map.empty] else []))
         (snd (get_plot_window s win wsize PyNone PyNone)))"
    using plot_axhline_unfold [of s win wsize xmin xmax kws y delay_draw] assms by auto
  have d: "draw_calls [''panel.axes.axhline''] s (snd (plot_axhline s y xmin xmax win wsize delay_draw kws)) =
      [Call p ''panel.axes.axhline'' [y] (?kws1 ++ map_of ?E)]"
    unfolding u by (simp add: draw_calls_plot_window del: map_of.simps)
  have k: "kws \<subseteq>\<^sub>m ?kws1"
    by (auto simp add: map_le_def)
  have "dom ?kws1 = dom kws \<union> (if kws ''label'' = None then {''label''} else {})"
    by auto
  then have "dom (?kws1 ++ map_of ?E) =
      dom kws \<union> set (if kws ''label'' = None then [''xmin'', ''xmax'', ''label''] else [''xmin'', ''xmax''])"
    using call_kwargs_passes(2) [OF c] by auto
  with d map_le_trans [OF k call_kwargs_passes(1) [OF c]]
  show "passes_through kws [''panel.axes.axhline'']
           (if kws ''label'' = None then [''xmin'', ''xmax'', ''label''] else [''xmin'', ''xmax'']) s
           (snd (plot_axhline s y xmin xmax win wsize delay_draw kws))"
    by (rule passes_throughI)
  show "map (call_keyword ''label'')
           (draw_calls [''panel.axes.axhline''] s (snd (plot_axhline s y xmin xmax win wsize delay_draw kws))) =
         [if kws ''label'' = None then Some (PyStr ''_nolegend_'') else kws ''label'']"
    unfolding d by (simp add: map_add_def)
qed

lemma plot_axvline_passes:
  assumes "fst (plot_axvline s x ymin ymax win wsize delay_draw kws) = Inr ()"
  shows "passes_through kws [''panel.axes.axvline'']
           (if kws ''label'' = None then [''ymin'', ''ymax'', ''label''] else [''ymin'', ''ymax'']) s
           (snd (plot_axvline s x ymin ymax win wsize delay_draw kws))"
    and "map (call_keyword ''label'')
           (draw_calls [''panel.axes.axvline''] s (snd (plot_axvline s x ymin ymax win wsize delay_draw kws))) =
         [if kws ''label'' = None then Some (PyStr ''_nolegend_'') else kws ''label'']"
proof -
  let ?E = "[(''ymin'', ymin), (''ymax'', ymax)]"
  let ?kws1 = "if kws ''label'' = None then kws(''label'' \<mapsto> PyStr ''_nolegend_'') else kws"
  obtain p where c: "call_kwargs ?E ?kws1 = Inr (?kws1 ++ map_of ?E)"
    and u: "plot_axvline s x ymin ymax win wsize delay_draw kws =
      (Inr (),
       emit ([Call p ''Raise'' [] Map.empty, Call p ''panel.axes.axvline'' [x] (?kws1 ++ map_of ?E)]
             @ (if delay_draw then [] else [Call p ''panel.canvas.draw'' [] Map.empty]))
         (snd (get_plot_window s win wsize PyNone PyNone)))"
    using plot_axvline_unfold [of s win wsize ymin ymax kws x delay_draw] assms by auto
  have d: "draw_calls [''panel.axes.axvline''] s (snd (plot_axvline s x ymin ymax win wsize delay_draw kws)) =
      [Call p ''panel.axes.axvline'' [x] (?kws1 ++ map_of ?E)]"
    unfolding u by (simp add: draw_calls_plot_window del: map_of.simps)
  have k: "kws \<subseteq>\<^sub>m ?kws1"
    by (auto simp add: map_le_def)
  have "dom ?kws1 = dom kws \<union> (if kws ''label'' = None then {''label''} else {})"
    by auto
  then have "dom (?kws1 ++ map_of ?E) =
      dom kws \<union> set (if kws ''label'' = None then [''ymin'', ''ymax'', ''label''] else [''ymin'', ''ymax''])"
    using call_kwargs_passes(2) [OF c] by auto
  with d map_le_trans [OF k call_kwargs_passes(1) [OF c]]
  show "passes_through kws [''panel.axes.axvline'']
           (if kws ''label'' = None then [''ymin'', ''ymax'', ''label''] else [''ymin'', ''ymax'']) s
           (snd (plot_axvline s x ymin ymax win wsize delay_draw kws))"
    by (rule passes_throughI)
  show "map (call_keyword ''label'')
           (draw_calls [''panel.axes.axvline''] s (snd (plot_axvline s x ymin ymax win wsize delay_draw kws))) =
         [if kws ''label'' = None then Some (PyStr ''_nolegend_'') else kws ''label'']"
    unfolding d by (simp add: map_add_def)
qed

lemma newplot_fails:
  "\<not> (kws ''win'' = None \<and> kws ''wintitle'' = None \<and> kws ''x'' = None \<and> kws ''y'' = None) \<Longrightarrow>
     newplot s x y win wintitle kws = (Inl TypeError, s)"
  by (auto simp add: newplot_def plot_call_def call_kwargs_def plot_kw_def map_add_def)

lemma newplot_passes:
  assumes "fst (newplot s x y win wintitle kws) = Inr r"
  shows "passes_through (kw_rest kws [''new'', ''size'', ''theme'']) [''plot''] [] s
           (snd (newplot s x y win wintitle kws))"
proof -
  have "kws ''win'' = None \<and> kws ''wintitle'' = None \<and> kws ''x'' = None \<and> kws ''y'' = None"
  proof (rule ccontr)
    assume "\<not> (kws ''win'' = None \<and> kws ''wintitle'' = None \<and> kws ''x'' = None \<and> kws ''y'' = None)"
    then have "newplot s x y win wintitle kws = (Inl TypeError, s)"
      by (rule newplot_fails)
    with assms show False by simp
  qed
  then have a: "kws ''win'' = None" "kws ''wintitle'' = None" "kws ''x'' = None" "kws ''y'' = None"
    by simp_all
  let ?K = "kw_rest kws [''win'', ''new'', ''size'', ''wintitle'', ''theme'']"
  have n: "newplot s x y win wintitle kws =
      plot s x y \<bar>win\<bar> True (kw_get kws ''size'' PyNone) wintitle (kw_get kws ''theme'' PyNone) ?K"
    using a by (rule newplot_unfold)
  obtain p where p: "plot s x y \<bar>win\<bar> True (kw_get kws ''size'' PyNone) wintitle
        (kw_get kws ''theme'' PyNone) ?K =
      (Inr (Some p),
       emit [Call p ''Raise'' [] Map.empty, Call p ''plot'' [x, y] ?K]
         (snd (get_plot_window s \<bar>win\<bar> (kw_get kws ''size'' PyNone) wintitle
                 (kw_get kws ''theme'' PyNone))))"
    using plot_unfold [of s "\<bar>win\<bar>" "kw_get kws ''size'' PyNone" wintitle
        "kw_get kws ''theme'' PyNone" x y True ?K]
    by auto
  have d: "draw_calls [''plot''] s (snd (newplot s x y win wintitle kws)) =
      [Call p ''plot'' [x, y] ?K]"
    unfolding n p by (simp add: draw_calls_plot_window)
  have e: "kw_rest kws [''new'', ''size'', ''theme''] = ?K"
    using a by (intro ext) (simp add: kw_rest_def)
  from d show ?thesis
    by (rule passes_throughI) (simp_all add: e)
qed

lemma contour_fails:
  "\<not> (kws ''x'' = None \<and> kws ''y'' = None \<and> kws ''map'' = None) \<Longrightarrow>
     contour s map' x y kws = (Inl TypeError, s)"
  by (auto simp add: contour_def imshow_call_def call_kwargs_def imshow_kw_def map_add_def)

lemma contour_passes:
  assumes "fst (contour s map' x y kws) = Inr ()"
  shows "passes_through
           (kw_rest (kws(''style'' \<mapsto> PyStr ''contour'')) [''win'', ''wintitle'', ''size''])
           [''display''] [''x'', ''y'', ''colormap''] s (snd (contour s map' x y kws))"
proof -
  have "kws ''x'' = None \<and> kws ''y'' = None \<and> kws ''map'' = None"
  proof (rule ccontr)
    assume "\<not> (kws ''x'' = None \<and> kws ''y'' = None \<and> kws ''map'' = None)"
    then have "contour s map' x y kws = (Inl TypeError, s)"
      by (rule contour_fails)
    with assms show False by simp
  qed
  then have a: "kws ''x'' = None" "kws ''y'' = None" "kws ''map'' = None"
    by simp_all
  let ?kws1 = "kws(''style'' \<mapsto> PyStr ''contour'')"
  let ?R = "kw_rest ?kws1 [''x'', ''y'', ''colormap'', ''win'', ''wintitle'', ''size'']"
  let ?cm = "kw_get kws ''colormap'' PyNone"
  let ?E = "[(''x'', x), (''y'', y), (''colormap'', ?cm)]"
  note u = contour_unfold [OF a, of s map' x y]
  obtain w where w: "int_abs (kw_get kws ''win'' (PyInt 1)) = Inr w"
    using assms unfolding u by (cases "int_abs (kw_get kws ''win'' (PyInt 1))") auto
  let ?I = "imshow s map' x y ?cm w (kw_get kws ''wintitle'' PyNone) (kw_get kws ''size'' PyNone) ?R"
  obtain img where i: "fst ?I = Inr img"
    using assms unfolding u w by (cases ?I; cases "fst ?I") auto
  have sn: "snd (contour s map' x y kws) = snd ?I"
    unfolding u w by (cases ?I; cases "fst ?I") auto
  have c: "call_kwargs ?E ?R = Inr (?R ++ map_of ?E)"
    and v: "?I = (Inr (Some (next_ref s)),
       emit [Call (next_ref s) ''display'' [map'] (?R ++ map_of ?E)]
         (snd (get_image_window s w (kw_get kws ''size'' PyNone) (kw_get kws ''wintitle'' PyNone))))"
    using imshow_unfold [of s w map' x y ?cm "kw_get kws ''wintitle'' PyNone"
        "kw_get kws ''size'' PyNone" ?R] i
    by auto
  have d: "draw_calls [''display''] s (snd (contour s map' x y kws)) =
      [Call (next_ref s) ''display'' [map'] (?R ++ map_of ?E)]"
    unfolding sn v by (simp add: draw_calls_image_window del: map_of.simps)
  let ?K = "kw_rest ?kws1 [''win'', ''wintitle'', ''size'']"
  have le: "?K \<subseteq>\<^sub>m ?R ++ map_of ?E"
    using a by (auto simp add: map_le_def kw_rest_def kw_get_def map_add_def split: if_splits)
  have dm: "dom (?R ++ map_of ?E) = dom ?K \<union> set [''x'', ''y'', ''colormap'']"
    by (auto simp add: kw_rest_def split: if_splits)
  from d le dm show ?thesis
    by (rule passes_throughI)
qed

lemma passes_through_keyword:
  assumes "passes_through kws ms added s s1" and "kws k = Some v"
  shows "map (call_keyword k) (draw_calls ms s s1) = [Some v]"
proof -
  from assms(1) obtain p m args kw where d: "draw_calls ms s s1 = [Call p m args kw]"
    and le: "kws \<subseteq>\<^sub>m kw"
    by (auto simp add: passes_through_def)
  from le assms(2) have "kw k = Some v"
    by (auto simp add: map_le_def dom_def)
  with d show ?thesis by simp
qed

text \<open>When the forwarders return.\<close>

lemma update_trace_returns:
  "kws ''draw'' = None \<Longrightarrow> fst (update_trace s x y trace win kws) = Inr ()"
  using update_trace_unfold [of s win kws x y trace] by (auto simp add: call_kwargs_def)

lemma plot_text_returns:
  "kws ''rotation'' = None \<Longrightarrow> kws ''ha'' = None \<Longrightarrow> kws ''va'' = None \<Longrightarrow>
     fst (plot_text s text' x y win rotation ha va side wsize kws) = Inr ()"
  using plot_text_unfold [of s win wsize rotation ha va kws text' x y side]
  by (auto simp add: call_kwargs_def)

lemma plot_arrow_returns:
  "kws ''side'' = None \<Longrightarrow> kws ''shape'' = None \<Longrightarrow> kws ''color'' = None \<Longrightarrow>
   kws ''width'' = None \<Longrightarrow> kws ''head_length'' = None \<Longrightarrow> kws ''head_width'' = None \<Longrightarrow>
     fst (plot_arrow s x1 y1 x2 y2 win side shape color width head_width head_length wsize kws) =
       Inr ()"
  using plot_arrow_unfold [of s win wsize side shape color width head_length head_width kws
      x1 y1 x2 y2]
  by (auto simp add: call_kwargs_def)

lemma plot_marker_returns:
  "kws ''marker'' = None \<Longrightarrow> kws ''markersize'' = None \<Longrightarrow> kws ''label'' = None \<Longrightarrow>
   kws ''color'' = None \<Longrightarrow>
     fst (plot_marker s x y marker msize color label win kws) = Inr ()"
  using plot_marker_unfold [of s win marker msize label color kws x y]
  by (auto simp add: call_kwargs_def)

lemma hist_returns:
  "kws ''bins'' = None \<Longrightarrow>
     fst (hist s x bins win new wsize force_draw title args kws out) = Inr out"
  using hist_unfold [of s win wsize bins kws x new force_draw title args out]
  by (auto simp add: call_kwargs_def)

lemma imshow_returns:
  "IMG_DISPLAYS s (max 1 (min 100 \<bar>win\<bar>)) = None \<Longrightarrow>
   kws ''x'' = None \<Longrightarrow> kws ''y'' = None \<Longrightarrow> kws ''colormap'' = None \<Longrightarrow>
     fst (imshow s map' x y colormap win wintitle wsize kws) = Inr (Some (next_ref s))"
  using imshow_unfold [of s win map' x y colormap wintitle wsize kws]
  by (auto simp add: call_kwargs_def)

lemma contour_returns:
  assumes "kws ''x'' = None" "kws ''y'' = None" "kws ''map'' = None"
    and "int_abs (kw_get kws ''win'' (PyInt 1)) = Inr w"
    and "IMG_DISPLAYS s (max 1 (min 100 \<bar>w\<bar>)) = None"
  shows "fst (contour s map' x y kws) = Inr ()"
proof -
  let ?R = "kw_rest (kws(''style'' \<mapsto> PyStr ''contour''))
      [''x'', ''y'', ''colormap'', ''win'', ''wintitle'', ''size'']"
  have "fst (imshow s map' x y (kw_get kws ''colormap'' PyNone) w (kw_get kws ''wintitle'' PyNone)
      (kw_get kws ''size'' PyNone) ?R) = Inr (Some (next_ref s))"
    using assms(5) by (rule imshow_returns) (simp_all add: kw_rest_def)
  then show ?thesis
    unfolding contour_unfold [OF assms(1-3)] assms(4)
    by (cases "imshow s map' x y (kw_get kws ''colormap'' PyNone) w
          (kw_get kws ''wintitle'' PyNone) (kw_get kws ''size'' PyNone) ?R") auto
qed

text \<open>
  Claim C7, as amended. Whenever a drawing forwarder returns, it has made exactly one
  draw call on the drawing surface, and that call carries every keyword option the caller
  supplied in \<^verbatim>\<open>**kws\<close>, with the caller's value, and besides them only the keywords
  that the forwarder sets itself from its named parameters (such as \<^verbatim>\<open>rotation\<close>,
  \<^verbatim>\<open>ha\<close> and \<^verbatim>\<open>va\<close> in \<^verbatim>\<open>plot_text\<close>), with these exceptions. \<^verbatim>\<open>contour\<close> sets \<^verbatim>\<open>style\<close> to
  \<^verbatim>\<open>'contour'\<close>, replacing a style the caller supplied, and binds \<^verbatim>\<open>win\<close>, \<^verbatim>\<open>wintitle\<close>
  and \<^verbatim>\<open>size\<close> to the window parameters of \<^verbatim>\<open>imshow\<close>. \<^verbatim>\<open>newplot\<close> binds \<^verbatim>\<open>new\<close>,
  \<^verbatim>\<open>size\<close> and \<^verbatim>\<open>theme\<close> to the parameters of \<^verbatim>\<open>plot\<close>. \<^verbatim>\<open>plot_axhline\<close> and
  \<^verbatim>\<open>plot_axvline\<close> add \<^verbatim>\<open>label='_nolegend_'\<close> when the caller supplied no label, and pass a
  supplied label on unchanged.
\<close>

theorem forwarders_pass_keywords:
  "passes_through kws [''plot'', ''oplot''] [] s
     (snd (plot s x y win new wsize wintitle theme kws))
   \<and> (fst (newplot s x y win wintitle kws) = Inr ra \<longrightarrow>
        passes_through (kw_rest kws [''new'', ''size'', ''theme'']) [''plot''] [] s
          (snd (newplot s x y win wintitle kws)))
   \<and> (fst (update_trace s x y trace win kws) = Inr () \<longrightarrow>
        passes_through kws [''panel.update_line''] [''draw''] s
          (snd (update_trace s x y trace win kws)))
   \<and> (fst (plot_text s text' x y win rotation ha va side wsize kws) = Inr () \<longrightarrow>
        passes_through kws [''add_text''] [''rotation'', ''ha'', ''va''] s
          (snd (plot_text s text' x y win rotation ha va side wsize kws)))
   \<and> (fst (plot_arrow s xa ya xb yb win side shape color width head_width head_length wsize kws)
        = Inr () \<longrightarrow>
        passes_through kws [''add_arrow'']
          [''side'', ''shape'', ''color'', ''width'', ''head_length'', ''head_width''] s
          (snd (plot_arrow s xa ya xb yb win side shape color width head_width head_length
                  wsize kws)))
   \<and> (fst (plot_marker s x y marker msize color label win kws) = Inr () \<longrightarrow>
        passes_through kws [''oplot''] [''marker'', ''markersize'', ''label'', ''color''] s
          (snd (plot_marker s x y marker msize color label win kws)))
   \<and> (fst (plot_axhline s y xmin xmax win wsize delay_draw kws) = Inr () \<longrightarrow>
        passes_through kws [''panel.axes.axhline'']
          (if kws ''label'' = None then [''xmin'', ''xmax'', ''label''] else [''xmin'', ''xmax'']) s
          (snd (plot_axhline s y xmin xmax win wsize delay_draw kws))
        \<and> map (call_keyword ''label'')
            (draw_calls [''panel.axes.axhline''] s
               (snd (plot_axhline s y xmin xmax win wsize delay_draw kws))) =
          [if kws ''label'' = None then Some (PyStr ''_nolegend_'') else kws ''label''])
   \<and> (fst (plot_axvline s x ymin ymax win wsize delay_draw kws) = Inr () \<longrightarrow>
        passes_through kws [''panel.axes.axvline'']
          (if kws ''label'' = None then [''ymin'', ''ymax'', ''label''] else [''ymin'', ''ymax'']) s
          (snd (plot_axvline s x ymin ymax win wsize delay_draw kws))
        \<and> map (call_keyword ''label'')
            (draw_calls [''panel.axes.axvline''] s
               (snd (plot_axvline s x ymin ymax win wsize delay_draw kws))) =
          [if kws ''label'' = None then Some (PyStr ''_nolegend_'') else kws ''label''])
   \<and> (fst (hist s x bins win new wsize force_draw title args kws out) = Inr rb \<longrightarrow>
        passes_through kws [''panel.axes.hist''] [''bins''] s
          (snd (hist s x bins win new wsize force_draw title args kws out)))
   \<and> (fst (imshow s map' x y colormap win wintitle wsize kws) = Inr rc \<longrightarrow>
        passes_through kws [''display''] [''x'', ''y'', ''colormap''] s
          (snd (imshow s map' x y colormap win wintitle wsize kws)))
   \<and> (fst (contour s map' x y kws) = Inr () \<longrightarrow>
        passes_through
          (kw_rest (kws(''style'' \<mapsto> PyStr ''contour'')) [''win'', ''wintitle'', ''size''])
          [''display''] [''x'', ''y'', ''colormap''] s (snd (contour s map' x y kws))
        \<and> map (call_keyword ''style'')
            (draw_calls [''display''] s (snd (contour s map' x y kws))) =
          [Some (PyStr ''contour'')])"
proof -
  have c: "map (call_keyword ''style'') (draw_calls [''display''] s (snd (contour s map' x y kws))) =
      [Some (PyStr ''contour'')]"
    if "fst (contour s map' x y kws) = Inr ()"
    using contour_passes [OF that]
    by (rule passes_through_keyword) (simp add: kw_rest_def)
  show ?thesis
    using c
    by (intro conjI impI plot_passes newplot_passes update_trace_passes plot_text_passes
        plot_arrow_passes plot_marker_passes plot_axhline_passes plot_axvline_passes
        hist_passes imshow_passes contour_passes)
qed

theorem forwarders_pass_keywords_witness:
  "passes_through [''zorder'' \<mapsto> PyInt 3] [''plot'', ''oplot''] [] (initial [] None)
     (snd (plot (initial [] None) (PyList [PyInt 0]) (PyList [PyInt 1]) 1 False PyNone PyNone
             PyNone [''zorder'' \<mapsto> PyInt 3]))
   \<and> passes_through (kw_rest [''zorder'' \<mapsto> PyInt 3] [''new'', ''size'', ''theme''])
        [''plot''] [] (initial [] None)
        (snd (newplot (initial [] None) (PyList [PyInt 0]) (PyList [PyInt 1]) 1 PyNone
                [''zorder'' \<mapsto> PyInt 3]))
   \<and> passes_through [''zorder'' \<mapsto> PyInt 3] [''panel.update_line''] [''draw'']
        (initial [] None)
        (snd (update_trace (initial [] None) (PyList [PyInt 0]) (PyList [PyInt 1]) 1 1
                [''zorder'' \<mapsto> PyInt 3]))
   \<and> passes_through [''zorder'' \<mapsto> PyInt 3] [''add_text''] [''rotation'', ''ha'', ''va'']
        (initial [] None)
        (snd (plot_text (initial [] None) (PyStr ''peak'') (PyList [PyInt 0]) (PyList [PyInt 1]) 1
                PyNone (PyStr ''left'') (PyStr ''center'') (PyStr ''left'') PyNone
                [''zorder'' \<mapsto> PyInt 3]))
   \<and> passes_through [''zorder'' \<mapsto> PyInt 3] [''add_arrow'']
        [''side'', ''shape'', ''color'', ''width'', ''head_length'', ''head_width'']
        (initial [] None)
        (snd (plot_arrow (initial [] None) (PyInt 0) (PyInt 0) (PyInt 1) (PyInt 1) 1
                (PyStr ''left'') (PyStr ''full'') (PyStr ''black'') (PyInt 0) (PyInt 1) (PyInt 1)
                PyNone [''zorder'' \<mapsto> PyInt 3]))
   \<and> passes_through [''zorder'' \<mapsto> PyInt 3] [''oplot'']
        [''marker'', ''markersize'', ''label'', ''color''] (initial [] None)
        (snd (plot_marker (initial [] None) (PyList [PyInt 0]) (PyList [PyInt 1]) (PyStr ''o'')
                (PyInt 4) (PyStr ''black'') (PyStr ''_nolegend_'') 1 [''zorder'' \<mapsto> PyInt 3]))
   \<and> passes_through [''zorder'' \<mapsto> PyInt 3] [''panel.axes.axhline'']
        [''xmin'', ''xmax'', ''label''] (initial [] None)
        (snd (plot_axhline (initial [] None) (PyList [PyInt 1]) (PyInt 0) (PyInt 1) 1 PyNone False
                [''zorder'' \<mapsto> PyInt 3]))
   \<and> passes_through [''zorder'' \<mapsto> PyInt 3] [''panel.axes.axvline'']
        [''ymin'', ''ymax'', ''label''] (initial [] None)
        (snd (plot_axvline (initial [] None) (PyList [PyInt 0]) (PyInt 0) (PyInt 1) 1 PyNone False
                [''zorder'' \<mapsto> PyInt 3]))
   \<and> passes_through [''zorder'' \<mapsto> PyInt 3] [''panel.axes.hist''] [''bins'']
        (initial [] None)
        (snd (hist (initial [] None) (PyList [PyInt 0]) (PyInt 10) 1 False PyNone (PyBool True)
                PyNone [] [''zorder'' \<mapsto> PyInt 3] PyNone))
   \<and> passes_through [''zorder'' \<mapsto> PyInt 3] [''display''] [''x'', ''y'', ''colormap'']
        (initial [] None)
        (snd (imshow (initial [] None) (PyList []) (PyList [PyInt 0]) (PyList [PyInt 1]) PyNone 1
                PyNone PyNone [''zorder'' \<mapsto> PyInt 3]))
   \<and> passes_through
        (kw_rest ([''zorder'' \<mapsto> PyInt 3](''style'' \<mapsto> PyStr ''contour''))
           [''win'', ''wintitle'', ''size''])
        [''display''] [''x'', ''y'', ''colormap''] (initial [] None)
        (snd (contour (initial [] None) (PyList []) (PyList [PyInt 0]) (PyList [PyInt 1])
                [''zorder'' \<mapsto> PyInt 3]))"
proof -
  let ?s = "initial [] None"
  let ?x = "PyList [PyInt 0]"
  let ?y = "PyList [PyInt 1]"
  let ?K = "[''zorder'' \<mapsto> PyInt 3]"
  have i: "next_ref ?s = 0" "IMG_DISPLAYS ?s = Map.empty"
    by (simp_all add: initial_def)
  have n: "fst (newplot ?s ?x ?y 1 PyNone ?K) = Inr (Some 0)"
  proof -
    have "newplot ?s ?x ?y 1 PyNone ?K =
        plot ?s ?x ?y \<bar>1\<bar> True (kw_get ?K ''size'' PyNone) PyNone (kw_get ?K ''theme'' PyNone)
          (kw_rest ?K [''win'', ''new'', ''size'', ''wintitle'', ''theme''])"
      by (intro newplot_unfold) simp_all
    then show ?thesis
      using plot_unfold [of ?s "\<bar>1\<bar>" "kw_get ?K ''size'' PyNone" PyNone
          "kw_get ?K ''theme'' PyNone" ?x ?y True
          "kw_rest ?K [''win'', ''new'', ''size'', ''wintitle'', ''theme'']"]
      by (auto simp add: first_plot_window)
  qed
  have u: "fst (update_trace ?s ?x ?y 1 1 ?K) = Inr ()"
    by (rule update_trace_returns) simp
  have t: "fst (plot_text ?s (PyStr ''peak'') ?x ?y 1 PyNone (PyStr ''left'') (PyStr ''center'')
      (PyStr ''left'') PyNone ?K) = Inr ()"
    by (rule plot_text_returns) simp_all
  have a: "fst (plot_arrow ?s (PyInt 0) (PyInt 0) (PyInt 1) (PyInt 1) 1 (PyStr ''left'')
      (PyStr ''full'') (PyStr ''black'') (PyInt 0) (PyInt 1) (PyInt 1) PyNone ?K) = Inr ()"
    by (rule plot_arrow_returns) simp_all
  have m: "fst (plot_marker ?s ?x ?y (PyStr ''o'') (PyInt 4) (PyStr ''black'')
      (PyStr ''_nolegend_'') 1 ?K) = Inr ()"
    by (rule plot_marker_returns) simp_all
  have h: "fst (plot_axhline ?s ?y (PyInt 0) (PyInt 1) 1 PyNone False ?K) = Inr ()"
    by (simp add: plot_axhline_returns)
  have v: "fst (plot_axvline ?s ?x (PyInt 0) (PyInt 1) 1 PyNone False ?K) = Inr ()"
    by (simp add: plot_axvline_returns)
  have hi: "fst (hist ?s ?x (PyInt 10) 1 False PyNone (PyBool True) PyNone [] ?K PyNone) =
      Inr PyNone"
    by (rule hist_returns) simp
  have im: "fst (imshow ?s (PyList []) ?x ?y PyNone 1 PyNone PyNone ?K) = Inr (Some 0)"
    using imshow_returns [of ?s 1 ?K "PyList []" ?x ?y PyNone PyNone PyNone] i by simp
  have c: "fst (contour ?s (PyList []) ?x ?y ?K) = Inr ()"
    by (rule contour_returns [where w = 1]) (simp_all add: kw_get_def i)
  have l: "?K ''label'' = None"
    by simp
  note w = forwarders_pass_keywords [where kws = ?K and s = ?s and x = ?x and y = ?y
      and win = 1 and new = False and wsize = PyNone and wintitle = PyNone and theme = PyNone
      and ra = "Some 0" and trace = 1 and text' = "PyStr ''peak''" and rotation = PyNone
      and ha = "PyStr ''left''" and va = "PyStr ''center''" and side = "PyStr ''left''"
      and xa = "PyInt 0" and ya = "PyInt 0" and xb = "PyInt 1" and yb = "PyInt 1"
      and shape = "PyStr ''full''" and color = "PyStr ''black''" and width = "PyInt 0"
      and head_width = "PyInt 1" and head_length = "PyInt 1" and marker = "PyStr ''o''"
      and msize = "PyInt 4" and label = "PyStr ''_nolegend_''" and xmin = "PyInt 0"
      and xmax = "PyInt 1" and delay_draw = False and ymin = "PyInt 0" and ymax = "PyInt 1"
      and bins = "PyInt 10" and force_draw = "PyBool True" and title = PyNone and args = "[]"
      and out = PyNone and rb = PyNone and map' = "PyList []" and colormap = PyNone
      and rc = "Some 0"]
  show ?thesis
    using w n u t a m h v hi im c l by (simp del: fun_upd_apply)
qed

text \<open>
  The claim as first stated fails for \<^verbatim>\<open>contour\<close>, which overwrites a style the caller
  supplies, and for \<^verbatim>\<open>plot_axhline\<close>, which adds a label the caller did not supply: in a
  fresh module \<^verbatim>\<open>contour(map, style='image')\<close> calls \<^verbatim>\<open>display\<close> with
  \<^verbatim>\<open>style='contour'\<close>, and \<^verbatim>\<open>plot_axhline(y)\<close> calls \<^verbatim>\<open>axhline\<close> with
  \<^verbatim>\<open>label='_nolegend_'\<close>.
\<close>

theorem contour_overwrites_style:
  "fst (contour (initial [] None) (PyList []) PyNone PyNone [''style'' \<mapsto> PyStr ''image'']) = Inr ()
   \<and> map (call_keyword ''style'')
       (draw_calls [''display''] (initial [] None)
          (snd (contour (initial [] None) (PyList []) PyNone PyNone [''style'' \<mapsto> PyStr ''image'']))) =
     [Some (PyStr ''contour'')]
   \<and> fst (plot_axhline (initial [] None) (PyInt 3) (PyInt 0) (PyInt 1) 1 PyNone False Map.empty) = Inr ()
   \<and> map (call_keyword ''label'')
       (draw_calls [''panel.axes.axhline''] (initial [] None)
          (snd (plot_axhline (initial [] None) (PyInt 3) (PyInt 0) (PyInt 1) 1 PyNone False Map.empty))) =
     [Some (PyStr ''_nolegend_'')]"
proof -
  have i: "IMG_DISPLAYS (initial [] None) = Map.empty"
    by (simp add: initial_def)
  have c: "fst (contour (initial [] None) (PyList []) PyNone PyNone [''style'' \<mapsto> PyStr ''image'']) = Inr ()"
    by (rule contour_returns [where w = 1]) (simp_all add: kw_get_def i)
  have s: "map (call_keyword ''style'')
       (draw_calls [''display''] (initial [] None)
          (snd (contour (initial [] None) (PyList []) PyNone PyNone [''style'' \<mapsto> PyStr ''image'']))) =
     [Some (PyStr ''contour'')]"
    using contour_passes [OF c] by (rule passes_through_keyword) (simp add: kw_rest_def)
  have h: "fst (plot_axhline (initial [] None) (PyInt 3) (PyInt 0) (PyInt 1) 1 PyNone False Map.empty) = Inr ()"
    by (simp add: plot_axhline_returns)
  from c s h plot_axhline_passes(2) [OF h] show ?thesis
    by simp
qed

end
